theory Spec2Isabelle
  imports Main "HOL-Library.Word"
begin

unbundle bit_operations_syntax

section \<open>PL/v8 handler routines (plv8.cc): data model\<close>

text \<open>
  The handler sits between two worlds: the database (datums, heap tuples, tuple
  descriptors, the catalog, SPI) and the scripting engine (values, functions, contexts,
  persistent handles). Both are collaborators of plv8.cc; what the handler reads of them
  is modelled here as plain data.
\<close>

subsection \<open>Database side\<close>

type_synonym Oid = nat
type_synonym TransactionId = nat

record ItemPointerData =
  ip_blkid :: nat
  ip_posid :: nat

text \<open>
  A \<open>Datum\<close> is a machine word that either is a value or points to one. \<open>(Datum) 0\<close>,
  which is also the null pointer, is \<open>Int_Datum 0\<close>. A heap tuple is its columns in
  order, \<open>None\<close> for SQL NULL.
\<close>

datatype Datum =
    Int_Datum int
  | Text_Datum string
  | HeapTuple_Datum "Datum option list"

type_synonym HeapTuple = "Datum option list"

definition PointerGetDatum :: "HeapTuple option \<Rightarrow> Datum" where
  "PointerGetDatum p = (case p of None \<Rightarrow> Int_Datum 0 | Some t \<Rightarrow> HeapTuple_Datum t)"

record Form_pg_attribute =
  attname :: string
  atttypid :: Oid

type_synonym TupleDesc = "Form_pg_attribute list"

text \<open>
  \<open>heap_getattr(tuple, c + 1, tupdesc, &isnull)\<close>: column \<open>c\<close> of the tuple; a column the
  tuple does not store reads as NULL.
\<close>

definition heap_getattr :: "HeapTuple \<Rightarrow> nat \<Rightarrow> Datum option" where
  "heap_getattr tuple c = (if c < length tuple then tuple ! c else None)"

text \<open>
  The per-column type descriptor \<open>plv8_type\<close> is declared in plv8.h; only its type oid
  is visible from plv8.cc.
\<close>

record plv8_type =
  typid :: Oid

text \<open>\<open>class Converter\<close>: the members its constructors initialise.\<close>

record Converter =
  m_tupdesc :: TupleDesc
  m_colnames :: "string list"
  m_coltypes :: "plv8_type list"
  m_is_scalar :: bool

subsection \<open>Engine side\<close>

text \<open>
  What an internal field of the \<open>plv8\<close> object can point to through
  \<open>External::Wrap\<close>: the converter of the running set-returning call, or its tuplestore
  (an address into the session's tuplestores).
\<close>

datatype external =
    Conv_ptr Converter
  | Tupstore_ptr nat

text \<open>
  Engine values. An object is its own properties in insertion order and its prototype
  (\<open>null\<close> where the chain ends); an array is its elements and its prototype; a
  function is its identity, its own properties and its prototype. A property whose read
  throws (an accessor) is \<open>None\<close>, for which \<open>Object::Get\<close> hands back an empty handle.
  The numeric payload is never inspected by plv8.cc.
\<close>

datatype js_value =
    JS_Undefined
  | JS_Null
  | JS_Boolean bool
  | JS_Number int
  | JS_String string
  | JS_Array "js_value list" js_value
  | JS_Object "(string \<times> js_value option) list" js_value
  | JS_Function nat "(string \<times> js_value option) list" js_value
  | JS_External external

fun IsUndefined :: "js_value \<Rightarrow> bool" where
  "IsUndefined JS_Undefined = True"
| "IsUndefined _ = False"

fun IsNull :: "js_value \<Rightarrow> bool" where
  "IsNull JS_Null = True"
| "IsNull _ = False"

fun IsArray :: "js_value \<Rightarrow> bool" where
  "IsArray (JS_Array xs proto) = True"
| "IsArray _ = False"

text \<open>\<open>Value::IsObject()\<close> holds of arrays and functions too.\<close>

fun IsObject :: "js_value \<Rightarrow> bool" where
  "IsObject (JS_Array xs proto) = True"
| "IsObject (JS_Object props proto) = True"
| "IsObject (JS_Function f props proto) = True"
| "IsObject _ = False"

text \<open>
  \<open>Array::Length()\<close> is a \<open>uint32_t\<close>; \<open>Array::Get(i)\<close> reads \<open>undefined\<close> past the
  end and in a hole.
\<close>

definition Array_Length :: "js_value list \<Rightarrow> 32 word" where
  "Array_Length xs = word_of_nat (length xs)"

definition Array_Get :: "js_value list \<Rightarrow> nat \<Rightarrow> js_value" where
  "Array_Get xs i = (if i < length xs then xs ! i else JS_Undefined)"

text \<open>
  An array index as a property name is its canonical decimal form: digits only, no
  leading zero.
\<close>

definition digit_of :: "char \<Rightarrow> nat option" where
  "digit_of c =
     (let n = (of_char c :: nat) in if 48 \<le> n \<and> n \<le> 57 then Some (n - 48) else None)"

fun decimal_of :: "nat \<Rightarrow> string \<Rightarrow> nat option" where
  "decimal_of acc [] = Some acc"
| "decimal_of acc (c # cs) =
     (case digit_of c of None \<Rightarrow> None | Some d \<Rightarrow> decimal_of (10 * acc + d) cs)"

definition array_index :: "string \<Rightarrow> nat option" where
  "array_index name =
     (case name of
        [] \<Rightarrow> None
      | c # cs \<Rightarrow> if c = CHR ''0'' \<and> cs \<noteq> [] then None else decimal_of 0 name)"

text \<open>
  \<open>Object::Get(name)\<close> on a value that \<open>IsObject\<close>: the own property of that name if
  there is one, else what the prototype has under that name, and so on along the
  prototype chain; \<open>undefined\<close> when the chain ends without the name having been found;
  the empty handle (\<open>None\<close>) when reading the property throws. So a name that the
  object itself lacks but a prototype has (\<open>constructor\<close> or \<open>toString\<close> on an
  object literal) reads as the inherited value. An array's own properties are
  \<open>length\<close> and its elements under their indices.
\<close>

fun Object_Get :: "js_value \<Rightarrow> string \<Rightarrow> js_value option" where
  "Object_Get (JS_Object props proto) name =
     (case map_of props name of None \<Rightarrow> Object_Get proto name | Some p \<Rightarrow> p)"
| "Object_Get (JS_Function f props proto) name =
     (case map_of props name of None \<Rightarrow> Object_Get proto name | Some p \<Rightarrow> p)"
| "Object_Get (JS_Array xs proto) name =
     (if name = ''length'' then Some (JS_Number (int (length xs)))
      else case array_index name of
             None \<Rightarrow> Object_Get proto name
           | Some i \<Rightarrow> if i < length xs then Some (Array_Get xs i) else Object_Get proto name)"
| "Object_Get _ name = Some JS_Undefined"

text \<open>
  \<open>Object::Set(name, v)\<close> on the own properties: replaces the property in place or
  appends it.
\<close>


fun Object_Set :: "(string \<times> js_value option) list \<Rightarrow> string \<Rightarrow> js_value
    \<Rightarrow> (string \<times> js_value option) list" where
  "Object_Set [] name v = [(name, Some v)]"
| "Object_Set ((k, x) # props) name v =
     (if k = name then (k, Some v) # props else (k, x) # Object_Set props name v)"

text \<open>
  \<open>Uint32::New(value)\<close>: class \<open>Uint32\<close> of this engine declares no \<open>New\<close> of its own,
  so the call is \<open>Integer::New(int32_t)\<close> and the 32 bits are read as a signed integer.
\<close>

definition Uint32_New :: "nat \<Rightarrow> js_value" where
  "Uint32_New value = JS_Number (sint (word_of_nat value :: 32 word))"

text \<open>
  A compiled function object: its identity, the wrapped source text it was compiled
  from, the script name, and the context it was compiled in.
\<close>

record js_function =
  fn_id :: nat
  fn_source :: string
  fn_name :: "string option"
  fn_context :: nat

text \<open>
  The receiver of a call: the \<open>recv\<close> object of an execution environment (by its
  identity), or the global object of a context.
\<close>

datatype receiver = Recv nat | Global nat

subsection \<open>Errors\<close>

text \<open>
  The two C++ exception classes, with the message a \<open>js_error\<close> carries or the message
  of the \<open>ereport(ERROR)\<close> behind a \<open>pg_error\<close>. \<open>null_handle\<close> stands for what the source
  does not define: dereferencing an empty engine handle or a null pointer.
\<close>

datatype error =
    js_error string
  | pg_error string
  | null_handle

subsection \<open>What a running script can reach\<close>

datatype spi_event = SPI_Connect | SPI_Finish

datatype plv8_intnl = PLV8_INTNL_CONV | PLV8_INTNL_TUPSTORE

text \<open>
  The part of the process a script can change while it runs: the SPI connection stack
  of the host (with a log of the connects and finishes made), the tuplestores (by
  address), the internal fields of each context's \<open>plv8\<close> object (by context; \<open>None\<close> is
  an empty handle), and each context's global bindings. A script reaches the tuplestores
  through \<open>plv8.return_next\<close> and the internal fields through set-returning calls nested
  in its queries; what such a nested call does to the procedure cache and the context
  registry is not followed.
\<close>

record session =
  spi_refuse :: bool
  spi_depth :: nat
  spi_log :: "spi_event list"
  tuplestore_rows :: "nat \<Rightarrow> HeapTuple list"
  tuplestore_next :: nat
  intnl_fields :: "nat \<Rightarrow> plv8_intnl \<Rightarrow> js_value option"
  globals :: "nat \<Rightarrow> string \<Rightarrow> js_value option"

subsection \<open>Collaborators taken as parameters\<close>

text \<open>
  The scalar conversions and \<open>plv8_fill_type\<close> live in plv8_type.cc, and the engine
  compiles and runs scripts as a black box. They are parameters of the model:
  \<^item> \<open>h_fill_type typid\<close>: the descriptor, \<open>None\<close> when the host raises an error;
  \<^item> \<open>h_ToDatum v ty\<close>: \<open>::ToDatum(v, &isnull, ty)\<close>, the datum and the null flag, or
    the exception thrown;
  \<^item> \<open>h_ToValue d isnull ty\<close>: \<open>::ToValue(d, isnull, ty)\<close>;
  \<^item> \<open>h_Script_Run src\<close>: \<open>Script::New\<close> and \<open>Run\<close> of a wrapped source, the
    exception message when either yields an empty handle;
  \<^item> \<open>h_Call fn recv args s\<close>: \<open>fn->Call(recv, nargs, args)\<close> in session \<open>s\<close>: the
    value returned, or \<open>Inl\<close> the exception message when the handle comes back empty,
    and the session as the script left it;
  \<^item> \<open>h_Object_prototype\<close>, \<open>h_Array_prototype\<close>: the prototypes that objects made
    by \<open>Object::New\<close>, by an object template and by \<open>Array::New\<close> get in the entered
    context.
\<close>

record host =
  h_fill_type :: "Oid \<Rightarrow> plv8_type option"
  h_ToDatum :: "js_value \<Rightarrow> plv8_type \<Rightarrow> error + (Datum \<times> bool)"
  h_ToValue :: "Datum \<Rightarrow> bool \<Rightarrow> plv8_type \<Rightarrow> error + js_value"
  h_Script_Run :: "string \<Rightarrow> string option"
  h_Call :: "js_function \<Rightarrow> receiver \<Rightarrow> js_value list \<Rightarrow> session
    \<Rightarrow> (string + js_value) \<times> session"
  h_Object_prototype :: js_value
  h_Array_prototype :: js_value

section \<open>Converter\<close>

text \<open>
  \<open>Converter::Init\<close>: one column name and one type descriptor per attribute; a host
  error in \<open>plv8_fill_type\<close> is rethrown as \<open>pg_error\<close>.
\<close>

fun Converter_Init :: "host \<Rightarrow> TupleDesc \<Rightarrow> error + (string list \<times> plv8_type list)" where
  "Converter_Init H [] = Inr ([], [])"
| "Converter_Init H (a # attrs) =
     (case h_fill_type H (atttypid a) of
        None \<Rightarrow> Inl (pg_error ''plv8_fill_type'')
      | Some ty \<Rightarrow>
          (case Converter_Init H attrs of
             Inl e \<Rightarrow> Inl e
           | Inr (names, types) \<Rightarrow> Inr (attname a # names, ty # types)))"

definition Converter_new :: "host \<Rightarrow> TupleDesc \<Rightarrow> bool \<Rightarrow> error + Converter" where
  "Converter_new H tupdesc is_scalar =
     (case Converter_Init H tupdesc of
        Inl e \<Rightarrow> Inl e
      | Inr (names, types) \<Rightarrow>
          Inr \<lparr>m_tupdesc = tupdesc, m_colnames = names, m_coltypes = types,
               m_is_scalar = is_scalar\<rparr>)"

text \<open>
  \<open>Converter::ToValue(tuple)\<close>: an object with one property per column, set in column
  order.
\<close>

fun ToValue_columns :: "host \<Rightarrow> Converter \<Rightarrow> HeapTuple \<Rightarrow> nat list
    \<Rightarrow> (string \<times> js_value option) list \<Rightarrow> error + (string \<times> js_value option) list" where
  "ToValue_columns H conv tuple [] obj = Inr obj"
| "ToValue_columns H conv tuple (c # cs) obj =
     (let col = heap_getattr tuple c;
          datum = (case col of None \<Rightarrow> Int_Datum 0 | Some d \<Rightarrow> d);
          isnull = (col = None)
      in case h_ToValue H datum isnull (m_coltypes conv ! c) of
           Inl e \<Rightarrow> Inl e
         | Inr v \<Rightarrow> ToValue_columns H conv tuple cs (Object_Set obj (m_colnames conv ! c) v))"

definition Converter_ToValue :: "host \<Rightarrow> Converter \<Rightarrow> HeapTuple \<Rightarrow> error + js_value" where
  "Converter_ToValue H conv tuple =
     (case ToValue_columns H conv tuple [0..<length (m_tupdesc conv)] [] of
        Inl e \<Rightarrow> Inl e
      | Inr obj \<Rightarrow> Inr (JS_Object obj (h_Object_prototype H)))"

text \<open>
  The column loop of \<open>Converter::ToDatum\<close>: a column whose attribute handle is empty,
  undefined or null gets its null flag set, any other is converted by \<open>::ToDatum\<close>. \<open>values[c]\<close> and \<open>nulls[c]\<close> are read only by
  \<open>heap_form_tuple\<close> and \<open>tuplestore_putvalues\<close>, which ignore \<open>values[c]\<close> where
  \<open>nulls[c]\<close> is set: the two arrays are kept as one list of optional datums.
\<close>

definition ToDatum_attr :: "Converter \<Rightarrow> js_value \<Rightarrow> nat \<Rightarrow> js_value option" where
  "ToDatum_attr conv value c =
     (if m_is_scalar conv then Some value else Object_Get value (m_colnames conv ! c))"

definition attr_is_null :: "js_value option \<Rightarrow> bool" where
  "attr_is_null attr =
     (case attr of None \<Rightarrow> True | Some v \<Rightarrow> IsUndefined v \<or> IsNull v)"

definition ToDatum_column :: "host \<Rightarrow> Converter \<Rightarrow> js_value \<Rightarrow> nat \<Rightarrow> error + Datum option" where
  "ToDatum_column H conv value c =
     (let attr = ToDatum_attr conv value c in
      if attr_is_null attr then Inr None
      else
        (case h_ToDatum H (the attr) (m_coltypes conv ! c) of
           Inl e \<Rightarrow> Inl e
         | Inr (d, isnull) \<Rightarrow> Inr (if isnull then None else Some d)))"

fun ToDatum_columns :: "host \<Rightarrow> Converter \<Rightarrow> js_value \<Rightarrow> nat list \<Rightarrow> error + HeapTuple" where
  "ToDatum_columns H conv value [] = Inr []"
| "ToDatum_columns H conv value (c # cs) =
     (case ToDatum_column H conv value c of
        Inl e \<Rightarrow> Inl e
      | Inr col \<Rightarrow>
          (case ToDatum_columns H conv value cs of
             Inl e \<Rightarrow> Inl e
           | Inr row \<Rightarrow> Inr (col # row)))"

text \<open>\<open>tuplestore_putvalues\<close>: one more row at the end of the tuplestore.\<close>

definition tuplestore_putvalues :: "nat \<Rightarrow> HeapTuple \<Rightarrow> session \<Rightarrow> session" where
  "tuplestore_putvalues tupstore row s =
     s\<lparr>tuplestore_rows := (tuplestore_rows s)(tupstore := tuplestore_rows s tupstore @ [row])\<rparr>"

text \<open>
  \<open>Converter::ToDatum(value, tupstore)\<close>, first half: unless the converter is
  scalar-shaped the value must be an object; then the column loop builds the row.
\<close>

definition Converter_row :: "host \<Rightarrow> Converter \<Rightarrow> js_value \<Rightarrow> error + HeapTuple" where
  "Converter_row H conv value =
     (if \<not> m_is_scalar conv \<and> \<not> IsObject value then
        Inl (js_error ''argument must be an object'')
      else ToDatum_columns H conv value [0..<length (m_tupdesc conv)])"

text \<open>
  Second half: the row goes to the tuplestore when one is given (and the result is
  \<open>(Datum) 0\<close>), else it is returned as a tuple datum.
\<close>

definition Converter_ToDatum :: "host \<Rightarrow> Converter \<Rightarrow> js_value \<Rightarrow> nat option \<Rightarrow> session
    \<Rightarrow> (error + Datum) \<times> session" where
  "Converter_ToDatum H conv value tupstore s =
     (case Converter_row H conv value of
        Inl e \<Rightarrow> (Inl e, s)
      | Inr row \<Rightarrow>
          (case tupstore of
             Some t \<Rightarrow> (Inr (Int_Datum 0), tuplestore_putvalues t row s)
           | None \<Rightarrow> (Inr (HeapTuple_Datum row), s)))"

section \<open>Calling into the engine\<close>

subsection \<open>The host's SPI\<close>

text \<open>
  Status codes of the host's executor/spi.h.
\<close>

definition SPI_OK_CONNECT :: int where "SPI_OK_CONNECT = 1"
definition SPI_OK_FINISH :: int where "SPI_OK_FINISH = 2"
definition SPI_ERROR_CONNECT :: int where "SPI_ERROR_CONNECT = - 1"
definition SPI_ERROR_COPY :: int where "SPI_ERROR_COPY = - 2"
definition SPI_ERROR_OPUNKNOWN :: int where "SPI_ERROR_OPUNKNOWN = - 3"
definition SPI_ERROR_UNCONNECTED :: int where "SPI_ERROR_UNCONNECTED = - 4"
definition SPI_ERROR_CURSOR :: int where "SPI_ERROR_CURSOR = - 5"
definition SPI_ERROR_ARGUMENT :: int where "SPI_ERROR_ARGUMENT = - 6"
definition SPI_ERROR_PARAM :: int where "SPI_ERROR_PARAM = - 7"
definition SPI_ERROR_TRANSACTION :: int where "SPI_ERROR_TRANSACTION = - 8"
definition SPI_ERROR_NOATTRIBUTE :: int where "SPI_ERROR_NOATTRIBUTE = - 9"
definition SPI_ERROR_NOOUTFUNC :: int where "SPI_ERROR_NOOUTFUNC = - 10"
definition SPI_ERROR_TYPUNKNOWN :: int where "SPI_ERROR_TYPUNKNOWN = - 11"

text \<open>
  The relational query session of the host, as far as \<open>DoCall\<close> uses it: \<open>SPI_connect\<close>
  opens a session (pushes one level on the connection stack) unless the host refuses,
  \<open>SPI_finish\<close> closes the innermost one and fails when none is open. Both return a
  status code.
\<close>

definition SPI_connect :: "session \<Rightarrow> int \<times> session" where
  "SPI_connect s =
     (if spi_refuse s then (SPI_ERROR_CONNECT, s)
      else (SPI_OK_CONNECT,
            s\<lparr>spi_depth := Suc (spi_depth s), spi_log := spi_log s @ [SPI_Connect]\<rparr>))"

definition SPI_finish :: "session \<Rightarrow> int \<times> session" where
  "SPI_finish s =
     (if spi_depth s = 0 then (SPI_ERROR_UNCONNECTED, s)
      else (SPI_OK_FINISH,
            s\<lparr>spi_depth := spi_depth s - 1, spi_log := spi_log s @ [SPI_Finish]\<rparr>))"

subsection \<open>\<open>FormatSPIStatus\<close>\<close>

definition digit_char :: "nat \<Rightarrow> char" where
  "digit_char d = char_of (d + 48)"

fun string_of_nat :: "nat \<Rightarrow> string" where
  "string_of_nat n =
     (if 10 \<le> n then string_of_nat (n div 10) @ [digit_char (n mod 10)] else [digit_char n])"

definition string_of_int :: "int \<Rightarrow> string" where
  "string_of_int i = (if i < 0 then CHR ''-'' # string_of_nat (nat (- i)) else string_of_nat (nat i))"

definition FormatSPIStatus :: "int \<Rightarrow> string" where
  "FormatSPIStatus status =
     (if status > 0 then ''OK''
      else if status = SPI_ERROR_CONNECT then ''SPI_ERROR_CONNECT''
      else if status = SPI_ERROR_COPY then ''SPI_ERROR_COPY''
      else if status = SPI_ERROR_OPUNKNOWN then ''SPI_ERROR_OPUNKNOWN''
      else if status = SPI_ERROR_UNCONNECTED \<or> status = SPI_ERROR_TRANSACTION then
        ''current transaction is aborted, commands ignored until end of transaction block''
      else if status = SPI_ERROR_CURSOR then ''SPI_ERROR_CURSOR''
      else if status = SPI_ERROR_ARGUMENT then ''SPI_ERROR_ARGUMENT''
      else if status = SPI_ERROR_PARAM then ''SPI_ERROR_PARAM''
      else if status = SPI_ERROR_NOATTRIBUTE then ''SPI_ERROR_NOATTRIBUTE''
      else if status = SPI_ERROR_NOOUTFUNC then ''SPI_ERROR_NOOUTFUNC''
      else if status = SPI_ERROR_TYPUNKNOWN then ''SPI_ERROR_TYPUNKNOWN''
      else ''SPI_ERROR: '' @ string_of_int status)"

subsection \<open>\<open>DoCall\<close>\<close>

text \<open>
  \<open>DoCall\<close>: connect to SPI, call the function, finish SPI, and only then look at the
  result: an empty result handle becomes a \<open>js_error\<close> with the exception of the
  \<open>TryCatch\<close>, a negative finish status a \<open>js_error\<close> with the formatted status.
\<close>

definition DoCall :: "host \<Rightarrow> js_function \<Rightarrow> receiver \<Rightarrow> js_value list \<Rightarrow> session
    \<Rightarrow> (error + js_value) \<times> session" where
  "DoCall H fn receiver args s =
     (case SPI_connect s of
        (rc, s1) \<Rightarrow>
          if rc \<noteq> SPI_OK_CONNECT then
            (Inl (js_error ''could not connect to SPI manager''), s1)
          else
            (case h_Call H fn receiver args s1 of
               (result, s2) \<Rightarrow>
                 (case SPI_finish s2 of
                    (status, s3) \<Rightarrow>
                      (case result of
                         Inl exc \<Rightarrow> (Inl (js_error exc), s3)
                       | Inr v \<Rightarrow>
                           if status < 0 then (Inl (js_error (FormatSPIStatus status)), s3)
                           else (Inr v, s3)))))"

subsection \<open>Execution environments and call information\<close>

text \<open>
  The \<open>recv\<close> object of an execution environment: its identity and its internal field
  0, the compiled function.
\<close>

record recv_object =
  recv_id :: nat
  recv_function :: js_function

text \<open>
  \<open>struct plv8_exec_env\<close>. A persistent handle is \<open>None\<close> when it is empty; \<open>env_next\<close>
  is the address of the next environment in transaction memory.
\<close>

record plv8_exec_env =
  env_recv :: "recv_object option"
  env_context :: "nat option"
  env_next :: "nat option"

datatype TypeFuncClass = TYPEFUNC_SCALAR | TYPEFUNC_COMPOSITE | TYPEFUNC_RECORD | TYPEFUNC_OTHER

text \<open>
  \<open>struct plv8_proc\<close>; \<open>proc_cache\<close> points to the cache entry of that function oid,
  \<open>proc_xenv\<close> to an environment in transaction memory.
\<close>

record plv8_proc =
  proc_cache :: Oid
  proc_xenv :: "nat option"
  functypclass :: TypeFuncClass
  proc_rettype :: plv8_type
  proc_argtypes :: "plv8_type list"

definition SFRM_Materialize :: "32 word" where "SFRM_Materialize = 2"

record ReturnSetInfo =
  allowedModes :: "32 word"
  expectedDesc :: TupleDesc
  returnMode :: "32 word"
  setResult :: "nat option"
  setDesc :: "TupleDesc option"

datatype trigger_op =
  TRIGGER_EVENT_INSERT | TRIGGER_EVENT_DELETE | TRIGGER_EVENT_UPDATE | TRIGGER_EVENT_TRUNCATE

text \<open>
  The trigger event word read through the host's macros: the operation
  (\<open>TRIGGER_FIRED_BY_...\<close>, mutually exclusive), \<open>TRIGGER_FIRED_FOR_ROW\<close> and
  \<open>TRIGGER_FIRED_BEFORE\<close>.
\<close>

record TriggerEvent =
  fired_by :: trigger_op
  fired_for_row :: bool
  fired_before :: bool

record Relation =
  rd_id :: Oid
  rd_relname :: string
  rd_namespace_name :: string
  rd_att :: TupleDesc

text \<open>\<open>tgnargs\<close> is the length of \<open>tgargs\<close>.\<close>

record Trigger =
  tgname :: string
  tgargs :: "string list"

record TriggerData =
  tg_event :: TriggerEvent
  tg_relation :: Relation
  tg_trigtuple :: "HeapTuple option"
  tg_newtuple :: "HeapTuple option"
  tg_trigger :: Trigger

datatype Node =
    T_ReturnSetInfo ReturnSetInfo
  | T_TriggerData TriggerData
  | T_Other

text \<open>
  \<open>FunctionCallInfoData\<close> with the fields of its \<open>flinfo\<close> that the handler reads.
  \<open>call_result_type\<close> is what the host's \<open>get_call_result_type(fcinfo, NULL, NULL)\<close>
  answers for this call site.
\<close>

record FunctionCallInfoData =
  flinfo_fn_oid :: Oid
  flinfo_fn_extra :: "plv8_proc option"
  fc_arg :: "Datum list"
  fc_argnull :: "bool list"
  fc_isnull :: bool
  resultinfo :: "Node option"
  fc_context :: "Node option"
  call_result_type :: TypeFuncClass

text \<open>
  The argument loop of \<open>CallFunction\<close> and \<open>CallSRFunction\<close>:
  \<open>args[i] = ToValue(fcinfo->arg[i], fcinfo->argnull[i], &argtypes[i])\<close>. Reading past
  what the caller filled in is not defined.
\<close>

fun ToValue_args :: "host \<Rightarrow> FunctionCallInfoData \<Rightarrow> plv8_type list \<Rightarrow> nat list
    \<Rightarrow> error + js_value list" where
  "ToValue_args H fcinfo argtypes [] = Inr []"
| "ToValue_args H fcinfo argtypes (i # rest) =
     (if i < length (fc_arg fcinfo) \<and> i < length (fc_argnull fcinfo) \<and> i < length argtypes then
        (case h_ToValue H (fc_arg fcinfo ! i) (fc_argnull fcinfo ! i) (argtypes ! i) of
           Inl e \<Rightarrow> Inl e
         | Inr v \<Rightarrow>
             (case ToValue_args H fcinfo argtypes rest of
                Inl e \<Rightarrow> Inl e
              | Inr vs \<Rightarrow> Inr (v # vs)))
      else Inl null_handle)"

text \<open>
  \<open>CallFunction\<close>: enter the context of the environment, convert the arguments, call
  the function held by the receiver, and convert the result when a return type is
  given (otherwise the call returns void).
\<close>

definition CallFunction :: "host \<Rightarrow> FunctionCallInfoData \<Rightarrow> plv8_exec_env \<Rightarrow> nat
    \<Rightarrow> plv8_type list \<Rightarrow> plv8_type option \<Rightarrow> session
    \<Rightarrow> (error + Datum) \<times> FunctionCallInfoData \<times> session" where
  "CallFunction H fcinfo xenv nargs argtypes rettype s =
     (case env_context xenv of
        None \<Rightarrow> (Inl null_handle, fcinfo, s)
      | Some context \<Rightarrow>
     (case ToValue_args H fcinfo argtypes [0..<nargs] of
        Inl e \<Rightarrow> (Inl e, fcinfo, s)
      | Inr args \<Rightarrow>
     (case env_recv xenv of
        None \<Rightarrow> (Inl null_handle, fcinfo, s)
      | Some r \<Rightarrow>
     (case DoCall H (recv_function r) (Recv (recv_id r)) args s of
        (Inl e, s') \<Rightarrow> (Inl e, fcinfo, s')
      | (Inr result, s') \<Rightarrow>
          (case rettype of
             None \<Rightarrow> (Inr (Int_Datum 0), fcinfo, s')
           | Some ty \<Rightarrow>
               (case h_ToDatum H result ty of
                  Inl e \<Rightarrow> (Inl e, fcinfo, s')
                | Inr (d, isnull) \<Rightarrow> (Inr d, fcinfo\<lparr>fc_isnull := isnull\<rparr>, s')))))))"

section \<open>Set-returning calls\<close>

text \<open>
  \<open>CreateTupleStore\<close>: the caller must have passed a \<open>ReturnSetInfo\<close> that allows
  materialize mode; the result type class is looked up when the cached one is zero
  (\<open>TYPEFUNC_SCALAR\<close>); a fresh tuplestore is begun and recorded in the
  \<open>ReturnSetInfo\<close>. Host errors are rethrown as \<open>pg_error\<close>.
\<close>

definition CreateTupleStore :: "FunctionCallInfoData \<Rightarrow> session
    \<Rightarrow> (error + nat \<times> TupleDesc) \<times> FunctionCallInfoData \<times> session" where
  "CreateTupleStore fcinfo s =
     (case resultinfo fcinfo of
        Some (T_ReturnSetInfo rsinfo) \<Rightarrow>
          if allowedModes rsinfo AND SFRM_Materialize = 0 then
            (Inl (pg_error ''materialize mode required, but it is not allowed in this context''),
             fcinfo, s)
          else
            (case flinfo_fn_extra fcinfo of
               None \<Rightarrow> (Inl null_handle, fcinfo, s)
             | Some proc \<Rightarrow>
                 let proc' = (if functypclass proc = TYPEFUNC_SCALAR
                              then proc\<lparr>functypclass := call_result_type fcinfo\<rparr> else proc);
                     tupstore = tuplestore_next s;
                     s' = s\<lparr>tuplestore_next := Suc tupstore,
                            tuplestore_rows := (tuplestore_rows s)(tupstore := [])\<rparr>;
                     tupdesc = (case setDesc rsinfo of None \<Rightarrow> expectedDesc rsinfo | Some d \<Rightarrow> d);
                     rsinfo' = rsinfo\<lparr>returnMode := SFRM_Materialize, setResult := Some tupstore,
                                      setDesc := Some tupdesc\<rparr>
                 in (Inr (tupstore, tupdesc),
                     fcinfo\<lparr>flinfo_fn_extra := Some proc',
                            resultinfo := Some (T_ReturnSetInfo rsinfo')\<rparr>,
                     s'))
      | _ \<Rightarrow>
          (Inl (pg_error ''set-valued function called in context that cannot accept a set''),
           fcinfo, s))"

definition GetInternalField :: "nat \<Rightarrow> plv8_intnl \<Rightarrow> session \<Rightarrow> js_value option" where
  "GetInternalField context field s = intnl_fields s context field"

definition SetInternalField :: "nat \<Rightarrow> plv8_intnl \<Rightarrow> js_value option \<Rightarrow> session \<Rightarrow> session" where
  "SetInternalField context field v s =
     s\<lparr>intnl_fields := (intnl_fields s)(context := (intnl_fields s context)(field := v))\<rparr>"

text \<open>
  The first part of \<open>CallSRFunction\<close>, up to and including the restoring of the
  internal fields: create the tuplestore, build the converter, stash the fields of
  the context's \<open>plv8\<close> object when the converter field is not empty, install this
  call's converter and tuplestore, convert the arguments, call the function, and put
  back what was stashed. It yields the result of the engine, the converter and the
  tuplestore.
\<close>

definition CallSRFunction_call :: "host \<Rightarrow> FunctionCallInfoData \<Rightarrow> plv8_exec_env \<Rightarrow> nat
    \<Rightarrow> plv8_type list \<Rightarrow> session
    \<Rightarrow> (error + js_value \<times> Converter \<times> nat) \<times> FunctionCallInfoData \<times> session" where
  "CallSRFunction_call H fcinfo xenv nargs argtypes s =
     (case CreateTupleStore fcinfo s of
        (Inl e, fcinfo1, s1) \<Rightarrow> (Inl e, fcinfo1, s1)
      | (Inr (tupstore, tupdesc), fcinfo1, s1) \<Rightarrow>
     (case env_context xenv of
        None \<Rightarrow> (Inl null_handle, fcinfo1, s1)
      | Some context \<Rightarrow>
     (case flinfo_fn_extra fcinfo1 of
        None \<Rightarrow> (Inl null_handle, fcinfo1, s1)
      | Some proc \<Rightarrow>
     (case Converter_new H tupdesc (functypclass proc = TYPEFUNC_SCALAR) of
        Inl e \<Rightarrow> (Inl e, fcinfo1, s1)
      | Inr conv \<Rightarrow>
          let (conv_prev, tupstore_prev) =
                (if GetInternalField context PLV8_INTNL_CONV s1 \<noteq> None
                 then (GetInternalField context PLV8_INTNL_CONV s1,
                       GetInternalField context PLV8_INTNL_TUPSTORE s1)
                 else (None, None));
              s2 = SetInternalField context PLV8_INTNL_CONV
                     (Some (JS_External (Conv_ptr conv))) s1;
              s3 = SetInternalField context PLV8_INTNL_TUPSTORE
                     (Some (JS_External (Tupstore_ptr tupstore))) s2
          in
     (case ToValue_args H fcinfo1 argtypes [0..<nargs] of
        Inl e \<Rightarrow> (Inl e, fcinfo1, s3)
      | Inr args \<Rightarrow>
     (case env_recv xenv of
        None \<Rightarrow> (Inl null_handle, fcinfo1, s3)
      | Some r \<Rightarrow>
     (case DoCall H (recv_function r) (Recv (recv_id r)) args s3 of
        (Inl e, s4) \<Rightarrow> (Inl e, fcinfo1, s4)
      | (Inr result, s4) \<Rightarrow>
          let s5 = SetInternalField context PLV8_INTNL_CONV conv_prev s4;
              s6 = SetInternalField context PLV8_INTNL_TUPSTORE tupstore_prev s5
          in (Inr (result, conv, tupstore), fcinfo1, s6))))))))"

text \<open>
  The loop over a returned array: \<open>int length = array->Length()\<close> reads the unsigned
  length as a signed \<open>int\<close>, and \<open>i\<close> runs from 0 while \<open>i < length\<close>.
\<close>

function SRF_array_loop :: "host \<Rightarrow> Converter \<Rightarrow> js_value list \<Rightarrow> nat \<Rightarrow> int \<Rightarrow> int
    \<Rightarrow> session \<Rightarrow> (error + unit) \<times> session" where
  "SRF_array_loop H conv array tupstore len i s =
     (if i < len then
        (case Converter_ToDatum H conv (Array_Get array (nat i)) (Some tupstore) s of
           (Inl e, s') \<Rightarrow> (Inl e, s')
         | (Inr d, s') \<Rightarrow> SRF_array_loop H conv array tupstore len (i + 1) s')
      else (Inr (), s))"
  by pat_completeness auto
termination
  by (relation "measure (\<lambda>(H, conv, array, tupstore, len, i, s). nat (len - i))") auto

declare SRF_array_loop.simps [simp del]

text \<open>
  The second part of \<open>CallSRFunction\<close>: nothing more for \<open>undefined\<close>, one row per
  element for an array, one row for anything else.
\<close>

definition CallSRFunction_result :: "host \<Rightarrow> Converter \<Rightarrow> js_value \<Rightarrow> nat \<Rightarrow> session
    \<Rightarrow> (error + Datum) \<times> session" where
  "CallSRFunction_result H conv result tupstore s =
     (if IsUndefined result then (Inr (Int_Datum 0), s)
      else
        (case result of
           JS_Array array proto \<Rightarrow>
             (case SRF_array_loop H conv array tupstore (sint (Array_Length array)) 0 s of
                (Inl e, s') \<Rightarrow> (Inl e, s')
              | (Inr u, s') \<Rightarrow> (Inr (Int_Datum 0), s'))
         | _ \<Rightarrow>
             (case Converter_ToDatum H conv result (Some tupstore) s of
                (Inl e, s') \<Rightarrow> (Inl e, s')
              | (Inr d, s') \<Rightarrow> (Inr (Int_Datum 0), s'))))"

definition CallSRFunction :: "host \<Rightarrow> FunctionCallInfoData \<Rightarrow> plv8_exec_env \<Rightarrow> nat
    \<Rightarrow> plv8_type list \<Rightarrow> session \<Rightarrow> (error + Datum) \<times> FunctionCallInfoData \<times> session" where
  "CallSRFunction H fcinfo xenv nargs argtypes s =
     (case CallSRFunction_call H fcinfo xenv nargs argtypes s of
        (Inl e, fcinfo', s') \<Rightarrow> (Inl e, fcinfo', s')
      | (Inr (result, conv, tupstore), fcinfo', s') \<Rightarrow>
          (case CallSRFunction_result H conv result tupstore s' of
             (r, s'') \<Rightarrow> (r, fcinfo', s'')))"

section \<open>Trigger calls\<close>

definition ToString :: "string \<Rightarrow> js_value" where
  "ToString str = JS_String str"

text \<open>
  \<open>CallTrigger\<close>, the row arguments: for a row-level trigger a converter for the
  relation's row type is built, \<open>result\<close> starts as the tuple the host would use
  (\<open>tg_trigtuple\<close> for INSERT and DELETE, \<open>tg_newtuple\<close> for UPDATE) and NEW and OLD are
  the tuples as objects; for a statement-level trigger \<open>result\<close> stays \<open>(Datum) 0\<close> and
  both are \<open>undefined\<close>. A row-level event that is none of the three leaves \<open>args[0]\<close>
  and \<open>args[1]\<close> empty handles, which the engine is not defined on.
\<close>

definition CallTrigger_tuples :: "host \<Rightarrow> TriggerData \<Rightarrow> error + Datum \<times> js_value \<times> js_value" where
  "CallTrigger_tuples H trig =
     (if fired_for_row (tg_event trig) then
        (case Converter_new H (rd_att (tg_relation trig)) False of
           Inl e \<Rightarrow> Inl e
         | Inr conv \<Rightarrow>
             (case fired_by (tg_event trig) of
                TRIGGER_EVENT_INSERT \<Rightarrow>
                  (case tg_trigtuple trig of
                     None \<Rightarrow> Inl null_handle
                   | Some t \<Rightarrow>
                       (case Converter_ToValue H conv t of
                          Inl e \<Rightarrow> Inl e
                        | Inr v \<Rightarrow> Inr (PointerGetDatum (tg_trigtuple trig), v, JS_Undefined)))
              | TRIGGER_EVENT_DELETE \<Rightarrow>
                  (case tg_trigtuple trig of
                     None \<Rightarrow> Inl null_handle
                   | Some t \<Rightarrow>
                       (case Converter_ToValue H conv t of
                          Inl e \<Rightarrow> Inl e
                        | Inr v \<Rightarrow> Inr (PointerGetDatum (tg_trigtuple trig), JS_Undefined, v)))
              | TRIGGER_EVENT_UPDATE \<Rightarrow>
                  (case tg_newtuple trig of
                     None \<Rightarrow> Inl null_handle
                   | Some tn \<Rightarrow>
                       (case Converter_ToValue H conv tn of
                          Inl e \<Rightarrow> Inl e
                        | Inr vn \<Rightarrow>
                            (case tg_trigtuple trig of
                               None \<Rightarrow> Inl null_handle
                             | Some t \<Rightarrow>
                                 (case Converter_ToValue H conv t of
                                    Inl e \<Rightarrow> Inl e
                                  | Inr v \<Rightarrow> Inr (PointerGetDatum (tg_newtuple trig), vn, v)))))
              | TRIGGER_EVENT_TRUNCATE \<Rightarrow> Inl null_handle))
      else Inr (Int_Datum 0, JS_Undefined, JS_Undefined))"

text \<open>
  The ten arguments: NEW, OLD, TG_NAME, TG_WHEN, TG_LEVEL, TG_OP, TG_RELID,
  TG_TABLE_NAME, TG_TABLE_SCHEMA, TG_ARGV.
\<close>

definition CallTrigger_args :: "host \<Rightarrow> TriggerData \<Rightarrow> error + Datum \<times> js_value list" where
  "CallTrigger_args H trig =
     (case CallTrigger_tuples H trig of
        Inl e \<Rightarrow> Inl e
      | Inr (result, new, old) \<Rightarrow>
          Inr (result,
               [new, old,
                ToString (tgname (tg_trigger trig)),
                JS_String (if fired_before (tg_event trig) then ''BEFORE'' else ''AFTER''),
                JS_String (if fired_for_row (tg_event trig) then ''ROW'' else ''STATEMENT''),
                JS_String (case fired_by (tg_event trig) of
                             TRIGGER_EVENT_INSERT \<Rightarrow> ''INSERT''
                           | TRIGGER_EVENT_DELETE \<Rightarrow> ''DELETE''
                           | TRIGGER_EVENT_UPDATE \<Rightarrow> ''UPDATE''
                           | TRIGGER_EVENT_TRUNCATE \<Rightarrow> ''TRUNCATE''),
                Uint32_New (rd_id (tg_relation trig)),
                ToString (rd_relname (tg_relation trig)),
                ToString (rd_namespace_name (tg_relation trig)),
                JS_Array (map ToString (tgargs (tg_trigger trig))) (h_Array_prototype H)]))"

text \<open>
  \<open>CallTrigger\<close>: enter the context of the environment, build the arguments, call the
  function through \<open>DoCall\<close>, and, for an UPDATE event whose call returned neither
  \<open>undefined\<close> nor \<open>null\<close>, convert the returned value to a tuple with a fresh
  converter and return that tuple instead of \<open>result\<close>. (The test for an empty handle
  after \<open>DoCall\<close> cannot fire: \<open>DoCall\<close> has thrown by then. The pointer arithmetic
  from tuple header back to tuple is the identity here.)
\<close>

definition CallTrigger :: "host \<Rightarrow> FunctionCallInfoData \<Rightarrow> plv8_exec_env \<Rightarrow> session
    \<Rightarrow> (error + Datum) \<times> session" where
  "CallTrigger H fcinfo xenv s =
     (case fc_context fcinfo of
        Some (T_TriggerData trig) \<Rightarrow>
          (case env_context xenv of
             None \<Rightarrow> (Inl null_handle, s)
           | Some context \<Rightarrow>
          (case CallTrigger_args H trig of
             Inl e \<Rightarrow> (Inl e, s)
           | Inr (result, args) \<Rightarrow>
          (case env_recv xenv of
             None \<Rightarrow> (Inl null_handle, s)
           | Some r \<Rightarrow>
          (case DoCall H (recv_function r) (Recv (recv_id r)) args s of
             (Inl e, s') \<Rightarrow> (Inl e, s')
           | (Inr newtup, s') \<Rightarrow>
               if fired_by (tg_event trig) = TRIGGER_EVENT_UPDATE \<and>
                  \<not> (IsUndefined newtup \<or> IsNull newtup)
               then
                 (case Converter_new H (rd_att (tg_relation trig)) False of
                    Inl e \<Rightarrow> (Inl e, s')
                  | Inr conv \<Rightarrow> Converter_ToDatum H conv newtup None s')
               else (Inr result, s')))))
      | _ \<Rightarrow> (Inl null_handle, s))"

section \<open>Process state\<close>

text \<open>
  A row of the function catalog as \<open>plv8_get_proc\<close> reads it: the tuple header's
  xmin and the tuple's physical location, the columns of \<open>pg_proc\<close>, and what
  \<open>get_func_arg_info\<close> returns (all argument types, their names if any are named, their
  modes if any is not IN; the three arrays have one entry per argument).
\<close>

record pg_proc_tuple =
  t_xmin :: TransactionId
  t_self :: ItemPointerData
  proname :: string
  prosrc :: "string option"
  proretset :: bool
  prorettype :: Oid
  prolang :: Oid
  proallargtypes :: "Oid list"
  proargnames :: "string option list option"
  proargmodes :: "char list option"

text \<open>
  \<open>struct plv8_proc_cache\<close>. \<open>cache_function\<close> is the persistent handle of the compiled
  function, \<open>None\<close> when empty; \<open>cache_argtypes\<close> holds the first \<open>cache_nargs\<close> entries
  of the array.
\<close>

record plv8_proc_cache =
  fn_oid :: Oid
  cache_function :: "js_function option"
  cache_proname :: string
  cache_prosrc :: "string option"
  fn_xmin :: TransactionId
  fn_tid :: ItemPointerData
  cache_user_id :: Oid
  cache_nargs :: nat
  cache_retset :: bool
  cache_rettype :: Oid
  cache_argtypes :: "Oid list"

text \<open>
  \<open>struct plv8_context\<close>. The handle of a registered context is never empty: it is
  what \<open>Context::New\<close> returned.
\<close>

record plv8_context =
  ctx_context :: nat
  ctx_user_id :: Oid

text \<open>
  The process: the session, the host's view of the moment (the current user, the
  function catalog, type classes, name resolution, the oid of the language), the
  GUC, the module's static variables (procedure cache, context vector, head of the
  environment list), transaction memory (environments by address), and the engine's
  allocator of object identities with the list of persistent handles disposed so far.
\<close>

record state =
  sess :: session
  user_id :: Oid
  pg_proc :: "Oid \<Rightarrow> pg_proc_tuple option"
  typtype :: "Oid \<Rightarrow> char"
  regproc :: "string \<Rightarrow> Oid option"
  regprocedure :: "string \<Rightarrow> Oid option"
  plv8_language :: "Oid option"
  plv8_start_proc :: "string option"
  plv8_proc_cache_hash :: "Oid \<Rightarrow> plv8_proc_cache option"
  ContextVector :: "plv8_context list"
  exec_env_head :: "nat option"
  TopTransactionContext :: "plv8_exec_env list"
  next_handle :: nat
  disposed :: "nat list"

section \<open>The procedure cache\<close>

definition TYPTYPE_PSEUDO :: char where "TYPTYPE_PSEUDO = CHR ''p''"
definition PROARGMODE_IN :: char where "PROARGMODE_IN = CHR ''i''"
definition PROARGMODE_INOUT :: char where "PROARGMODE_INOUT = CHR ''b''"
definition PROARGMODE_VARIADIC :: char where "PROARGMODE_VARIADIC = CHR ''v''"
definition NAMEDATALEN :: nat where "NAMEDATALEN = 64"

text \<open>
  \<open>hash_search(..., HASH_ENTER, &found)\<close> on a miss hands out an entry of which only the
  key is set; \<open>plv8_get_proc\<close> then constructs an empty function handle and a null
  \<open>prosrc\<close>. The other fields are written before they are read; they are given fixed
  values here.
\<close>

definition new_cache_entry :: "Oid \<Rightarrow> plv8_proc_cache" where
  "new_cache_entry oid =
     \<lparr>fn_oid = oid, cache_function = None, cache_proname = [], cache_prosrc = None,
      fn_xmin = 0, fn_tid = \<lparr>ip_blkid = 0, ip_posid = 0\<rparr>, cache_user_id = 0,
      cache_nargs = 0, cache_retset = False, cache_rettype = 0, cache_argtypes = []\<rparr>"

text \<open>\<open>Persistent::Dispose\<close> then \<open>Clear\<close>: an empty handle stays as it is.\<close>

definition Dispose :: "nat option \<Rightarrow> state \<Rightarrow> state" where
  "Dispose h st = (case h of None \<Rightarrow> st | Some i \<Rightarrow> st\<lparr>disposed := i # disposed st\<rparr>)"

text \<open>
  The validity test of a cache hit: the handle is not empty, and xmin, tuple location
  and user are those of now.
\<close>

definition uptodate :: "plv8_proc_cache \<Rightarrow> pg_proc_tuple \<Rightarrow> state \<Rightarrow> bool" where
  "uptodate cache procTup st =
     (cache_function cache \<noteq> None \<and>
      fn_xmin cache = t_xmin procTup \<and>
      fn_tid cache = t_self procTup \<and>
      cache_user_id cache = user_id st)"

text \<open>
  The loop that keeps the IN, INOUT and VARIADIC arguments: \<open>acc\<close> is
  \<open>cache->argtypes[0..inargs)\<close>, and the names are compacted in place.
\<close>

fun inargs_loop :: "Oid list \<Rightarrow> char list option \<Rightarrow> nat list \<Rightarrow> string option list option
    \<Rightarrow> Oid list \<Rightarrow> string option list option \<times> Oid list" where
  "inargs_loop argtypes argmodes [] argnames acc = (argnames, acc)"
| "inargs_loop argtypes argmodes (i # rest) argnames acc =
     (let argtype = argtypes ! i;
          argmode = (case argmodes of None \<Rightarrow> PROARGMODE_IN | Some m \<Rightarrow> m ! i)
      in if argmode = PROARGMODE_IN \<or> argmode = PROARGMODE_INOUT \<or> argmode = PROARGMODE_VARIADIC
         then inargs_loop argtypes argmodes rest
                (map_option (\<lambda>names. names[length acc := names ! i]) argnames)
                (acc @ [argtype])
         else inargs_loop argtypes argmodes rest argnames acc)"

text \<open>The descriptors of a \<open>plv8_proc\<close>: \<open>plv8_fill_type\<close> for each argument.\<close>

fun fill_types :: "host \<Rightarrow> Oid list \<Rightarrow> plv8_type list option" where
  "fill_types H [] = Some []"
| "fill_types H (t # ts) =
     (case h_fill_type H t of
        None \<Rightarrow> None
      | Some ty \<Rightarrow> (case fill_types H ts of None \<Rightarrow> None | Some tys \<Rightarrow> Some (ty # tys)))"

text \<open>
  \<open>plv8_get_proc\<close>. The errors are the host's (\<open>elog(ERROR)\<close>); what was written to the
  cache before an error stays written. The second component of the result is
  \<open>*argnames\<close>, which is set only when the entry is refreshed.
\<close>

definition plv8_get_proc :: "host \<Rightarrow> Oid \<Rightarrow> bool \<Rightarrow> state
    \<Rightarrow> (error + plv8_proc \<times> string option list option) \<times> state" where
  "plv8_get_proc H oid validate st =
     (case pg_proc st oid of
        None \<Rightarrow> (Inl (pg_error ''cache lookup failed for function''), st)
      | Some procTup \<Rightarrow>
     (let (cache1, st1) =
            (case plv8_proc_cache_hash st oid of
               Some cache \<Rightarrow>
                 if \<not> uptodate cache procTup st then
                   (cache\<lparr>cache_prosrc := None, cache_function := None\<rparr>,
                    Dispose (map_option fn_id (cache_function cache)) st)
                 else (cache, st)
             | None \<Rightarrow> (new_cache_entry oid, st));
          st2 = st1\<lparr>plv8_proc_cache_hash := (plv8_proc_cache_hash st1)(oid \<mapsto> cache1)\<rparr>
      in
     (case (if cache_function cache1 = None then
              (case prosrc procTup of
                 None \<Rightarrow> (Inl (pg_error ''null prosrc''), st2)
               | Some src \<Rightarrow>
                   let cache2 = cache1\<lparr>cache_retset := proretset procTup,
                                       cache_rettype := prorettype procTup,
                                       cache_proname := take (NAMEDATALEN - 1) (proname procTup),
                                       fn_xmin := t_xmin procTup,
                                       fn_tid := t_self procTup,
                                       cache_user_id := user_id st2\<rparr>;
                       st3 = st2\<lparr>plv8_proc_cache_hash := (plv8_proc_cache_hash st2)(oid \<mapsto> cache2)\<rparr>;
                       argtypes = proallargtypes procTup
                   in if validate \<and> (\<exists>t \<in> set argtypes. typtype st3 t = TYPTYPE_PSEUDO) then
                        (Inl (pg_error ''PL/v8 functions cannot accept type''), st3)
                      else
                        let (argnames, inargs) =
                              inargs_loop argtypes (proargmodes procTup) [0..<length argtypes]
                                (proargnames procTup) [];
                            cache3 = cache2\<lparr>cache_prosrc := Some src,
                                            cache_argtypes := inargs,
                                            cache_nargs := length inargs\<rparr>
                        in (Inr (cache3, argnames),
                            st3\<lparr>plv8_proc_cache_hash := (plv8_proc_cache_hash st3)(oid \<mapsto> cache3)\<rparr>))
            else (Inr (cache1, None), st2)) of
        (Inl e, st') \<Rightarrow> (Inl e, st')
      | (Inr (cache, argnames), st') \<Rightarrow>
          (case fill_types H (take (cache_nargs cache) (cache_argtypes cache)) of
             None \<Rightarrow> (Inl (pg_error ''plv8_fill_type''), st')
           | Some argtys \<Rightarrow>
               (case h_fill_type H (cache_rettype cache) of
                  None \<Rightarrow> (Inl (pg_error ''plv8_fill_type''), st')
                | Some retty \<Rightarrow>
                    (Inr (\<lparr>proc_cache = oid, proc_xenv = None, functypclass = TYPEFUNC_SCALAR,
                           proc_rettype = retty, proc_argtypes = argtys\<rparr>, argnames),
                     st'))))))"

section \<open>Global contexts and compilation\<close>

text \<open>
  The scan of \<open>GetGlobalContext\<close>: the context handle of the first entry registered
  for the user (the loop breaks there); the handle stays empty (\<open>None\<close>) when no entry
  matches.
\<close>

fun ContextVector_find :: "plv8_context list \<Rightarrow> Oid \<Rightarrow> nat option" where
  "ContextVector_find [] uid = None"
| "ContextVector_find (c # cs) uid =
     (if ctx_user_id c = uid then Some (ctx_context c) else ContextVector_find cs uid)"

text \<open>
  The bindings of the global object template (\<open>GetGlobalObjectTemplate\<close>): the
  severity levels under their names, with the values of the host's elog.h, and the
  \<open>plv8\<close> object (whose functions are set up in another file).
\<close>

definition global_template :: "host \<Rightarrow> (string \<times> js_value) list" where
  "global_template H =
     [(''DEBUG5'', JS_Number 10), (''DEBUG4'', JS_Number 11), (''DEBUG3'', JS_Number 12),
      (''DEBUG2'', JS_Number 13), (''DEBUG1'', JS_Number 14), (''DEBUG'', JS_Number 10),
      (''LOG'', JS_Number 15), (''INFO'', JS_Number 17), (''NOTICE'', JS_Number 18),
      (''WARNING'', JS_Number 19), (''ERROR'', JS_Number 20), (''plv8'', JS_Object [] (h_Object_prototype H))]"

text \<open>
  \<open>Context::New(NULL, global)\<close>: a context of a fresh identity whose global object has
  the bindings of the template and whose \<open>plv8\<close> object has \<open>undefined\<close> in its
  internal fields.
\<close>

definition Context_New :: "host \<Rightarrow> state \<Rightarrow> nat \<times> state" where
  "Context_New H st =
     (let c = next_handle st;
          s = sess st
      in (c, st\<lparr>next_handle := Suc c,
                 sess := s\<lparr>globals := (globals s)(c := map_of (global_template H)),
                           intnl_fields := (intnl_fields s)(c := (\<lambda>f. Some JS_Undefined))\<rparr>\<rparr>))"

text \<open>
  The source text \<open>CompileFunction\<close> hands to the engine:
  \<open>(function (<arg1, ...>){ <prosrc> })\<close>, with \<open>$N\<close> for an argument without a name.
\<close>

fun CompileFunction_args :: "string option list option \<Rightarrow> nat list \<Rightarrow> string" where
  "CompileFunction_args proargs [] = []"
| "CompileFunction_args proargs (i # rest) =
     (if i > 0 then '','' else '''') @
     (case proargs of
        None \<Rightarrow> ''$'' @ string_of_nat (i + 1)
      | Some names \<Rightarrow>
          (case names ! i of None \<Rightarrow> ''$'' @ string_of_nat (i + 1) | Some name \<Rightarrow> name)) @
     CompileFunction_args proargs rest"

definition CompileFunction_source :: "nat \<Rightarrow> string option list option \<Rightarrow> string \<Rightarrow> bool
    \<Rightarrow> string" where
  "CompileFunction_source proarglen proargs psrc is_trigger =
     ''(function ('' @
     (if is_trigger
      then ''NEW, OLD, TG_NAME, TG_WHEN, TG_LEVEL, TG_OP, TG_RELID, TG_TABLE_NAME, TG_TABLE_SCHEMA, TG_ARGV''
      else CompileFunction_args proargs [0..<proarglen]) @
     ''){'' @ [CHR 0x0A] @ psrc @ [CHR 0x0A] @ ''})''"

text \<open>
  The five functions call each other in a circle: \<open>GetGlobalContext\<close> resolves the
  start-up function with \<open>find_js_function_by_name\<close>, which compiles it with
  \<open>Compile\<close>, whose \<open>CompileFunction\<close> asks for the global context. The circle ends
  because the new context is registered before the start-up function is resolved.

  \<^item> \<open>GetGlobalContext\<close>: the context registered for the current user, or else a new
    context, registered, in which the start-up function, if one is configured, is
    resolved (host errors become \<open>pg_error\<close>) and called with the global object as
    receiver.
  \<^item> \<open>CompileFunction\<close>: a trigger must not have arguments; the wrapped source is
    compiled and run in the global context, and the function object is the result.
  \<^item> \<open>Compile\<close>: \<open>plv8_get_proc\<close>, and a compilation when the cache entry's handle is
    empty; the new persistent handle is stored in the entry as it then is.
  \<^item> \<open>find_js_function\<close>: an empty handle for a function of another language, else
    the compiled function; C++ exceptions are rethrown as host errors.
  \<^item> \<open>find_js_function_by_name\<close>: the signature is resolved as \<open>regproc\<close> when it
    has no parenthesis and as \<open>regprocedure\<close> otherwise.
\<close>

lemma ContextVector_find_append:
  "ContextVector_find cv uid = None \<Longrightarrow>
     ContextVector_find (cv @ [\<lparr>ctx_context = c, ctx_user_id = uid\<rparr>]) uid = Some c"
  by (induction cv) (auto split: if_splits)

lemma Dispose_frame:
  "ContextVector (Dispose h st) = ContextVector st"
  "user_id (Dispose h st) = user_id st"
  "sess (Dispose h st) = sess st"
  "next_handle (Dispose h st) = next_handle st"
  "plv8_start_proc (Dispose h st) = plv8_start_proc st"
  "plv8_proc_cache_hash (Dispose h st) = plv8_proc_cache_hash st"
  "pg_proc (Dispose h st) = pg_proc st"
  "typtype (Dispose h st) = typtype st"
  by (simp_all add: Dispose_def split: option.splits)

lemma plv8_get_proc_frame:
  assumes "plv8_get_proc H oid validate st = (r, st')"
  shows "ContextVector st' = ContextVector st" and "user_id st' = user_id st"
    and "sess st' = sess st" and "next_handle st' = next_handle st"
    and "plv8_start_proc st' = plv8_start_proc st"
  using assms
  by (auto simp: plv8_get_proc_def Let_def Dispose_frame
      split: option.splits if_splits prod.splits sum.splits)

definition registered :: "state \<Rightarrow> nat" where
  "registered st = (if ContextVector_find (ContextVector st) (user_id st) = None then 5 else 0)"

function GetGlobalContext :: "host \<Rightarrow> state \<Rightarrow> (error + nat) \<times> state"
  and CompileFunction :: "host \<Rightarrow> string option \<Rightarrow> nat \<Rightarrow> string option list option \<Rightarrow> string
    \<Rightarrow> bool \<Rightarrow> bool \<Rightarrow> state \<Rightarrow> (error + js_function) \<times> state"
  and Compile :: "host \<Rightarrow> Oid \<Rightarrow> bool \<Rightarrow> bool \<Rightarrow> state \<Rightarrow> (error + plv8_proc) \<times> state"
  and find_js_function :: "host \<Rightarrow> Oid \<Rightarrow> state \<Rightarrow> (error + js_function option) \<times> state"
  and find_js_function_by_name :: "host \<Rightarrow> string \<Rightarrow> state \<Rightarrow> (error + js_function) \<times> state"
where
  "GetGlobalContext H st =
     (case ContextVector_find (ContextVector st) (user_id st) of
        Some global_context \<Rightarrow> (Inr global_context, st)
      | None \<Rightarrow>
          (case Context_New H st of
             (global_context, st1) \<Rightarrow>
               let my_context = \<lparr>ctx_context = global_context, ctx_user_id = user_id st\<rparr>;
                   st2 = st1\<lparr>ContextVector := ContextVector st1 @ [my_context]\<rparr>
               in (case plv8_start_proc st2 of
                     None \<Rightarrow> (Inr global_context, st2)
                   | Some start_proc \<Rightarrow>
                       (case find_js_function_by_name H start_proc st2 of
                          (Inl e, st3) \<Rightarrow> (Inl e, st3)
                        | (Inr func, st3) \<Rightarrow>
                            (case DoCall H func (Global global_context) [] (sess st3) of
                               (Inl e, s4) \<Rightarrow> (Inl e, st3\<lparr>sess := s4\<rparr>)
                             | (Inr result, s4) \<Rightarrow> (Inr global_context, st3\<lparr>sess := s4\<rparr>))))))"
| "CompileFunction H pname proarglen proargs psrc is_trigger retset st =
     (case GetGlobalContext H st of
        (Inl e, st1) \<Rightarrow> (Inl e, st1)
      | (Inr global_context, st1) \<Rightarrow>
          if is_trigger \<and> proarglen \<noteq> 0 then
            (Inl (js_error ''trigger function cannot have arguments''), st1)
          else
            let src = CompileFunction_source proarglen proargs psrc is_trigger in
            (case h_Script_Run H src of
               Some exc \<Rightarrow> (Inl (js_error exc), st1)
             | None \<Rightarrow>
                 (Inr \<lparr>fn_id = next_handle st1, fn_source = src, fn_name = pname,
                       fn_context = global_context\<rparr>,
                  st1\<lparr>next_handle := Suc (next_handle st1)\<rparr>)))"
| "Compile H oid validate is_trigger st =
     (case plv8_get_proc H oid validate st of
        (Inl e, st1) \<Rightarrow> (Inl e, st1)
      | (Inr (proc, argnames), st1) \<Rightarrow>
          (case plv8_proc_cache_hash st1 (proc_cache proc) of
             None \<Rightarrow> (Inl null_handle, st1)
           | Some cache \<Rightarrow>
               if cache_function cache = None then
                 (case cache_prosrc cache of
                    None \<Rightarrow> (Inl null_handle, st1)
                  | Some src \<Rightarrow>
                      (case CompileFunction H (Some (cache_proname cache)) (cache_nargs cache)
                              argnames src is_trigger (cache_retset cache) st1 of
                         (Inl e, st2) \<Rightarrow> (Inl e, st2)
                       | (Inr f, st2) \<Rightarrow>
                           (Inr proc,
                            st2\<lparr>plv8_proc_cache_hash :=
                                  (plv8_proc_cache_hash st2)(proc_cache proc :=
                                     map_option (\<lambda>c. c\<lparr>cache_function := Some f\<rparr>)
                                       (plv8_proc_cache_hash st2 (proc_cache proc)))\<rparr>)))
               else (Inr proc, st1)))"
| "find_js_function H oid st =
     (case pg_proc st oid of
        None \<Rightarrow> (Inl (pg_error ''cache lookup failed for function''), st)
      | Some tuple \<Rightarrow>
          (case plv8_language st of
             None \<Rightarrow> (Inl (pg_error ''cache look up failed for language plv8''), st)
           | Some langtupoid \<Rightarrow>
               if langtupoid \<noteq> prolang tuple then (Inr None, st)
               else
                 (case Compile H oid True False st of
                    (Inl (js_error msg), st1) \<Rightarrow> (Inl (pg_error msg), st1)
                  | (Inl e, st1) \<Rightarrow> (Inl e, st1)
                  | (Inr proc, st1) \<Rightarrow>
                      (case plv8_proc_cache_hash st1 (proc_cache proc) of
                         None \<Rightarrow> (Inl null_handle, st1)
                       | Some cache \<Rightarrow> (Inr (cache_function cache), st1)))))"
| "find_js_function_by_name H signature st =
     (case (if CHR ''('' \<notin> set signature then regproc st signature
            else regprocedure st signature) of
        None \<Rightarrow> (Inl (pg_error ''function does not exist''), st)
      | Some funcoid \<Rightarrow>
          (case find_js_function H funcoid st of
             (Inl e, st1) \<Rightarrow> (Inl e, st1)
           | (Inr None, st1) \<Rightarrow> (Inl (pg_error ''javascript function is not found''), st1)
           | (Inr (Some func), st1) \<Rightarrow> (Inr func, st1)))"
  by pat_completeness auto
termination
proof (relation "measure (\<lambda>x. case x of
          Inl (Inl (H, st)) \<Rightarrow> registered st
        | Inl (Inr (H, pname, proarglen, proargs, psrc, is_trigger, retset, st)) \<Rightarrow> registered st + 1
        | Inr (Inl (H, oid, validate, is_trigger, st)) \<Rightarrow> registered st + 2
        | Inr (Inr (Inl (H, oid, st))) \<Rightarrow> registered st + 3
        | Inr (Inr (Inr (H, signature, st))) \<Rightarrow> registered st + 4)", goal_cases)
  case 1
  show ?case by simp
next
  case (2 H st x y xa xb x2)
  then show ?case
    by (auto simp: registered_def Context_New_def Let_def ContextVector_find_append)
next
  case 3
  show ?case by simp
next
  case (4 H oid validate is_trigger st x y b xa ya x2 x2a)
  then have "registered y = registered st"
    using plv8_get_proc_frame(1,2) [of H oid validate st x y] by (simp add: registered_def)
  then show ?case by simp
next
  case 5
  show ?case by simp
next
  case 6
  show ?case by simp
qed

declare GetGlobalContext.simps [simp del] CompileFunction.simps [simp del] Compile.simps [simp del]
  find_js_function.simps [simp del] find_js_function_by_name.simps [simp del]

section \<open>Execution environments\<close>

text \<open>
  \<open>plv8_new_exec_env\<close>: a zeroed environment in transaction memory (at the next free
  address), with empty handles, linked in front of the list.
\<close>

definition plv8_new_exec_env :: "state \<Rightarrow> nat \<times> state" where
  "plv8_new_exec_env st =
     (let xenv = length (TopTransactionContext st)
      in (xenv,
          st\<lparr>TopTransactionContext :=
                TopTransactionContext st @
                  [\<lparr>env_recv = None, env_context = None, env_next = exec_env_head st\<rparr>],
              exec_env_head := Some xenv\<rparr>))"

text \<open>
  \<open>CreateExecEnv\<close>: a new environment whose context is the global context of the
  current user and whose receiver is a new object holding the function in its internal
  field 0.
\<close>

definition CreateExecEnv :: "host \<Rightarrow> js_function \<Rightarrow> state \<Rightarrow> (error + nat) \<times> state" where
  "CreateExecEnv H func st =
     (case plv8_new_exec_env st of
        (xenv, st1) \<Rightarrow>
          (case GetGlobalContext H st1 of
             (Inl e, st2) \<Rightarrow> (Inl e, st2)
           | (Inr global_context, st2) \<Rightarrow>
               let r = \<lparr>recv_id = next_handle st2, recv_function = func\<rparr>;
                   mem = TopTransactionContext st2
               in (Inr xenv,
                   st2\<lparr>next_handle := Suc (next_handle st2),
                       TopTransactionContext :=
                         mem[xenv := (mem ! xenv)\<lparr>env_context := Some global_context,
                                                     env_recv := Some r\<rparr>]\<rparr>)))"

subsection \<open>The call handler\<close>

text \<open>\<open>CALLED_AS_TRIGGER(fcinfo)\<close>: the call context is a \<open>TriggerData\<close> node.\<close>

definition CALLED_AS_TRIGGER :: "FunctionCallInfoData \<Rightarrow> bool" where
  "CALLED_AS_TRIGGER fcinfo =
     (case fc_context fcinfo of Some (T_TriggerData trig) \<Rightarrow> True | _ \<Rightarrow> False)"

text \<open>
  How an exception leaves a handler: \<open>js_error::rethrow\<close> reports the message as a host
  error, \<open>pg_error::rethrow\<close> throws the host error again.
\<close>

definition rethrow :: "error \<Rightarrow> error" where
  "rethrow e = (case e of js_error msg \<Rightarrow> pg_error msg | _ \<Rightarrow> e)"

text \<open>
  \<open>plv8_call_handler\<close>, first part. A call site whose \<open>fn_extra\<close> is null gets a
  \<open>plv8_proc\<close>: the function is compiled through the procedure cache, an execution
  environment is created around the function the cache entry then holds, and the
  \<open>plv8_proc\<close> is remembered in \<open>fn_extra\<close>. A call site whose \<open>fn_extra\<close> is set
  keeps what it has: neither the cache nor the catalog is looked at.
\<close>

definition plv8_call_handler_proc :: "host \<Rightarrow> FunctionCallInfoData \<Rightarrow> state
    \<Rightarrow> (error + plv8_proc) \<times> FunctionCallInfoData \<times> state" where
  "plv8_call_handler_proc H fcinfo st =
     (case flinfo_fn_extra fcinfo of
        Some proc \<Rightarrow> (Inr proc, fcinfo, st)
      | None \<Rightarrow>
          (case Compile H (flinfo_fn_oid fcinfo) False (CALLED_AS_TRIGGER fcinfo) st of
             (Inl e, st1) \<Rightarrow> (Inl e, fcinfo, st1)
           | (Inr proc, st1) \<Rightarrow>
               (case plv8_proc_cache_hash st1 (proc_cache proc) of
                  None \<Rightarrow> (Inl null_handle, fcinfo, st1)
                | Some cache \<Rightarrow>
                    (case cache_function cache of
                       None \<Rightarrow> (Inl null_handle, fcinfo, st1)
                     | Some func \<Rightarrow>
                         (case CreateExecEnv H func st1 of
                            (Inl e, st2) \<Rightarrow> (Inl e, fcinfo, st2)
                          | (Inr xenv, st2) \<Rightarrow>
                              let proc' = proc\<lparr>proc_xenv := Some xenv\<rparr>
                              in (Inr proc', fcinfo\<lparr>flinfo_fn_extra := Some proc'\<rparr>, st2))))))"

text \<open>
  \<open>plv8_call_handler\<close>: with the \<open>plv8_proc\<close> of the call site, the call goes to
  \<open>CallTrigger\<close>, \<open>CallSRFunction\<close> or \<open>CallFunction\<close> with the environment of the
  \<open>plv8_proc\<close>; \<open>retset\<close> and \<open>nargs\<close> are read from the cache entry as it is now.
  Every exception leaves through \<open>rethrow\<close>.
\<close>

definition plv8_call_handler :: "host \<Rightarrow> FunctionCallInfoData \<Rightarrow> state
    \<Rightarrow> (error + Datum) \<times> FunctionCallInfoData \<times> state" where
  "plv8_call_handler H fcinfo st =
     (case plv8_call_handler_proc H fcinfo st of
        (Inl e, fcinfo1, st1) \<Rightarrow> (Inl (rethrow e), fcinfo1, st1)
      | (Inr proc, fcinfo1, st1) \<Rightarrow>
          (case (plv8_proc_cache_hash st1 (proc_cache proc), proc_xenv proc) of
             (Some cache, Some a) \<Rightarrow>
               if a < length (TopTransactionContext st1) then
                 let xenv = TopTransactionContext st1 ! a in
                 (case (if CALLED_AS_TRIGGER fcinfo1 then
                          (case CallTrigger H fcinfo1 xenv (sess st1) of
                             (r, s) \<Rightarrow> (r, fcinfo1, s))
                        else if cache_retset cache then
                          CallSRFunction H fcinfo1 xenv (cache_nargs cache) (proc_argtypes proc)
                            (sess st1)
                        else
                          CallFunction H fcinfo1 xenv (cache_nargs cache) (proc_argtypes proc)
                            (Some (proc_rettype proc)) (sess st1)) of
                    (Inl e, fcinfo2, s) \<Rightarrow> (Inl (rethrow e), fcinfo2, st1\<lparr>sess := s\<rparr>)
                  | (Inr d, fcinfo2, s) \<Rightarrow> (Inr d, fcinfo2, st1\<lparr>sess := s\<rparr>))
               else (Inl null_handle, fcinfo1, st1)
           | _ \<Rightarrow> (Inl null_handle, fcinfo1, st1)))"

subsection \<open>The transaction callback\<close>

datatype XactEvent = XACT_EVENT_COMMIT | XACT_EVENT_ABORT | XACT_EVENT_PREPARE

text \<open>
  The loop of \<open>plv8_xact_cb\<close>: follow the \<open>next\<close> pointers from \<open>env\<close>; a receiver
  handle that is not empty is disposed and cleared. The walk has no result (\<open>None\<close>)
  when it does not end or when a pointer leads outside transaction memory.
\<close>

partial_function (option) xact_cb_loop :: "nat option \<Rightarrow> state \<Rightarrow> state option" where
  "xact_cb_loop env st =
     (case env of
        None \<Rightarrow> Some st
      | Some a \<Rightarrow>
          if a < length (TopTransactionContext st) then
            let e = TopTransactionContext st ! a;
                st1 = (case env_recv e of
                         None \<Rightarrow> st
                       | Some r \<Rightarrow>
                           (Dispose (Some (recv_id r)) st)
                             \<lparr>TopTransactionContext :=
                                (TopTransactionContext st)[a := e\<lparr>env_recv := None\<rparr>]\<rparr>)
            in xact_cb_loop (env_next e) st1
          else None)"

text \<open>\<open>plv8_xact_cb\<close>: the event is not looked at.\<close>

definition plv8_xact_cb :: "XactEvent \<Rightarrow> state \<Rightarrow> state option" where
  "plv8_xact_cb event st =
     (case xact_cb_loop (exec_env_head st) st of
        None \<Rightarrow> None
      | Some st' \<Rightarrow> Some (st'\<lparr>exec_env_head := None\<rparr>))"

subsection \<open>Global bindings\<close>



section \<open>Verification\<close>

subsection \<open>The converter\<close>

lemma Converter_Init_length:
  "Converter_Init H tupdesc = Inr (names, types) \<Longrightarrow>
     length names = length tupdesc \<and> length types = length tupdesc"
  by (induction tupdesc arbitrary: names types) (auto split: option.splits sum.splits)

lemma Converter_Init_types:
  "Converter_Init H tupdesc = Inr (names, types) \<Longrightarrow> c < length tupdesc \<Longrightarrow>
     names ! c = attname (tupdesc ! c) \<and> h_fill_type H (atttypid (tupdesc ! c)) = Some (types ! c)"
proof (induction tupdesc arbitrary: names types c)
  case Nil
  then show ?case by simp
next
  case (Cons a attrs)
  then show ?case
    by (cases c) (auto split: option.splits sum.splits)
qed

lemma Converter_new_fields:
  assumes "Converter_new H tupdesc is_scalar = Inr conv"
  shows "m_tupdesc conv = tupdesc" and "m_is_scalar conv = is_scalar"
    and "length (m_colnames conv) = length tupdesc"
    and "length (m_coltypes conv) = length tupdesc"
    and "c < length tupdesc \<Longrightarrow> m_colnames conv ! c = attname (tupdesc ! c)"
    and "c < length tupdesc \<Longrightarrow> h_fill_type H (atttypid (tupdesc ! c)) = Some (m_coltypes conv ! c)"
  using assms Converter_Init_length [of H tupdesc] Converter_Init_types [of H tupdesc _ _ c]
  by (auto simp: Converter_new_def split: sum.splits)

lemma ToDatum_columns_map:
  "(\<forall>c \<in> set cs. \<exists>col. ToDatum_column H conv v c = Inr col) \<Longrightarrow>
     ToDatum_columns H conv v cs = Inr (map (\<lambda>c. projr (ToDatum_column H conv v c)) cs)"
  by (induction cs) (auto split: sum.splits)

lemma ToDatum_columns_fail:
  "ToDatum_columns H conv v cs = Inl e \<Longrightarrow> \<exists>c \<in> set cs. ToDatum_column H conv v c = Inl e"
  by (induction cs) (auto split: sum.splits)

subsection \<open>Concrete inputs\<close>

text \<open>
  The prototype of object literals with three of its functions, and the prototype of
  arrays; a host whose scalar conversions know numbers and strings, whose type lookup
  always succeeds, whose engine compiles every script and whose scripts return
  \<open>undefined\<close> at once; an idle session; a three-column row type.
\<close>

definition Object_prototype0 :: js_value where
  "Object_prototype0 =
     JS_Object [(''constructor'', Some (JS_Function 1 [] JS_Null)),
                (''toString'', Some (JS_Function 2 [] JS_Null)),
                (''valueOf'', Some (JS_Function 3 [] JS_Null))] JS_Null"

definition Array_prototype0 :: js_value where
  "Array_prototype0 =
     JS_Object [(''constructor'', Some (JS_Function 4 [] JS_Null)),
                (''push'', Some (JS_Function 5 [] JS_Null))] Object_prototype0"

definition H0 :: host where
  "H0 = \<lparr>h_fill_type = (\<lambda>t. Some \<lparr>typid = t\<rparr>),
         h_ToDatum = (\<lambda>v ty. case v of JS_Number n \<Rightarrow> Inr (Int_Datum n, False)
                                | JS_String s \<Rightarrow> Inr (Text_Datum s, False)
                                | _ \<Rightarrow> Inl (js_error ''unsupported'')),
         h_ToValue = (\<lambda>d isnull ty. if isnull then Inr JS_Null else
                         (case d of Int_Datum n \<Rightarrow> Inr (JS_Number n) | Text_Datum s \<Rightarrow> Inr (JS_String s)
                            | _ \<Rightarrow> Inl (js_error ''unsupported''))),
         h_Script_Run = (\<lambda>src. None),
         h_Call = (\<lambda>fn recv args s. (Inr JS_Undefined, s)),
         h_Object_prototype = Object_prototype0, h_Array_prototype = Array_prototype0\<rparr>"

definition s0 :: session where
  "s0 = \<lparr>spi_refuse = False, spi_depth = 0, spi_log = [],
         tuplestore_rows = (\<lambda>t. []), tuplestore_next = 0,
         intnl_fields = (\<lambda>c f. Some JS_Undefined), globals = (\<lambda>c n. None)\<rparr>"

definition tupdesc_abc :: TupleDesc where
  "tupdesc_abc = [\<lparr>attname = ''a'', atttypid = 23\<rparr>, \<lparr>attname = ''b'', atttypid = 25\<rparr>,
                  \<lparr>attname = ''c'', atttypid = 23\<rparr>]"

definition conv_abc :: Converter where
  "conv_abc = \<lparr>m_tupdesc = tupdesc_abc, m_colnames = [''a'', ''b'', ''c''],
      m_coltypes = [\<lparr>typid = 23\<rparr>, \<lparr>typid = 25\<rparr>, \<lparr>typid = 23\<rparr>], m_is_scalar = False\<rparr>"

subsection \<open>C8: missing, undefined and null properties become SQL NULL\<close>

lemma list3_nth: "length row = 3 \<Longrightarrow> row = [row ! 0, row ! 1, row ! 2]"
  by (cases row; cases "tl row"; cases "tl (tl row)") auto

text \<open>
  Claim C8. Converting a value that is an object to a row with a converter built for a
  row type. The property of a column is what \<open>Object::Get\<close> answers for the column's
  name: it is missing when neither the object nor any object on its prototype chain has
  it. Provided the scalar conversion succeeds for every column whose property is present
  and neither \<open>undefined\<close> nor \<open>null\<close>, the conversion as a whole succeeds, the row
  has one entry per column, and the entry of column \<open>c\<close> is SQL NULL when the property
  is missing, when reading it yields an empty handle, or when it is \<open>undefined\<close> or
  \<open>null\<close>; otherwise it is what \<open>::ToDatum\<close> gives for the property under the
  column's type descriptor. The row is appended to the tuplestore when one is given and
  returned as a tuple datum otherwise.
\<close>

theorem Converter_ToDatum_null_columns:
  assumes conv: "Converter_new H tupdesc False = Inr conv"
    and obj: "IsObject value"
    and ok: "\<forall>c<length tupdesc. \<forall>v.
               Object_Get value (attname (tupdesc ! c)) = Some v \<and> v \<noteq> JS_Undefined \<and> v \<noteq> JS_Null
               \<longrightarrow> (\<exists>r. h_ToDatum H v (the (h_fill_type H (atttypid (tupdesc ! c)))) = Inr r)"
  shows "\<exists>row. length row = length tupdesc \<and>
           Converter_ToDatum H conv value tupstore s =
             (case tupstore of
                Some t \<Rightarrow> (Inr (Int_Datum 0), tuplestore_putvalues t row s)
              | None \<Rightarrow> (Inr (HeapTuple_Datum row), s)) \<and>
           (\<forall>c<length tupdesc.
              row ! c =
                (case Object_Get value (attname (tupdesc ! c)) of
                   None \<Rightarrow> None
                 | Some v \<Rightarrow>
                     if v = JS_Undefined \<or> v = JS_Null then None
                     else (case h_ToDatum H v (the (h_fill_type H (atttypid (tupdesc ! c)))) of
                             Inl e \<Rightarrow> None
                           | Inr (d, isnull) \<Rightarrow> if isnull then None else Some d)))"
proof -
  note f = Converter_new_fields [OF conv]
  let ?col = "\<lambda>c. ToDatum_column H conv value c"
  let ?spec = "\<lambda>c. (case Object_Get value (attname (tupdesc ! c)) of
                   None \<Rightarrow> None
                 | Some v \<Rightarrow>
                     if v = JS_Undefined \<or> v = JS_Null then None
                     else (case h_ToDatum H v (the (h_fill_type H (atttypid (tupdesc ! c)))) of
                             Inl e \<Rightarrow> None
                           | Inr (d, isnull) \<Rightarrow> if isnull then None else Some d))"
  have col: "?col c = Inr (?spec c)" if c: "c < length tupdesc" for c
  proof (cases "Object_Get value (attname (tupdesc ! c))")
    case None
    then show ?thesis
      using c by (simp add: ToDatum_column_def ToDatum_attr_def attr_is_null_def f)
  next
    case (Some v)
    show ?thesis
    proof (cases "v = JS_Undefined \<or> v = JS_Null")
      case True
      with Some show ?thesis
        using c by (auto simp: ToDatum_column_def ToDatum_attr_def attr_is_null_def f)
    next
      case False
      then have nn: "\<not> IsUndefined v" "\<not> IsNull v"
        by (cases v; simp)+
      from ok c Some False
      obtain r where r: "h_ToDatum H v (the (h_fill_type H (atttypid (tupdesc ! c)))) = Inr r"
        by blast
      have ty: "the (h_fill_type H (atttypid (tupdesc ! c))) = m_coltypes conv ! c"
        using f(6) [OF c] by simp
      show ?thesis
        using c Some False nn r ty
        by (cases r) (simp add: ToDatum_column_def ToDatum_attr_def attr_is_null_def f)
    qed
  qed
  have "\<forall>c \<in> set [0..<length tupdesc]. \<exists>x. ?col c = Inr x"
    using col by simp
  then have cols: "ToDatum_columns H conv value [0..<length tupdesc] =
      Inr (map (\<lambda>c. projr (?col c)) [0..<length tupdesc])"
    by (rule ToDatum_columns_map)
  let ?row = "map (\<lambda>c. projr (?col c)) [0..<length tupdesc]"
  have "length ?row = length tupdesc" by simp
  moreover have "Converter_ToDatum H conv value tupstore s =
             (case tupstore of
                Some t \<Rightarrow> (Inr (Int_Datum 0), tuplestore_putvalues t ?row s)
              | None \<Rightarrow> (Inr (HeapTuple_Datum ?row), s))"
    using cols obj by (simp add: Converter_ToDatum_def Converter_row_def f)
  moreover have "\<forall>c<length tupdesc. ?row ! c = ?spec c"
    using col by simp
  ultimately show ?thesis by blast
qed

lemma Converter_new_abc: "Converter_new H0 tupdesc_abc False = Inr conv_abc"
  by (simp add: Converter_new_def H0_def tupdesc_abc_def conv_abc_def)

text \<open>
  Two objects: \<open>{a: 1, b: null}\<close>, an object literal, which has no \<open>c\<close> anywhere; and
  \<open>{a: 1}\<close> made with the prototype \<open>{c: 7}\<close>, which has no \<open>b\<close> anywhere and
  inherits \<open>c\<close>.
\<close>

definition obj_ab :: js_value where
  "obj_ab = JS_Object [(''a'', Some (JS_Number 1)), (''b'', Some JS_Null)] Object_prototype0"

definition obj_a_c :: js_value where
  "obj_a_c = JS_Object [(''a'', Some (JS_Number 1))]
               (JS_Object [(''c'', Some (JS_Number 7))] Object_prototype0)"

theorem Converter_ToDatum_null_columns_witness:
  "Converter_new H0 tupdesc_abc False = Inr conv_abc \<and> IsObject obj_ab \<and> IsObject obj_a_c \<and>
   Converter_ToDatum H0 conv_abc obj_ab None s0 =
     (Inr (HeapTuple_Datum [Some (Int_Datum 1), None, None]), s0) \<and>
   Converter_ToDatum H0 conv_abc obj_a_c None s0 =
     (Inr (HeapTuple_Datum [Some (Int_Datum 1), None, Some (Int_Datum 7)]), s0)"
proof -
  have o1: "IsObject obj_ab" and o2: "IsObject obj_a_c"
    by (simp_all add: obj_ab_def obj_a_c_def)
  have ok1: "\<forall>c<length tupdesc_abc. \<forall>v.
      Object_Get obj_ab (attname (tupdesc_abc ! c)) = Some v \<and> v \<noteq> JS_Undefined \<and> v \<noteq> JS_Null
      \<longrightarrow> (\<exists>r. h_ToDatum H0 v (the (h_fill_type H0 (atttypid (tupdesc_abc ! c)))) = Inr r)"
    by (auto simp: tupdesc_abc_def H0_def obj_ab_def Object_prototype0_def less_Suc_eq numeral_3_eq_3)
  have ok2: "\<forall>c<length tupdesc_abc. \<forall>v.
      Object_Get obj_a_c (attname (tupdesc_abc ! c)) = Some v \<and> v \<noteq> JS_Undefined \<and> v \<noteq> JS_Null
      \<longrightarrow> (\<exists>r. h_ToDatum H0 v (the (h_fill_type H0 (atttypid (tupdesc_abc ! c)))) = Inr r)"
    by (auto simp: tupdesc_abc_def H0_def obj_a_c_def Object_prototype0_def less_Suc_eq numeral_3_eq_3)
  from Converter_ToDatum_null_columns [OF Converter_new_abc o1 ok1, of None s0]
  obtain row1 where row1: "length row1 = length tupdesc_abc"
      "Converter_ToDatum H0 conv_abc obj_ab None s0 = (Inr (HeapTuple_Datum row1), s0)"
     and cols1: "\<forall>c<length tupdesc_abc.
              row1 ! c =
                (case Object_Get obj_ab (attname (tupdesc_abc ! c)) of
                   None \<Rightarrow> None
                 | Some v \<Rightarrow>
                     if v = JS_Undefined \<or> v = JS_Null then None
                     else (case h_ToDatum H0 v (the (h_fill_type H0 (atttypid (tupdesc_abc ! c)))) of
                             Inl e \<Rightarrow> None
                           | Inr (d, isnull) \<Rightarrow> if isnull then None else Some d))"
    by auto
  from Converter_ToDatum_null_columns [OF Converter_new_abc o2 ok2, of None s0]
  obtain row2 where row2: "length row2 = length tupdesc_abc"
      "Converter_ToDatum H0 conv_abc obj_a_c None s0 = (Inr (HeapTuple_Datum row2), s0)"
     and cols2: "\<forall>c<length tupdesc_abc.
              row2 ! c =
                (case Object_Get obj_a_c (attname (tupdesc_abc ! c)) of
                   None \<Rightarrow> None
                 | Some v \<Rightarrow>
                     if v = JS_Undefined \<or> v = JS_Null then None
                     else (case h_ToDatum H0 v (the (h_fill_type H0 (atttypid (tupdesc_abc ! c)))) of
                             Inl e \<Rightarrow> None
                           | Inr (d, isnull) \<Rightarrow> if isnull then None else Some d))"
    by auto
  from cols1 have "row1 ! 0 = Some (Int_Datum 1)" "row1 ! 1 = None" "row1 ! 2 = None"
    by (simp_all add: tupdesc_abc_def H0_def obj_ab_def Object_prototype0_def)
  with row1(1) list3_nth [of row1] have r1: "row1 = [Some (Int_Datum 1), None, None]"
    by (simp add: tupdesc_abc_def)
  from cols2 have "row2 ! 0 = Some (Int_Datum 1)" "row2 ! 1 = None" "row2 ! 2 = Some (Int_Datum 7)"
    by (simp_all add: tupdesc_abc_def H0_def obj_a_c_def Object_prototype0_def)
  with row2(1) list3_nth [of row2] have r2: "row2 = [Some (Int_Datum 1), None, Some (Int_Datum 7)]"
    by (simp add: tupdesc_abc_def)
  from row1(2) row2(2) r1 r2 o1 o2 Converter_new_abc show ?thesis by simp
qed

text \<open>
  A column named like a property that the object inherits is not a missing one: the
  object literal \<open>{a: 1}\<close> has no \<open>constructor\<close> of its own, the lookup finds the
  function its prototype holds, and that function goes to the scalar conversion, which
  here refuses it.
\<close>

definition tupdesc_ctor :: TupleDesc where
  "tupdesc_ctor = [\<lparr>attname = ''a'', atttypid = 23\<rparr>, \<lparr>attname = ''constructor'', atttypid = 25\<rparr>]"

lemma Converter_ToDatum_inherited_property:
  "map_of [(''a'', Some (JS_Number 1))] ''constructor'' = None \<and>
   Object_Get (JS_Object [(''a'', Some (JS_Number 1))] Object_prototype0) ''constructor'' =
     Some (JS_Function 1 [] JS_Null) \<and>
   (\<exists>conv. Converter_new H0 tupdesc_ctor False = Inr conv \<and>
      Converter_ToDatum H0 conv (JS_Object [(''a'', Some (JS_Number 1))] Object_prototype0) None s0 =
        (Inl (js_error ''unsupported''), s0))"
  by (simp add: Converter_new_def Converter_ToDatum_def Converter_row_def ToDatum_column_def
      ToDatum_attr_def attr_is_null_def tupdesc_ctor_def H0_def Object_prototype0_def upt_rec)

subsection \<open>C7: the engine call is bracketed by an SPI session\<close>

text \<open>
  Concrete inputs: a compiled function, and a host whose scripts throw.
\<close>

definition fn0 :: js_function where
  "fn0 = \<lparr>fn_id = 7, fn_source = ''(function (){\<newline>\<newline>})'', fn_name = Some ''f'', fn_context = 1\<rparr>"

definition H_throw :: host where
  "H_throw = H0\<lparr>h_Call := (\<lambda>fn recv args s. (Inl ''Error: boom'', s))\<rparr>"

text \<open>
  When the host refuses the connection the function is not called at all.
\<close>

lemma DoCall_refused:
  "spi_refuse s \<Longrightarrow>
     DoCall H fn receiver args s = (Inl (js_error ''could not connect to SPI manager''), s)"
  by (simp add: DoCall_def SPI_connect_def SPI_OK_CONNECT_def SPI_ERROR_CONNECT_def)

theorem DoCall_refused_witness:
  "spi_refuse (s0\<lparr>spi_refuse := True\<rparr>) \<and>
   DoCall H0 fn0 (Recv 8) [] (s0\<lparr>spi_refuse := True\<rparr>) =
     (Inl (js_error ''could not connect to SPI manager''), s0\<lparr>spi_refuse := True\<rparr>)"
  using DoCall_refused [of "s0\<lparr>spi_refuse := True\<rparr>" H0 fn0 "Recv 8" "[]"] by simp

text \<open>
  Claim C7. When \<open>DoCall\<close> gets its SPI connection, the function is called in a session
  that \<open>SPI_connect\<close> has just opened (one level deeper, the connect logged last), and,
  for a function that leaves the connection stack as deep as it found it, \<open>DoCall\<close>
  ends in the session the function left with that level closed again and the finish
  logged last, whether the function returned a value or threw; only then is the
  exception of a failed call handed on as a \<open>js_error\<close>.
\<close>

theorem DoCall_brackets_session:
  assumes call: "h_Call H fn receiver args (snd (SPI_connect s)) = (result, s2)"
    and conn: "\<not> spi_refuse s"
    and balanced: "spi_depth s2 = spi_depth (snd (SPI_connect s))"
  shows "spi_depth (snd (SPI_connect s)) = Suc (spi_depth s) \<and>
         spi_log (snd (SPI_connect s)) = spi_log s @ [SPI_Connect] \<and>
         DoCall H fn receiver args s =
           (case result of Inl exc \<Rightarrow> Inl (js_error exc) | Inr v \<Rightarrow> Inr v,
            s2\<lparr>spi_depth := spi_depth s, spi_log := spi_log s2 @ [SPI_Finish]\<rparr>)"
proof -
  have c: "SPI_connect s =
      (SPI_OK_CONNECT, s\<lparr>spi_depth := Suc (spi_depth s), spi_log := spi_log s @ [SPI_Connect]\<rparr>)"
    using conn by (simp add: SPI_connect_def)
  have d: "spi_depth s2 = Suc (spi_depth s)"
    using balanced c by simp
  then have f: "SPI_finish s2 =
      (SPI_OK_FINISH, s2\<lparr>spi_depth := spi_depth s, spi_log := spi_log s2 @ [SPI_Finish]\<rparr>)"
    by (simp add: SPI_finish_def)
  show ?thesis
    using c call f by (simp add: DoCall_def SPI_OK_FINISH_def split: sum.splits)
qed

theorem DoCall_brackets_session_witness:
  "\<not> spi_refuse s0 \<and>
   DoCall H_throw fn0 (Recv 8) [] s0 =
     (Inl (js_error ''Error: boom''), s0\<lparr>spi_log := [SPI_Connect, SPI_Finish]\<rparr>)"
proof -
  have call: "h_Call H_throw fn0 (Recv 8) [] (snd (SPI_connect s0)) =
      (Inl ''Error: boom'', snd (SPI_connect s0))"
    by (simp add: H_throw_def)
  have conn: "\<not> spi_refuse s0" by (simp add: s0_def)
  from DoCall_brackets_session [OF call conn refl] conn
  show ?thesis by (simp add: SPI_connect_def s0_def)
qed

subsection \<open>Set-returning calls: the rows emitted for a result\<close>

text \<open>\<open>tuplestore_append t rows s\<close>: session \<open>s\<close> with \<open>rows\<close> appended, in order, to tuplestore \<open>t\<close>.\<close>

definition tuplestore_append :: "nat \<Rightarrow> HeapTuple list \<Rightarrow> session \<Rightarrow> session" where
  "tuplestore_append t rows s =
     s\<lparr>tuplestore_rows := (tuplestore_rows s)(t := tuplestore_rows s t @ rows)\<rparr>"

lemma Converter_ToDatum_tupstore:
  "Converter_row H conv v = Inr row \<Longrightarrow>
     Converter_ToDatum H conv v (Some t) s = (Inr (Int_Datum 0), tuplestore_putvalues t row s)"
  by (simp add: Converter_ToDatum_def)

lemma Converter_ToDatum_fails:
  "Converter_row H conv v = Inl e \<Longrightarrow> Converter_ToDatum H conv v tupstore s = (Inl e, s)"
  by (simp add: Converter_ToDatum_def)

lemma tuplestore_append_Nil: "tuplestore_append t [] s = s"
  by (simp add: tuplestore_append_def)

lemma tuplestore_append_put:
  "tuplestore_append t rows (tuplestore_putvalues t row s) = tuplestore_append t (row # rows) s"
  by (simp add: tuplestore_append_def tuplestore_putvalues_def)

lemma SRF_array_loop_rows:
  "0 \<le> i \<Longrightarrow> len \<le> int (length xs) \<Longrightarrow>
   list_all2 (\<lambda>x row. Converter_row H conv x = Inr row) (drop (nat i) xs') rows \<Longrightarrow>
   xs' = take (nat len) xs \<Longrightarrow>
   SRF_array_loop H conv xs t len i s = (Inr (), tuplestore_append t rows s)"
proof (induction H conv xs t len i s arbitrary: rows rule: SRF_array_loop.induct)
  case (1 H conv array tupstore len i s)
  show ?case
  proof (cases "i < len")
    case False
    with 1(2,3,4,5) have "rows = []" by (auto simp: )
    with False show ?thesis
      by (subst SRF_array_loop.simps) (simp add: tuplestore_append_Nil)
  next
    case True
    with 1(2,3,5) have lt: "nat i < length xs'" by auto
    then have d: "drop (nat i) xs' = xs' ! nat i # drop (Suc (nat i)) xs'"
      by (simp add: Cons_nth_drop_Suc)
    with 1(4) obtain row rest where rows: "rows = row # rest"
        and row: "Converter_row H conv (xs' ! nat i) = Inr row"
        and rest: "list_all2 (\<lambda>x row. Converter_row H conv x = Inr row) (drop (Suc (nat i)) xs') rest"
      by (auto simp: list_all2_Cons1)
    have lt': "nat i < length array" "nat i < nat len"
      using True 1(2,3) by auto
    have get: "Array_Get array (nat i) = xs' ! nat i"
      using lt' 1(5) by (simp add: Array_Get_def)
    have step: "Converter_ToDatum H conv (Array_Get array (nat i)) (Some tupstore) s =
        (Inr (Int_Datum 0), tuplestore_putvalues tupstore row s)"
      using row get by (simp add: Converter_ToDatum_tupstore)
    have suc: "nat (i + 1) = Suc (nat i)" using 1(2) by simp
    have "SRF_array_loop H conv array tupstore len (i + 1) (tuplestore_putvalues tupstore row s) =
        (Inr (), tuplestore_append tupstore rest (tuplestore_putvalues tupstore row s))"
      using 1(1) [OF True step [symmetric] refl, of rest] 1(2,3,5) rest suc
      by simp
    then show ?thesis
      using True step rows
      by (subst SRF_array_loop.simps) (simp add: tuplestore_append_put)
  qed
qed

lemma SRF_array_loop_fails:
  "0 \<le> i \<Longrightarrow> i \<le> int k \<Longrightarrow> k < length xs \<Longrightarrow> int k < len \<Longrightarrow>
   list_all2 (\<lambda>x row. Converter_row H conv x = Inr row) (drop (nat i) (take k xs)) rows \<Longrightarrow>
   Converter_row H conv (xs ! k) = Inl e \<Longrightarrow>
   SRF_array_loop H conv xs t len i s = (Inl e, tuplestore_append t rows s)"
proof (induction H conv xs t len i s arbitrary: rows rule: SRF_array_loop.induct)
  case (1 H conv array tupstore len i s)
  have lt: "i < len" using 1(3,5) by simp
  show ?case
  proof (cases "nat i = k")
    case True
    then have rows: "rows = []" using 1(6) by simp
    have "Array_Get array (nat i) = array ! k"
      using True 1(4) by (simp add: Array_Get_def)
    then have step: "Converter_ToDatum H conv (Array_Get array (nat i)) (Some tupstore) s = (Inl e, s)"
      using 1(7) by (simp add: Converter_ToDatum_fails)
    show ?thesis
      using lt step rows by (subst SRF_array_loop.simps) (simp add: tuplestore_append_Nil)
  next
    case False
    then have ik: "nat i < k" using 1(2,3) by linarith
    then have "nat i < length (take k array)" using 1(4) by simp
    then have "drop (nat i) (take k array) =
        take k array ! nat i # drop (Suc (nat i)) (take k array)"
      by (rule Cons_nth_drop_Suc [symmetric])
    then have d: "drop (nat i) (take k array) = array ! nat i # drop (Suc (nat i)) (take k array)"
      using ik by simp
    with 1(6) obtain row rest where rows: "rows = row # rest"
        and row: "Converter_row H conv (array ! nat i) = Inr row"
        and rest: "list_all2 (\<lambda>x row. Converter_row H conv x = Inr row)
                     (drop (Suc (nat i)) (take k array)) rest"
      by (auto simp: list_all2_Cons1)
    have get: "Array_Get array (nat i) = array ! nat i"
      using ik 1(4) by (simp add: Array_Get_def)
    have step: "Converter_ToDatum H conv (Array_Get array (nat i)) (Some tupstore) s =
        (Inr (Int_Datum 0), tuplestore_putvalues tupstore row s)"
      using row get by (simp add: Converter_ToDatum_tupstore)
    have suc: "nat (i + 1) = Suc (nat i)" using 1(2) by simp
    have le: "i + 1 \<le> int k" using ik 1(2) by linarith
    have "SRF_array_loop H conv array tupstore len (i + 1) (tuplestore_putvalues tupstore row s) =
        (Inl e, tuplestore_append tupstore rest (tuplestore_putvalues tupstore row s))"
      using 1(1) [OF lt step [symmetric] refl, of rest] 1(2,4,5,7) le rest suc
      by simp
    then show ?thesis
      using lt step rows
      by (subst SRF_array_loop.simps) (simp add: tuplestore_append_put)
  qed
qed

text \<open>The errors of the converter: its own guard, or the error of a column conversion.\<close>

lemma Converter_row_errors:
  assumes "Converter_row H conv v = Inl e"
  shows "e = js_error ''argument must be an object'' \<or>
         (\<exists>c < length (m_tupdesc conv). \<exists>a. h_ToDatum H a (m_coltypes conv ! c) = Inl e)"
proof (cases "\<not> m_is_scalar conv \<and> \<not> IsObject v")
  case True
  with assms show ?thesis by (simp add: Converter_row_def)
next
  case False
  with assms have "ToDatum_columns H conv v [0..<length (m_tupdesc conv)] = Inl e"
    by (simp add: Converter_row_def)
  from ToDatum_columns_fail [OF this]
  obtain c where "c < length (m_tupdesc conv)" "ToDatum_column H conv v c = Inl e"
    by auto
  then show ?thesis
    by (auto simp: ToDatum_column_def Let_def split: if_splits sum.splits prod.splits)
qed

lemma sint_Array_Length:
  "length xs < 2 ^ 31 \<Longrightarrow> sint (Array_Length xs) = int (length xs)"
  unfolding Array_Length_def
  by (simp add: signed_of_nat signed_take_bit_int_eq_self)
    

text \<open>
  An array of \<open>2 ^ 31\<close> elements has a negative \<open>int length\<close>: the loop does not run.
\<close>

lemma CallSRFunction_result_long_array:
  "length xs = 2 ^ 31 \<Longrightarrow>
     CallSRFunction_result H conv (JS_Array xs proto) t s = (Inr (Int_Datum 0), s)"
proof -
  assume "length xs = 2 ^ 31"
  then have "sint (Array_Length xs) < 0"
    by (simp add: Array_Length_def)
  then show ?thesis
    by (simp add: CallSRFunction_result_def SRF_array_loop.simps)
qed

theorem CallSRFunction_result_long_array_witness:
  "length (replicate (2 ^ 31) JS_Null) = 2 ^ 31 \<and>
   CallSRFunction_result H0 conv_abc (JS_Array (replicate (2 ^ 31) JS_Null) Array_prototype0) 0 s0 =
     (Inr (Int_Datum 0), s0)"
  using CallSRFunction_result_long_array [of "replicate (2 ^ 31) JS_Null" H0 conv_abc Array_prototype0 0 s0]
  by simp

text \<open>
  Concrete inputs: a call site that accepts a materialized set of the three-column row
  type, an execution environment in context 1, a host whose scripts return the number 5
  and one whose scripts return an array of two objects.
\<close>

definition rsinfo0 :: ReturnSetInfo where
  "rsinfo0 = \<lparr>allowedModes = 3, expectedDesc = tupdesc_abc, returnMode = 1,
               setResult = None, setDesc = None\<rparr>"

definition proc0 :: plv8_proc where
  "proc0 = \<lparr>proc_cache = 100, proc_xenv = Some 0, functypclass = TYPEFUNC_SCALAR,
             proc_rettype = \<lparr>typid = 2249\<rparr>, proc_argtypes = []\<rparr>"

definition fcinfo_srf :: FunctionCallInfoData where
  "fcinfo_srf = \<lparr>flinfo_fn_oid = 100, flinfo_fn_extra = Some proc0, fc_arg = [], fc_argnull = [],
                  fc_isnull = False, resultinfo = Some (T_ReturnSetInfo rsinfo0),
                  fc_context = None, call_result_type = TYPEFUNC_COMPOSITE\<rparr>"

definition xenv0 :: plv8_exec_env where
  "xenv0 = \<lparr>env_recv = Some \<lparr>recv_id = 8, recv_function = fn0\<rparr>, env_context = Some 1,
             env_next = None\<rparr>"

definition H_five :: host where
  "H_five = H0\<lparr>h_Call := (\<lambda>fn recv args s. (Inr (JS_Number 5), s))\<rparr>"

definition H_array :: host where
  "H_array = H0\<lparr>h_Call := (\<lambda>fn recv args s.
      (Inr (JS_Array [JS_Object [(''a'', Some (JS_Number 1))] Object_prototype0,
                      JS_Object [(''b'', Some (JS_String ''x''))] Object_prototype0]
              Array_prototype0), s))\<rparr>"

text \<open>The definitions that evaluate a set-returning call on the concrete inputs.\<close>

lemmas srf_eval =
  CallSRFunction_def CallSRFunction_call_def CallSRFunction_result_def CreateTupleStore_def
  Converter_new_def Converter_ToDatum_def Converter_row_def ToDatum_column_def ToDatum_attr_def
  attr_is_null_def GetInternalField_def SetInternalField_def tuplestore_putvalues_def
  DoCall_def SPI_connect_def SPI_finish_def SPI_OK_CONNECT_def SPI_OK_FINISH_def
  SFRM_Materialize_def SRF_array_loop.simps Array_Length_def Array_Get_def
  fcinfo_srf_def rsinfo0_def proc0_def xenv0_def fn0_def conv_abc_def tupdesc_abc_def
  s0_def H0_def H_five_def H_array_def H_throw_def Object_prototype0_def Let_def upt_rec

text \<open>
  Claim C2, as the code has it. Let the engine call of a set-returning call return
  \<open>result\<close> (with the call's converter and tuplestore). If \<open>result\<close> is \<open>undefined\<close>,
  the call succeeds and adds no row. If it is an array of fewer than \<open>2 ^ 31\<close> elements
  each of which the converter turns into a row, the call succeeds and appends exactly
  those rows, one per element, in index order. If it is any other value which the
  converter turns into a row, the call succeeds and appends exactly that row. If the
  converter fails on the single value, the call fails with the converter's error and
  adds no row; if it fails first on element \<open>k\<close> of the array, the call fails with that
  error, having appended the rows of the \<open>k\<close> elements before. The converter's error is
  the script error \<open>argument must be an object\<close> whenever the value is not an object
  and the converter is not scalar-shaped, and is otherwise the error of a column's
  scalar conversion.
\<close>

theorem CallSRFunction_rows:
  assumes call: "CallSRFunction_call H fcinfo xenv nargs argtypes s =
                   (Inr (result, conv, tupstore), fcinfo', s')"
  shows "(result = JS_Undefined \<longrightarrow>
            CallSRFunction H fcinfo xenv nargs argtypes s = (Inr (Int_Datum 0), fcinfo', s')) \<and>
         (\<forall>xs proto rows. result = JS_Array xs proto \<and> length xs < 2 ^ 31 \<and>
              list_all2 (\<lambda>x row. Converter_row H conv x = Inr row) xs rows \<longrightarrow>
            CallSRFunction H fcinfo xenv nargs argtypes s =
              (Inr (Int_Datum 0), fcinfo', tuplestore_append tupstore rows s')) \<and>
         (\<forall>row. result \<noteq> JS_Undefined \<and> \<not> IsArray result \<and> Converter_row H conv result = Inr row \<longrightarrow>
            CallSRFunction H fcinfo xenv nargs argtypes s =
              (Inr (Int_Datum 0), fcinfo', tuplestore_append tupstore [row] s')) \<and>
         (\<forall>e. result \<noteq> JS_Undefined \<and> \<not> IsArray result \<and> Converter_row H conv result = Inl e \<longrightarrow>
            CallSRFunction H fcinfo xenv nargs argtypes s = (Inl e, fcinfo', s')) \<and>
         (\<forall>xs proto k rows e. result = JS_Array xs proto \<and> length xs < 2 ^ 31 \<and> k < length xs \<and>
              list_all2 (\<lambda>x row. Converter_row H conv x = Inr row) (take k xs) rows \<and>
              Converter_row H conv (xs ! k) = Inl e \<longrightarrow>
            CallSRFunction H fcinfo xenv nargs argtypes s =
              (Inl e, fcinfo', tuplestore_append tupstore rows s')) \<and>
         (\<forall>v. \<not> m_is_scalar conv \<and> \<not> IsObject v \<longrightarrow>
            Converter_row H conv v = Inl (js_error ''argument must be an object'')) \<and>
         (\<forall>v e. Converter_row H conv v = Inl e \<longrightarrow>
            e = js_error ''argument must be an object'' \<or>
            (\<exists>c < length (m_tupdesc conv). \<exists>a. h_ToDatum H a (m_coltypes conv ! c) = Inl e))"
proof (intro conjI allI impI)
  assume "result = JS_Undefined"
  then show "CallSRFunction H fcinfo xenv nargs argtypes s = (Inr (Int_Datum 0), fcinfo', s')"
    using call by (simp add: CallSRFunction_def CallSRFunction_result_def)
next
  fix xs proto rows
  assume a: "result = JS_Array xs proto \<and> length xs < 2 ^ 31 \<and>
              list_all2 (\<lambda>x row. Converter_row H conv x = Inr row) xs rows"
  then have len: "sint (Array_Length xs) = int (length xs)"
    by (simp add: sint_Array_Length)
  have "SRF_array_loop H conv xs tupstore (int (length xs)) 0 s' =
          (Inr (), tuplestore_append tupstore rows s')"
    using a by (intro SRF_array_loop_rows [where xs' = xs]) simp_all
  then show "CallSRFunction H fcinfo xenv nargs argtypes s =
              (Inr (Int_Datum 0), fcinfo', tuplestore_append tupstore rows s')"
    using call a len by (simp add: CallSRFunction_def CallSRFunction_result_def)
next
  fix row
  assume a: "result \<noteq> JS_Undefined \<and> \<not> IsArray result \<and> Converter_row H conv result = Inr row"
  then have "\<not> IsUndefined result" by (cases result) simp_all
  moreover have "Converter_ToDatum H conv result (Some tupstore) s' =
      (Inr (Int_Datum 0), tuplestore_append tupstore [row] s')"
    using a by (simp add: Converter_ToDatum_tupstore tuplestore_append_def tuplestore_putvalues_def)
  ultimately show "CallSRFunction H fcinfo xenv nargs argtypes s =
              (Inr (Int_Datum 0), fcinfo', tuplestore_append tupstore [row] s')"
    using call a by (cases result) (simp_all add: CallSRFunction_def CallSRFunction_result_def)
next
  fix e
  assume a: "result \<noteq> JS_Undefined \<and> \<not> IsArray result \<and> Converter_row H conv result = Inl e"
  then have "\<not> IsUndefined result" by (cases result) simp_all
  moreover have "Converter_ToDatum H conv result (Some tupstore) s' = (Inl e, s')"
    using a by (simp add: Converter_ToDatum_fails)
  ultimately show "CallSRFunction H fcinfo xenv nargs argtypes s = (Inl e, fcinfo', s')"
    using call a by (cases result) (simp_all add: CallSRFunction_def CallSRFunction_result_def)
next
  fix xs proto k rows e
  assume a: "result = JS_Array xs proto \<and> length xs < 2 ^ 31 \<and> k < length xs \<and>
              list_all2 (\<lambda>x row. Converter_row H conv x = Inr row) (take k xs) rows \<and>
              Converter_row H conv (xs ! k) = Inl e"
  then have len: "sint (Array_Length xs) = int (length xs)"
    by (simp add: sint_Array_Length)
  have "SRF_array_loop H conv xs tupstore (int (length xs)) 0 s' =
          (Inl e, tuplestore_append tupstore rows s')"
    using a by (intro SRF_array_loop_fails [where k = k]) simp_all
  then show "CallSRFunction H fcinfo xenv nargs argtypes s =
              (Inl e, fcinfo', tuplestore_append tupstore rows s')"
    using call a len by (simp add: CallSRFunction_def CallSRFunction_result_def)
next
  fix v
  assume "\<not> m_is_scalar conv \<and> \<not> IsObject v"
  then show "Converter_row H conv v = Inl (js_error ''argument must be an object'')"
    by (simp add: Converter_row_def)
next
  fix v e
  assume "Converter_row H conv v = Inl e"
  then show "e = js_error ''argument must be an object'' \<or>
            (\<exists>c < length (m_tupdesc conv). \<exists>a. h_ToDatum H a (m_coltypes conv ! c) = Inl e)"
    by (rule Converter_row_errors)
qed

theorem CallSRFunction_rows_witness:
  "fst (CallSRFunction_call H_array fcinfo_srf xenv0 0 [] s0) =
     Inr (JS_Array [JS_Object [(''a'', Some (JS_Number 1))] Object_prototype0,
                    JS_Object [(''b'', Some (JS_String ''x''))] Object_prototype0]
            Array_prototype0, conv_abc, 0) \<and>
   CallSRFunction H_array fcinfo_srf xenv0 0 [] s0 =
     (Inr (Int_Datum 0),
      fst (snd (CallSRFunction_call H_array fcinfo_srf xenv0 0 [] s0)),
      tuplestore_append 0 [[Some (Int_Datum 1), None, None], [None, Some (Text_Datum ''x''), None]]
        (snd (snd (CallSRFunction_call H_array fcinfo_srf xenv0 0 [] s0)))) \<and>
   fst (CallSRFunction_call H_five fcinfo_srf xenv0 0 [] s0) = Inr (JS_Number 5, conv_abc, 0) \<and>
   CallSRFunction H_five fcinfo_srf xenv0 0 [] s0 =
     (Inl (js_error ''argument must be an object''),
      fst (snd (CallSRFunction_call H_five fcinfo_srf xenv0 0 [] s0)),
      snd (snd (CallSRFunction_call H_five fcinfo_srf xenv0 0 [] s0)))"
proof -
  let ?C = "CallSRFunction_call H_array fcinfo_srf xenv0 0 [] s0"
  let ?D = "CallSRFunction_call H_five fcinfo_srf xenv0 0 [] s0"
  let ?xs = "[JS_Object [(''a'', Some (JS_Number 1))] Object_prototype0,
              JS_Object [(''b'', Some (JS_String ''x''))] Object_prototype0]"
  let ?rows = "[[Some (Int_Datum 1), None, None], [None, Some (Text_Datum ''x''), None]]"
  have r: "fst ?C = Inr (JS_Array ?xs Array_prototype0, conv_abc, 0)"
    by (simp add: srf_eval)
  then have call: "?C = (Inr (JS_Array ?xs Array_prototype0, conv_abc, 0), fst (snd ?C), snd (snd ?C))"
    by (metis prod.collapse)
  have rows: "list_all2 (\<lambda>x row. Converter_row H_array conv_abc x = Inr row) ?xs ?rows"
    by (simp add: srf_eval)
  have len: "length ?xs < 2 ^ 31" by simp
  have r5: "fst ?D = Inr (JS_Number 5, conv_abc, 0)"
    by (simp add: srf_eval)
  then have call5: "?D = (Inr (JS_Number 5, conv_abc, 0), fst (snd ?D), snd (snd ?D))"
    by (metis prod.collapse)
  have five: "JS_Number 5 \<noteq> JS_Undefined \<and> \<not> IsArray (JS_Number 5)"
      "\<not> m_is_scalar conv_abc \<and> \<not> IsObject (JS_Number 5)"
    by (simp_all add: conv_abc_def)
  from CallSRFunction_rows [OF call] rows len
  have a: "CallSRFunction H_array fcinfo_srf xenv0 0 [] s0 =
      (Inr (Int_Datum 0), fst (snd ?C), tuplestore_append 0 ?rows (snd (snd ?C)))"
    by blast
  from CallSRFunction_rows [OF call5] five
  have b: "CallSRFunction H_five fcinfo_srf xenv0 0 [] s0 =
      (Inl (js_error ''argument must be an object''), fst (snd ?D), snd (snd ?D))"
    by blast
  from a b r r5 show ?thesis by simp
qed

text \<open>
  The claim without the proviso fails: the number 5 is neither \<open>undefined\<close> nor an
  array, but for a row-shaped result type the converter rejects it, the call fails, and
  no row is emitted.
\<close>

theorem CallSRFunction_counterexample:
  "fst (CallSRFunction_call H_five fcinfo_srf xenv0 0 [] s0) = Inr (JS_Number 5, conv_abc, 0) \<and>
   fst (CallSRFunction H_five fcinfo_srf xenv0 0 [] s0) = Inl (js_error ''argument must be an object'') \<and>
   tuplestore_rows (snd (snd (CallSRFunction H_five fcinfo_srf xenv0 0 [] s0))) 0 = []"
  by (simp add: srf_eval)

subsection \<open>C9: the bindings a nested set-returning call leaves behind\<close>

lemma Converter_ToDatum_intnl:
  "intnl_fields (snd (Converter_ToDatum H conv v tupstore s)) = intnl_fields s"
  by (simp add: Converter_ToDatum_def tuplestore_putvalues_def split: sum.splits option.splits)

lemma SRF_array_loop_intnl:
  "intnl_fields (snd (SRF_array_loop H conv xs t len i s)) = intnl_fields s"
proof (induction H conv xs t len i s rule: SRF_array_loop.induct)
  case (1 H conv array tupstore len i s)
  show ?case
  proof (cases "i < len")
    case False
    then show ?thesis by (subst SRF_array_loop.simps) simp
  next
    case True
    obtain r s' where step: "Converter_ToDatum H conv (Array_Get array (nat i)) (Some tupstore) s = (r, s')"
      by (cases "Converter_ToDatum H conv (Array_Get array (nat i)) (Some tupstore) s")
    have s': "intnl_fields s' = intnl_fields s"
      using Converter_ToDatum_intnl [of H conv "Array_Get array (nat i)" "Some tupstore" s] step by simp
    show ?thesis
    proof (cases r)
      case (Inl e)
      with True step s' show ?thesis by (subst SRF_array_loop.simps) simp
    next
      case (Inr d)
      with 1 [OF True step [symmetric]] True step s' show ?thesis
        by (subst SRF_array_loop.simps) simp
    qed
  qed
qed

lemma CallSRFunction_result_intnl:
  "intnl_fields (snd (CallSRFunction_result H conv result tupstore s)) = intnl_fields s"
proof -
  have a: "intnl_fields (snd (case SRF_array_loop H conv xs tupstore n 0 s of
              (Inl e, s') \<Rightarrow> (Inl e, s') | (Inr u, s') \<Rightarrow> (Inr (Int_Datum 0), s'))) = intnl_fields s"
    for xs n
    using SRF_array_loop_intnl [of H conv xs tupstore n 0 s]
    by (auto split: prod.splits sum.splits)
  have b: "intnl_fields (snd (case Converter_ToDatum H conv result (Some tupstore) s of
              (Inl e, s') \<Rightarrow> (Inl e, s') | (Inr d, s') \<Rightarrow> (Inr (Int_Datum 0), s'))) = intnl_fields s"
    using Converter_ToDatum_intnl [of H conv result "Some tupstore" s]
    by (auto split: prod.splits sum.splits)
  show ?thesis
    unfolding CallSRFunction_result_def using a b
    by (cases result) simp_all
qed

lemma CreateTupleStore_intnl:
  "CreateTupleStore fcinfo s = (r, fcinfo', s') \<Longrightarrow> intnl_fields s' = intnl_fields s"
  by (auto simp: CreateTupleStore_def Let_def split: option.splits Node.splits if_splits)

lemma CallSRFunction_call_restores:
  assumes ctx: "env_context xenv = Some context"
    and nested: "GetInternalField context PLV8_INTNL_CONV s \<noteq> None"
    and call: "CallSRFunction_call H fcinfo xenv nargs argtypes s = (Inr x, fcinfo', s')"
  shows "intnl_fields s' context = intnl_fields s context"
proof -
  have "intnl_fields s' context f = intnl_fields s context f" for f
    using call ctx nested
    by (cases f)
      (auto simp: CallSRFunction_call_def GetInternalField_def SetInternalField_def Let_def
        dest!: CreateTupleStore_intnl split: prod.splits sum.splits option.splits if_splits)
  then show ?thesis by (rule ext)
qed

text \<open>
  On the path where the engine call returns: a set-returning call that starts while a
  converter binding is installed in its context's \<open>plv8\<close> object (it is nested in
  another set-returning call of that context) ends with both internal fields, converter
  and tuplestore, holding what they held when it started, whatever the function did in
  between and whatever the handling of the result does afterwards.
\<close>

lemma CallSRFunction_restores_on_return:
  assumes ctx: "env_context xenv = Some context"
    and nested: "GetInternalField context PLV8_INTNL_CONV s \<noteq> None"
    and call: "CallSRFunction_call H fcinfo xenv nargs argtypes s = (Inr x, fcinfo', s')"
  shows "GetInternalField context PLV8_INTNL_CONV
           (snd (snd (CallSRFunction H fcinfo xenv nargs argtypes s))) =
         GetInternalField context PLV8_INTNL_CONV s \<and>
         GetInternalField context PLV8_INTNL_TUPSTORE
           (snd (snd (CallSRFunction H fcinfo xenv nargs argtypes s))) =
         GetInternalField context PLV8_INTNL_TUPSTORE s"
proof -
  obtain result conv tupstore where x: "x = (result, conv, tupstore)"
    by (cases x)
  have "intnl_fields (snd (snd (CallSRFunction H fcinfo xenv nargs argtypes s))) = intnl_fields s'"
    using call x CallSRFunction_result_intnl [of H conv result tupstore s']
    by (auto simp: CallSRFunction_def split: prod.splits)
  with CallSRFunction_call_restores [OF ctx nested call] show ?thesis
    by (simp add: GetInternalField_def)
qed

text \<open>
  On the path where the engine call throws, the two \<open>SetInternalField\<close> calls that put
  the stashed values back are not reached: the call ends with its own converter and
  tuplestore still installed.
\<close>

lemma CallSRFunction_throw_leaves_binding:
  assumes ctx: "env_context xenv = Some context"
    and recv: "env_recv xenv = Some r"
    and store: "CreateTupleStore fcinfo s = (Inr (tupstore, tupdesc), fcinfo1, s1)"
    and extra: "flinfo_fn_extra fcinfo1 = Some proc"
    and conv: "Converter_new H tupdesc (functypclass proc = TYPEFUNC_SCALAR) = Inr conv"
    and args: "ToValue_args H fcinfo1 argtypes [0..<nargs] = Inr args"
    and call: "DoCall H (recv_function r) (Recv (recv_id r)) args
                 (SetInternalField context PLV8_INTNL_TUPSTORE (Some (JS_External (Tupstore_ptr tupstore)))
                    (SetInternalField context PLV8_INTNL_CONV (Some (JS_External (Conv_ptr conv))) s1)) =
               (Inl e, s4)"
  shows "CallSRFunction H fcinfo xenv nargs argtypes s = (Inl e, fcinfo1, s4)"
  using assms by (simp add: CallSRFunction_def CallSRFunction_call_def Let_def)

text \<open>
  Concrete inputs: a session in which an outer call has installed its (scalar-shaped)
  converter and tuplestore 3 in context 1, and a host whose scripts return the
  tuplestore binding they see. The inner call runs with its own tuplestore 4 installed
  and leaves the outer bindings behind.
\<close>

definition s_outer :: session where
  "s_outer = s0\<lparr>tuplestore_next := 4,
      intnl_fields := (\<lambda>c f. if c = 1 then
          (case f of PLV8_INTNL_CONV \<Rightarrow> Some (JS_External (Conv_ptr (conv_abc\<lparr>m_is_scalar := True\<rparr>)))
                   | PLV8_INTNL_TUPSTORE \<Rightarrow> Some (JS_External (Tupstore_ptr 3)))
          else Some JS_Undefined)\<rparr>"

definition H_probe :: host where
  "H_probe = H0\<lparr>h_Call := (\<lambda>fn recv args s.
      (Inr (case intnl_fields s 1 PLV8_INTNL_TUPSTORE of None \<Rightarrow> JS_Undefined | Some v \<Rightarrow> v), s))\<rparr>"

lemma CallSRFunction_restores_on_return_example:
  "GetInternalField 1 PLV8_INTNL_CONV s_outer =
     Some (JS_External (Conv_ptr (conv_abc\<lparr>m_is_scalar := True\<rparr>))) \<and>
   GetInternalField 1 PLV8_INTNL_TUPSTORE s_outer = Some (JS_External (Tupstore_ptr 3)) \<and>
   fst (CallSRFunction_call H_probe fcinfo_srf xenv0 0 [] s_outer) =
     Inr (JS_External (Tupstore_ptr 4), conv_abc, 4) \<and>
   GetInternalField 1 PLV8_INTNL_CONV
       (snd (snd (CallSRFunction H_probe fcinfo_srf xenv0 0 [] s_outer))) =
     Some (JS_External (Conv_ptr (conv_abc\<lparr>m_is_scalar := True\<rparr>))) \<and>
   GetInternalField 1 PLV8_INTNL_TUPSTORE
       (snd (snd (CallSRFunction H_probe fcinfo_srf xenv0 0 [] s_outer))) =
     Some (JS_External (Tupstore_ptr 3))"
  by (simp add: srf_eval s_outer_def H_probe_def)

text \<open>
  Claim C9 says that after a nested set-returning call the outer call's binding is
  unchanged. The code breaks this when the nested call's function throws. Here the outer
  call has its converter and tuplestore 3 installed in context 1; the nested call installs
  its own converter and tuplestore 4, its function throws, the call fails with that
  exception, and the \<open>plv8\<close> object is left with the nested call's converter and
  tuplestore 4, not with the outer call's.
\<close>

theorem CallSRFunction_throw_skips_restore:
  "GetInternalField 1 PLV8_INTNL_CONV s_outer =
     Some (JS_External (Conv_ptr (conv_abc\<lparr>m_is_scalar := True\<rparr>))) \<and>
   GetInternalField 1 PLV8_INTNL_TUPSTORE s_outer = Some (JS_External (Tupstore_ptr 3)) \<and>
   fst (CallSRFunction H_throw fcinfo_srf xenv0 0 [] s_outer) = Inl (js_error ''Error: boom'') \<and>
   GetInternalField 1 PLV8_INTNL_CONV
       (snd (snd (CallSRFunction H_throw fcinfo_srf xenv0 0 [] s_outer))) =
     Some (JS_External (Conv_ptr conv_abc)) \<and>
   GetInternalField 1 PLV8_INTNL_TUPSTORE
       (snd (snd (CallSRFunction H_throw fcinfo_srf xenv0 0 [] s_outer))) =
     Some (JS_External (Tupstore_ptr 4))"
  by (simp add: srf_eval s_outer_def)

subsection \<open>Trigger calls\<close>

text \<open>
  Concrete inputs: a relation of the three-column row type, a row-level BEFORE UPDATE
  and a row-level BEFORE INSERT event on it, the call information of a trigger call,
  the argument lists the two events give, and a host whose scripts return the object
  \<open>{a: 9}\<close>.
\<close>

definition rel_abc :: Relation where
  "rel_abc = \<lparr>rd_id = 16384, rd_relname = ''t'', rd_namespace_name = ''public'', rd_att = tupdesc_abc\<rparr>"

definition trig_update :: TriggerData where
  "trig_update = \<lparr>tg_event = \<lparr>fired_by = TRIGGER_EVENT_UPDATE, fired_for_row = True, fired_before = True\<rparr>,
      tg_relation = rel_abc,
      tg_trigtuple = Some [Some (Int_Datum 1), None, None],
      tg_newtuple = Some [Some (Int_Datum 2), None, None],
      tg_trigger = \<lparr>tgname = ''trg'', tgargs = []\<rparr>\<rparr>"

definition trig_insert :: TriggerData where
  "trig_insert = \<lparr>tg_event = \<lparr>fired_by = TRIGGER_EVENT_INSERT, fired_for_row = True, fired_before = True\<rparr>,
      tg_relation = rel_abc,
      tg_trigtuple = Some [Some (Int_Datum 1), None, None],
      tg_newtuple = None,
      tg_trigger = \<lparr>tgname = ''trg'', tgargs = []\<rparr>\<rparr>"

definition fcinfo_trigger :: "TriggerData \<Rightarrow> FunctionCallInfoData" where
  "fcinfo_trigger trig = \<lparr>flinfo_fn_oid = 101, flinfo_fn_extra = None, fc_arg = [], fc_argnull = [],
      fc_isnull = False, resultinfo = None, fc_context = Some (T_TriggerData trig),
      call_result_type = TYPEFUNC_OTHER\<rparr>"

definition H_obj :: host where
  "H_obj = H0\<lparr>h_Call := (\<lambda>fn recv args s. (Inr (JS_Object [(''a'', Some (JS_Number 9))] Object_prototype0), s))\<rparr>"


definition args_update :: "js_value list" where
  "args_update =
     [JS_Object [(''a'', Some (JS_Number 2)), (''b'', Some JS_Null), (''c'', Some JS_Null)] Object_prototype0,
      JS_Object [(''a'', Some (JS_Number 1)), (''b'', Some JS_Null), (''c'', Some JS_Null)] Object_prototype0,
      JS_String ''trg'', JS_String ''BEFORE'', JS_String ''ROW'', JS_String ''UPDATE'',
      JS_Number 16384, JS_String ''t'', JS_String ''public'', JS_Array [] Array_prototype0]"

definition args_insert :: "js_value list" where
  "args_insert =
     [JS_Object [(''a'', Some (JS_Number 1)), (''b'', Some JS_Null), (''c'', Some JS_Null)] Object_prototype0,
      JS_Undefined,
      JS_String ''trg'', JS_String ''BEFORE'', JS_String ''ROW'', JS_String ''INSERT'',
      JS_Number 16384, JS_String ''t'', JS_String ''public'', JS_Array [] Array_prototype0]"

text \<open>The tuple \<open>result\<close> is initialised with, by event.\<close>

lemma CallTrigger_tuples_result:
  "CallTrigger_tuples H trig = Inr (result, new, old) \<Longrightarrow>
     result =
       (if fired_for_row (tg_event trig) then
          (if fired_by (tg_event trig) = TRIGGER_EVENT_UPDATE
           then PointerGetDatum (tg_newtuple trig) else PointerGetDatum (tg_trigtuple trig))
        else Int_Datum 0)"
  by (auto simp: CallTrigger_tuples_def split: if_splits sum.splits trigger_op.splits option.splits)

lemma CallTrigger_args_result:
  "CallTrigger_args H trig = Inr (result, args) \<Longrightarrow>
     result =
       (if fired_for_row (tg_event trig) then
          (if fired_by (tg_event trig) = TRIGGER_EVENT_UPDATE
           then PointerGetDatum (tg_newtuple trig) else PointerGetDatum (tg_trigtuple trig))
        else Int_Datum 0)"
  by (auto simp: CallTrigger_args_def split: sum.splits dest: CallTrigger_tuples_result)

text \<open>The definitions that evaluate a trigger call on the concrete inputs.\<close>

lemmas trigger_eval =
  CallTrigger_def CallTrigger_args_def CallTrigger_tuples_def Converter_new_def
  Converter_ToValue_def Converter_ToDatum_def Converter_row_def ToDatum_column_def
  ToDatum_attr_def attr_is_null_def heap_getattr_def PointerGetDatum_def ToString_def
  DoCall_def SPI_connect_def SPI_finish_def SPI_OK_CONNECT_def SPI_OK_FINISH_def
  fcinfo_trigger_def trig_update_def trig_insert_def rel_abc_def tupdesc_abc_def
  args_update_def args_insert_def xenv0_def fn0_def conv_abc_def s0_def H0_def H_obj_def
  Object_prototype0_def Uint32_New_def upt_rec

subsection \<open>C3: what a row-level UPDATE trigger returns\<close>

text \<open>
  Claim C3, as the code has it. In a row-level UPDATE trigger call whose engine call
  returns \<open>newtup\<close>: if \<open>newtup\<close> is \<open>undefined\<close> or \<open>null\<close>, the handler returns
  \<open>tg_newtuple\<close>, the new row as the host proposed it; if \<open>newtup\<close> is a value that a
  converter for the relation's row type turns into a row, the handler returns that row
  as the tuple to apply.
\<close>

theorem CallTrigger_update_result:
  assumes trig: "fc_context fcinfo = Some (T_TriggerData trig)"
    and upd: "fired_by (tg_event trig) = TRIGGER_EVENT_UPDATE"
    and row: "fired_for_row (tg_event trig)"
    and ctx: "env_context xenv = Some context"
    and recv: "env_recv xenv = Some r"
    and args: "CallTrigger_args H trig = Inr (result0, args)"
    and call: "DoCall H (recv_function r) (Recv (recv_id r)) args s = (Inr newtup, s')"
  shows "(newtup = JS_Undefined \<or> newtup = JS_Null \<longrightarrow>
            CallTrigger H fcinfo xenv s = (Inr (PointerGetDatum (tg_newtuple trig)), s')) \<and>
         (\<forall>conv row. newtup \<noteq> JS_Undefined \<and> newtup \<noteq> JS_Null \<and>
              Converter_new H (rd_att (tg_relation trig)) False = Inr conv \<and>
              Converter_row H conv newtup = Inr row \<longrightarrow>
            CallTrigger H fcinfo xenv s = (Inr (HeapTuple_Datum row), s'))"
proof -
  have r0: "result0 = PointerGetDatum (tg_newtuple trig)"
    using CallTrigger_args_result [OF args] upd row by simp
  have nn: "newtup \<noteq> JS_Undefined \<and> newtup \<noteq> JS_Null \<longleftrightarrow> \<not> (IsUndefined newtup \<or> IsNull newtup)"
    by (cases newtup) simp_all
  show ?thesis
    using trig upd ctx recv args call r0 nn
    by (auto simp: CallTrigger_def Converter_ToDatum_def)
qed

theorem CallTrigger_update_result_witness:
  "CallTrigger H0 (fcinfo_trigger trig_update) xenv0 s0 =
     (Inr (HeapTuple_Datum [Some (Int_Datum 2), None, None]),
      snd (DoCall H0 fn0 (Recv 8) args_update s0)) \<and>
   CallTrigger H_obj (fcinfo_trigger trig_update) xenv0 s0 =
     (Inr (HeapTuple_Datum [Some (Int_Datum 9), None, None]),
      snd (DoCall H_obj fn0 (Recv 8) args_update s0))"
proof -
  have trig: "fc_context (fcinfo_trigger trig_update) = Some (T_TriggerData trig_update)"
    by (simp add: fcinfo_trigger_def)
  have upd: "fired_by (tg_event trig_update) = TRIGGER_EVENT_UPDATE"
    and row: "fired_for_row (tg_event trig_update)"
    by (simp_all add: trig_update_def)
  have ctx: "env_context xenv0 = Some 1"
    and recv: "env_recv xenv0 = Some \<lparr>recv_id = 8, recv_function = fn0\<rparr>"
    by (simp_all add: xenv0_def)
  have new: "PointerGetDatum (tg_newtuple trig_update) = HeapTuple_Datum [Some (Int_Datum 2), None, None]"
    by (simp add: trig_update_def PointerGetDatum_def)
  have args0: "CallTrigger_args H0 trig_update =
      Inr (HeapTuple_Datum [Some (Int_Datum 2), None, None], args_update)"
    by (simp add: trigger_eval)
  have args1: "CallTrigger_args H_obj trig_update =
      Inr (HeapTuple_Datum [Some (Int_Datum 2), None, None], args_update)"
    by (simp add: trigger_eval)
  have "fst (DoCall H0 fn0 (Recv 8) args_update s0) = Inr JS_Undefined"
    by (simp add: trigger_eval)
  then have call0: "DoCall H0 (recv_function \<lparr>recv_id = 8, recv_function = fn0\<rparr>)
        (Recv (recv_id \<lparr>recv_id = 8, recv_function = fn0\<rparr>)) args_update s0 =
      (Inr JS_Undefined, snd (DoCall H0 fn0 (Recv 8) args_update s0))"
    by (simp add: prod_eq_iff)
  have "fst (DoCall H_obj fn0 (Recv 8) args_update s0) = Inr (JS_Object [(''a'', Some (JS_Number 9))] Object_prototype0)"
    by (simp add: trigger_eval)
  then have call1: "DoCall H_obj (recv_function \<lparr>recv_id = 8, recv_function = fn0\<rparr>)
        (Recv (recv_id \<lparr>recv_id = 8, recv_function = fn0\<rparr>)) args_update s0 =
      (Inr (JS_Object [(''a'', Some (JS_Number 9))] Object_prototype0), snd (DoCall H_obj fn0 (Recv 8) args_update s0))"
    by (simp add: prod_eq_iff)
  have conv: "Converter_new H_obj (rd_att (tg_relation trig_update)) False = Inr conv_abc"
    by (simp add: trigger_eval)
  have crow: "Converter_row H_obj conv_abc (JS_Object [(''a'', Some (JS_Number 9))] Object_prototype0) =
      Inr [Some (Int_Datum 9), None, None]"
    by (simp add: trigger_eval)
  from CallTrigger_update_result [OF trig upd row ctx recv args0 call0] new
  have "CallTrigger H0 (fcinfo_trigger trig_update) xenv0 s0 =
     (Inr (HeapTuple_Datum [Some (Int_Datum 2), None, None]),
      snd (DoCall H0 fn0 (Recv 8) args_update s0))"
    by simp
  moreover from CallTrigger_update_result [OF trig upd row ctx recv args1 call1] conv crow
  have "CallTrigger H_obj (fcinfo_trigger trig_update) xenv0 s0 =
     (Inr (HeapTuple_Datum [Some (Int_Datum 9), None, None]),
      snd (DoCall H_obj fn0 (Recv 8) args_update s0))"
    by simp
  ultimately show ?thesis by simp
qed

text \<open>
  The host skips the row operation only when a trigger returns the null pointer,
  \<open>(Datum) 0\<close>. The claim that \<open>undefined\<close> suppresses the update fails: for a script
  returning \<open>undefined\<close> the handler returns the proposed new row, not the null
  pointer.
\<close>

theorem CallTrigger_update_counterexample:
  "fired_by (tg_event trig_update) = TRIGGER_EVENT_UPDATE \<and>
   fired_for_row (tg_event trig_update) \<and>
   tg_newtuple trig_update = Some [Some (Int_Datum 2), None, None] \<and>
   CallTrigger_args H0 trig_update =
     Inr (HeapTuple_Datum [Some (Int_Datum 2), None, None], args_update) \<and>
   fst (DoCall H0 fn0 (Recv 8) args_update s0) = Inr JS_Undefined \<and>
   fst (CallTrigger H0 (fcinfo_trigger trig_update) xenv0 s0) =
     Inr (HeapTuple_Datum [Some (Int_Datum 2), None, None]) \<and>
   HeapTuple_Datum [Some (Int_Datum 2), None, None] \<noteq> Int_Datum 0"
  by (simp add: trigger_eval)

subsection \<open>C10: row-level INSERT and DELETE triggers return the original tuple\<close>

text \<open>
  Claim C10. In a row-level INSERT or DELETE trigger call, the handler fails exactly
  when the engine call fails, and otherwise returns \<open>tg_trigtuple\<close>, whatever value the
  function returned.
\<close>

theorem CallTrigger_insert_delete_result:
  assumes trig: "fc_context fcinfo = Some (T_TriggerData trig)"
    and op: "fired_by (tg_event trig) = TRIGGER_EVENT_INSERT \<or>
             fired_by (tg_event trig) = TRIGGER_EVENT_DELETE"
    and row: "fired_for_row (tg_event trig)"
    and ctx: "env_context xenv = Some context"
    and recv: "env_recv xenv = Some r"
    and args: "CallTrigger_args H trig = Inr (result0, args)"
  shows "CallTrigger H fcinfo xenv s =
           (case DoCall H (recv_function r) (Recv (recv_id r)) args s of
              (Inl e, s') \<Rightarrow> (Inl e, s')
            | (Inr newtup, s') \<Rightarrow> (Inr (PointerGetDatum (tg_trigtuple trig)), s'))"
proof -
  have r0: "result0 = PointerGetDatum (tg_trigtuple trig)"
    using CallTrigger_args_result [OF args] op row by auto
  show ?thesis
    using trig op ctx recv args r0
    by (auto simp: CallTrigger_def split: prod.splits sum.splits)
qed

theorem CallTrigger_insert_delete_result_witness:
  "fst (DoCall H_obj fn0 (Recv 8) args_insert s0) = Inr (JS_Object [(''a'', Some (JS_Number 9))] Object_prototype0) \<and>
   CallTrigger H_obj (fcinfo_trigger trig_insert) xenv0 s0 =
     (Inr (HeapTuple_Datum [Some (Int_Datum 1), None, None]),
      snd (DoCall H_obj fn0 (Recv 8) args_insert s0))"
proof -
  have trig: "fc_context (fcinfo_trigger trig_insert) = Some (T_TriggerData trig_insert)"
    by (simp add: fcinfo_trigger_def)
  have op: "fired_by (tg_event trig_insert) = TRIGGER_EVENT_INSERT \<or>
            fired_by (tg_event trig_insert) = TRIGGER_EVENT_DELETE"
    and row: "fired_for_row (tg_event trig_insert)"
    by (simp_all add: trig_insert_def)
  have ctx: "env_context xenv0 = Some 1"
    and recv: "env_recv xenv0 = Some \<lparr>recv_id = 8, recv_function = fn0\<rparr>"
    by (simp_all add: xenv0_def)
  have old: "PointerGetDatum (tg_trigtuple trig_insert) = HeapTuple_Datum [Some (Int_Datum 1), None, None]"
    by (simp add: trig_insert_def PointerGetDatum_def)
  have args: "CallTrigger_args H_obj trig_insert =
      Inr (HeapTuple_Datum [Some (Int_Datum 1), None, None], args_insert)"
    by (simp add: trigger_eval)
  have r: "fst (DoCall H_obj fn0 (Recv 8) args_insert s0) = Inr (JS_Object [(''a'', Some (JS_Number 9))] Object_prototype0)"
    by (simp add: trigger_eval)
  from CallTrigger_insert_delete_result [OF trig op row ctx recv args, of s0] old r
  show ?thesis
    by (cases "DoCall H_obj fn0 (Recv 8) args_insert s0") auto
qed

subsection \<open>C4: the transaction callback\<close>

text \<open>
  \<open>env_list mem p addrs\<close>: following \<open>next\<close> from pointer \<open>p\<close> through memory \<open>mem\<close>
  visits exactly the addresses \<open>addrs\<close>, in this order, and then reaches the null
  pointer.
\<close>

fun env_list :: "plv8_exec_env list \<Rightarrow> nat option \<Rightarrow> nat list \<Rightarrow> bool" where
  "env_list mem p [] = (p = None)"
| "env_list mem p (a # addrs) =
     (p = Some a \<and> a < length mem \<and> env_list mem (env_next (mem ! a)) addrs)"

lemma env_list_same_next:
  "env_list mem p addrs \<Longrightarrow> length mem' = length mem \<Longrightarrow>
   (\<forall>a < length mem. env_next (mem' ! a) = env_next (mem ! a)) \<Longrightarrow>
   env_list mem' p addrs"
  by (induction addrs arbitrary: p) auto

text \<open>
  \<open>released addrs st st'\<close>: from \<open>st\<close> to \<open>st'\<close> the environments at \<open>addrs\<close> had their
  receiver handle disposed and cleared, and nothing else of the environments, the
  registries or the session changed.
\<close>

definition released :: "nat list \<Rightarrow> state \<Rightarrow> state \<Rightarrow> bool" where
  "released addrs st st' =
     (length (TopTransactionContext st') = length (TopTransactionContext st) \<and>
      (\<forall>a < length (TopTransactionContext st).
         env_next (TopTransactionContext st' ! a) = env_next (TopTransactionContext st ! a) \<and>
         env_context (TopTransactionContext st' ! a) = env_context (TopTransactionContext st ! a) \<and>
         env_recv (TopTransactionContext st' ! a) =
           (if a \<in> set addrs then None else env_recv (TopTransactionContext st ! a)) \<and>
         (\<forall>r. a \<in> set addrs \<and> env_recv (TopTransactionContext st ! a) = Some r
            \<longrightarrow> recv_id r \<in> set (disposed st'))) \<and>
      set (disposed st) \<subseteq> set (disposed st') \<and>
      exec_env_head st' = exec_env_head st \<and>
      ContextVector st' = ContextVector st \<and>
      plv8_proc_cache_hash st' = plv8_proc_cache_hash st \<and>
      sess st' = sess st)"

lemma released_Cons:
  assumes 1: "released [a] st st1" and 2: "released addrs st1 st'"
  shows "released (a # addrs) st st'"
proof -
  let ?m = "TopTransactionContext st" and ?m1 = "TopTransactionContext st1"
    and ?m' = "TopTransactionContext st'"
  have len: "length ?m1 = length ?m" "length ?m' = length ?m1"
    using 1 2 by (simp_all add: released_def)
  have d1: "set (disposed st) \<subseteq> set (disposed st1)" and d2: "set (disposed st1) \<subseteq> set (disposed st')"
    using 1 2 by (simp_all add: released_def)
  have env: "env_next (?m' ! b) = env_next (?m ! b) \<and> env_context (?m' ! b) = env_context (?m ! b) \<and>
      env_recv (?m' ! b) = (if b \<in> set (a # addrs) then None else env_recv (?m ! b)) \<and>
      (\<forall>r. b \<in> set (a # addrs) \<and> env_recv (?m ! b) = Some r \<longrightarrow> recv_id r \<in> set (disposed st'))"
    if b: "b < length ?m" for b
  proof -
    have s1: "env_next (?m1 ! b) = env_next (?m ! b)" "env_context (?m1 ! b) = env_context (?m ! b)"
        "env_recv (?m1 ! b) = (if b \<in> set [a] then None else env_recv (?m ! b))"
        "\<forall>r. b \<in> set [a] \<and> env_recv (?m ! b) = Some r \<longrightarrow> recv_id r \<in> set (disposed st1)"
      using 1 b unfolding released_def by auto
    have s2: "env_next (?m' ! b) = env_next (?m1 ! b)" "env_context (?m' ! b) = env_context (?m1 ! b)"
        "env_recv (?m' ! b) = (if b \<in> set addrs then None else env_recv (?m1 ! b))"
        "\<forall>r. b \<in> set addrs \<and> env_recv (?m1 ! b) = Some r \<longrightarrow> recv_id r \<in> set (disposed st')"
      using 2 b len unfolding released_def by auto
    show ?thesis using s1 s2 d2 by (auto split: if_splits)
  qed
  have rest: "exec_env_head st' = exec_env_head st" "ContextVector st' = ContextVector st"
      "plv8_proc_cache_hash st' = plv8_proc_cache_hash st" "sess st' = sess st"
    using 1 2 by (simp_all add: released_def)
  show ?thesis
    unfolding released_def
    using len env d1 d2 rest by (intro conjI allI impI) auto
qed

lemma xact_cb_loop_released:
  "env_list (TopTransactionContext st) p addrs \<Longrightarrow>
     \<exists>st'. xact_cb_loop p st = Some st' \<and> released addrs st st'"
proof (induction addrs arbitrary: p st)
  case Nil
  then show ?case
    by (subst xact_cb_loop.simps) (simp add: released_def)
next
  case (Cons a addrs)
  let ?mem = "TopTransactionContext st"
  let ?e = "?mem ! a"
  from Cons.prems have p: "p = Some a" and a: "a < length ?mem"
    and rest: "env_list ?mem (env_next ?e) addrs"
    by simp_all
  define st1 where "st1 = (case env_recv ?e of
                         None \<Rightarrow> st
                       | Some r \<Rightarrow>
                           (Dispose (Some (recv_id r)) st)
                             \<lparr>TopTransactionContext := ?mem[a := ?e\<lparr>env_recv := None\<rparr>]\<rparr>)"
  have step: "released [a] st st1"
    using a
    by (auto simp: st1_def released_def Dispose_def nth_list_update split: option.splits)
  then have "env_list (TopTransactionContext st1) (env_next ?e) addrs"
    using rest by (intro env_list_same_next [OF rest]) (simp_all add: released_def)
  from Cons.IH [OF this] obtain st' where
    loop: "xact_cb_loop (env_next ?e) st1 = Some st'" and rel: "released addrs st1 st'"
    by blast
  have "xact_cb_loop p st = Some st'"
    using p a loop by (subst xact_cb_loop.simps) (simp add: st1_def Let_def)
  moreover have "released (a # addrs) st st'"
    using step rel by (rule released_Cons)
  ultimately show ?case by blast
qed

lemma env_list_in_range:
  "env_list mem p addrs \<Longrightarrow> a \<in> set addrs \<Longrightarrow> a < length mem"
  by (induction addrs arbitrary: p) auto

lemma env_list_append:
  "env_list mem p addrs \<Longrightarrow> env_list (mem @ tl_mem) p addrs"
  by (induction addrs arbitrary: p) (auto simp: nth_append)

text \<open>
  Every environment \<open>plv8_new_exec_env\<close> hands out is on the list, in front of those
  that were on it.
\<close>

lemma plv8_new_exec_env_list:
  assumes "env_list (TopTransactionContext st) (exec_env_head st) addrs"
    and "plv8_new_exec_env st = (xenv, st')"
  shows "env_list (TopTransactionContext st') (exec_env_head st') (xenv # addrs)"
  using assms env_list_append [of "TopTransactionContext st" "exec_env_head st" addrs]
  by (auto simp: plv8_new_exec_env_def Let_def)

text \<open>An environment whose receiver handle is empty cannot be called through.\<close>

lemma CallTrigger_empty_recv:
  "env_recv xenv = None \<Longrightarrow> \<exists>e. fst (CallTrigger H fcinfo xenv s) = Inl e"
  by (auto simp: CallTrigger_def split: option.splits Node.splits sum.splits prod.splits)

lemma CallSRFunction_empty_recv:
  "env_recv xenv = None \<Longrightarrow> \<exists>e. fst (CallSRFunction H fcinfo xenv nargs argtypes s) = Inl e"
  by (auto simp: CallSRFunction_def CallSRFunction_call_def Let_def
      split: option.splits sum.splits prod.splits)

text \<open>
  Concrete inputs: a process with nothing cached or registered, and one in which user 10
  has context 1 and two environments are on the list, the newer at address 1.
\<close>

definition st0 :: state where
  "st0 = \<lparr>sess = s0, user_id = 10, pg_proc = (\<lambda>oid. None), typtype = (\<lambda>oid. CHR ''b''),
      regproc = (\<lambda>name. None), regprocedure = (\<lambda>name. None), plv8_language = Some 300,
      plv8_start_proc = None, plv8_proc_cache_hash = (\<lambda>oid. None), ContextVector = [],
      exec_env_head = None, TopTransactionContext = [], next_handle = 0, disposed = []\<rparr>"

definition st_two :: state where
  "st_two = st0\<lparr>ContextVector := [\<lparr>ctx_context = 1, ctx_user_id = 10\<rparr>],
      TopTransactionContext :=
        [\<lparr>env_recv = Some \<lparr>recv_id = 8, recv_function = fn0\<rparr>, env_context = Some 1,
          env_next = None\<rparr>,
         \<lparr>env_recv = Some \<lparr>recv_id = 9, recv_function = fn0\<rparr>, env_context = Some 1,
          env_next = Some 0\<rparr>],
      exec_env_head := Some 1, next_handle := 10\<rparr>"

text \<open>
  Claim C4, as the code has it. Whenever the \<open>next\<close> pointers from the list head lead
  through transaction memory to the null pointer, the callback returns, for every event
  alike; afterwards the list head is null and every environment that was on the list has
  an empty receiver handle, the receiver it held having been disposed. The context handle
  of an environment is left as it was, and the context registry is untouched.
\<close>

theorem plv8_xact_cb_releases:
  assumes "env_list (TopTransactionContext st) (exec_env_head st) addrs"
  shows "\<exists>st'. (\<forall>event. plv8_xact_cb event st = Some st') \<and>
           exec_env_head st' = None \<and>
           ContextVector st' = ContextVector st \<and>
           (\<forall>a \<in> set addrs.
              env_recv (TopTransactionContext st' ! a) = None \<and>
              env_context (TopTransactionContext st' ! a) = env_context (TopTransactionContext st ! a) \<and>
              (\<forall>r. env_recv (TopTransactionContext st ! a) = Some r
                 \<longrightarrow> recv_id r \<in> set (disposed st')))"
proof -
  from xact_cb_loop_released [OF assms] obtain st1 where
    loop: "xact_cb_loop (exec_env_head st) st = Some st1" and rel: "released addrs st st1"
    by blast
  have cb: "\<forall>event. plv8_xact_cb event st = Some (st1\<lparr>exec_env_head := None\<rparr>)"
    using loop by (simp add: plv8_xact_cb_def)
  have "env_recv (TopTransactionContext st1 ! a) = None \<and>
        env_context (TopTransactionContext st1 ! a) = env_context (TopTransactionContext st ! a) \<and>
        (\<forall>r. env_recv (TopTransactionContext st ! a) = Some r \<longrightarrow> recv_id r \<in> set (disposed st1))"
    if "a \<in> set addrs" for a
    using rel that env_list_in_range [OF assms that] unfolding released_def by auto
  moreover have "ContextVector st1 = ContextVector st"
    using rel by (simp add: released_def)
  ultimately show ?thesis
    using cb by simp
qed

lemma env_list_two: "env_list (TopTransactionContext st_two) (exec_env_head st_two) [1, 0]"
  by (simp add: st_two_def)

theorem plv8_new_exec_env_list_witness:
  "env_list (TopTransactionContext st_two) (exec_env_head st_two) [1, 0] \<and>
   fst (plv8_new_exec_env st_two) = 2 \<and>
   env_list (TopTransactionContext (snd (plv8_new_exec_env st_two)))
     (exec_env_head (snd (plv8_new_exec_env st_two))) [2, 1, 0]"
proof -
  have x: "fst (plv8_new_exec_env st_two) = 2"
    by (simp add: plv8_new_exec_env_def st_two_def Let_def)
  then have eq: "plv8_new_exec_env st_two = (2, snd (plv8_new_exec_env st_two))"
    by (simp add: prod_eq_iff)
  from plv8_new_exec_env_list [OF env_list_two eq] env_list_two x show ?thesis
    by simp
qed

theorem plv8_xact_cb_releases_witness:
  "env_list (TopTransactionContext st_two) (exec_env_head st_two) [1, 0] \<and>
   (\<exists>st'. plv8_xact_cb XACT_EVENT_ABORT st_two = Some st' \<and>
      exec_env_head st' = None \<and>
      env_recv (TopTransactionContext st' ! 0) = None \<and>
      env_recv (TopTransactionContext st' ! 1) = None \<and>
      8 \<in> set (disposed st') \<and> 9 \<in> set (disposed st'))"
proof -
  from plv8_xact_cb_releases [OF env_list_two]
  obtain st' where cb: "plv8_xact_cb XACT_EVENT_ABORT st_two = Some st'"
    and h: "exec_env_head st' = None"
    and envs: "\<forall>a \<in> set [1, 0].
              env_recv (TopTransactionContext st' ! a) = None \<and>
              env_context (TopTransactionContext st' ! a) = env_context (TopTransactionContext st_two ! a) \<and>
              (\<forall>r. env_recv (TopTransactionContext st_two ! a) = Some r
                 \<longrightarrow> recv_id r \<in> set (disposed st'))"
    by blast
  from envs have "env_recv (TopTransactionContext st' ! 0) = None"
      "env_recv (TopTransactionContext st' ! 1) = None"
      "8 \<in> set (disposed st')" "9 \<in> set (disposed st')"
    by (simp_all add: st_two_def)
  with cb h env_list_two show ?thesis by blast
qed

text \<open>
  The claim that the context handles are released as well fails: after the callback both
  environments still hold context 1, and only the two receivers have been disposed.
\<close>

theorem plv8_xact_cb_counterexample:
  "env_list (TopTransactionContext st_two) (exec_env_head st_two) [1, 0] \<and>
   map_option disposed (plv8_xact_cb XACT_EVENT_COMMIT st_two) = Some [8, 9] \<and>
   map_option (map env_context \<circ> TopTransactionContext) (plv8_xact_cb XACT_EVENT_COMMIT st_two) =
     Some [Some 1, Some 1] \<and>
   map_option (map env_recv \<circ> TopTransactionContext) (plv8_xact_cb XACT_EVENT_COMMIT st_two) =
     Some [None, None]"
  by (simp add: plv8_xact_cb_def xact_cb_loop.simps Dispose_def st_two_def st0_def)

subsection \<open>What the cache and registry routines can change\<close>

text \<open>
  \<open>fresh_function st oid f\<close>: \<open>f\<close> was compiled after state \<open>st\<close> from the source text
  that the catalog of \<open>st\<close> holds for function \<open>oid\<close>, wrapped as a function expression
  with some parameter list.
\<close>

definition fresh_function :: "state \<Rightarrow> Oid \<Rightarrow> js_function \<Rightarrow> bool" where
  "fresh_function st oid f =
     (next_handle st \<le> fn_id f \<and>
      (\<exists>procTup src params.
         pg_proc st oid = Some procTup \<and> prosrc procTup = Some src \<and>
         fn_source f = ''(function ('' @ params @ ''){'' @ [CHR 0x0A] @ src @ [CHR 0x0A] @ ''})''))"

lemma CompileFunction_source_wrapped:
  "\<exists>params. CompileFunction_source n names src trig =
     ''(function ('' @ params @ ''){'' @ [CHR 0x0A] @ src @ [CHR 0x0A] @ ''})''"
  unfolding CompileFunction_source_def by blast

text \<open>
  \<open>evolves st st'\<close>: what any of the routines can have done between \<open>st\<close> and \<open>st'\<close>.
  The host's view, the GUC and the environments are as before; identities were only
  allocated and handles only disposed; contexts were only registered, each a new one;
  and a cache entry is either as before or holds an empty handle or a function compiled
  in between from the current source.
\<close>

definition evolves :: "state \<Rightarrow> state \<Rightarrow> bool" where
  "evolves st st' =
     (user_id st' = user_id st \<and> pg_proc st' = pg_proc st \<and> typtype st' = typtype st \<and>
      regproc st' = regproc st \<and> regprocedure st' = regprocedure st \<and>
      plv8_language st' = plv8_language st \<and> plv8_start_proc st' = plv8_start_proc st \<and>
      exec_env_head st' = exec_env_head st \<and>
      TopTransactionContext st' = TopTransactionContext st \<and>
      next_handle st \<le> next_handle st' \<and>
      set (disposed st) \<subseteq> set (disposed st') \<and>
      (\<exists>new. ContextVector st' = ContextVector st @ new \<and>
             distinct (map ctx_context new) \<and>
             (\<forall>e \<in> set new. next_handle st \<le> ctx_context e \<and> ctx_context e < next_handle st')) \<and>
      (\<forall>oid. plv8_proc_cache_hash st' oid = plv8_proc_cache_hash st oid \<or>
             (\<exists>c'. plv8_proc_cache_hash st' oid = Some c' \<and>
                   (\<forall>f. cache_function c' = Some f \<longrightarrow> fresh_function st oid f))))"

lemma evolves_refl: "evolves st st"
  by (auto simp: evolves_def)

lemma fresh_function_mono:
  "fresh_function st' oid f \<Longrightarrow> pg_proc st' = pg_proc st \<Longrightarrow> next_handle st \<le> next_handle st' \<Longrightarrow>
     fresh_function st oid f"
  by (auto simp: fresh_function_def)

lemma evolves_trans:
  assumes 1: "evolves st st1" and 2: "evolves st1 st2"
  shows "evolves st st2"
proof -
  from 1 obtain new1 where n1: "ContextVector st1 = ContextVector st @ new1"
      "distinct (map ctx_context new1)"
      "\<forall>e \<in> set new1. next_handle st \<le> ctx_context e \<and> ctx_context e < next_handle st1"
    unfolding evolves_def by blast
  from 2 obtain new2 where n2: "ContextVector st2 = ContextVector st1 @ new2"
      "distinct (map ctx_context new2)"
      "\<forall>e \<in> set new2. next_handle st1 \<le> ctx_context e \<and> ctx_context e < next_handle st2"
    unfolding evolves_def by blast
  have le: "next_handle st \<le> next_handle st1" "next_handle st1 \<le> next_handle st2"
    using 1 2 by (simp_all add: evolves_def)
  have cv: "ContextVector st2 = ContextVector st @ (new1 @ new2) \<and>
      distinct (map ctx_context (new1 @ new2)) \<and>
      (\<forall>e \<in> set (new1 @ new2). next_handle st \<le> ctx_context e \<and> ctx_context e < next_handle st2)"
    using n1 n2 le by (fastforce simp: )
  have pg: "pg_proc st1 = pg_proc st"
    using 1 by (simp add: evolves_def)
  have cache: "plv8_proc_cache_hash st2 oid = plv8_proc_cache_hash st oid \<or>
             (\<exists>c'. plv8_proc_cache_hash st2 oid = Some c' \<and>
                   (\<forall>f. cache_function c' = Some f \<longrightarrow> fresh_function st oid f))" for oid
  proof -
    from 2 have "plv8_proc_cache_hash st2 oid = plv8_proc_cache_hash st1 oid \<or>
             (\<exists>c'. plv8_proc_cache_hash st2 oid = Some c' \<and>
                   (\<forall>f. cache_function c' = Some f \<longrightarrow> fresh_function st1 oid f))"
      unfolding evolves_def by blast
    then show ?thesis
    proof
      assume "plv8_proc_cache_hash st2 oid = plv8_proc_cache_hash st1 oid"
      moreover from 1 have "plv8_proc_cache_hash st1 oid = plv8_proc_cache_hash st oid \<or>
             (\<exists>c'. plv8_proc_cache_hash st1 oid = Some c' \<and>
                   (\<forall>f. cache_function c' = Some f \<longrightarrow> fresh_function st oid f))"
        unfolding evolves_def by blast
      ultimately show ?thesis by auto
    next
      assume "\<exists>c'. plv8_proc_cache_hash st2 oid = Some c' \<and>
                   (\<forall>f. cache_function c' = Some f \<longrightarrow> fresh_function st1 oid f)"
      then show ?thesis
        using fresh_function_mono [OF _ pg le(1)] by blast
    qed
  qed
  have rest: "user_id st2 = user_id st \<and> pg_proc st2 = pg_proc st \<and> typtype st2 = typtype st \<and>
      regproc st2 = regproc st \<and> regprocedure st2 = regprocedure st \<and>
      plv8_language st2 = plv8_language st \<and> plv8_start_proc st2 = plv8_start_proc st \<and>
      exec_env_head st2 = exec_env_head st \<and>
      TopTransactionContext st2 = TopTransactionContext st \<and>
      next_handle st \<le> next_handle st2 \<and>
      set (disposed st) \<subseteq> set (disposed st2)"
    using 1 2 unfolding evolves_def by auto
  show ?thesis
    unfolding evolves_def using rest cv cache by blast
qed

lemma evolves_sess: "evolves st (st\<lparr>sess := s\<rparr>)"
  by (auto simp: evolves_def)

lemma evolves_alloc: "evolves st (st\<lparr>next_handle := Suc (next_handle st)\<rparr>)"
  by (auto simp: evolves_def)

lemma evolves_register:
  "Context_New H st = (c, st1) \<Longrightarrow>
     evolves st (st1\<lparr>ContextVector := ContextVector st1 @ [\<lparr>ctx_context = c, ctx_user_id = u\<rparr>]\<rparr>)"
  by (auto simp: evolves_def Context_New_def Let_def)

lemma evolves_store:
  assumes e: "evolves st st2" and f: "fresh_function st oid f"
  shows "evolves st (st2\<lparr>plv8_proc_cache_hash :=
            (plv8_proc_cache_hash st2)(oid := map_option (\<lambda>c. c\<lparr>cache_function := Some f\<rparr>)
                                              (plv8_proc_cache_hash st2 oid))\<rparr>)"
proof -
  let ?st3 = "st2\<lparr>plv8_proc_cache_hash :=
            (plv8_proc_cache_hash st2)(oid := map_option (\<lambda>c. c\<lparr>cache_function := Some f\<rparr>)
                                              (plv8_proc_cache_hash st2 oid))\<rparr>"
  have cache: "plv8_proc_cache_hash ?st3 x = plv8_proc_cache_hash st x \<or>
             (\<exists>c'. plv8_proc_cache_hash ?st3 x = Some c' \<and>
                   (\<forall>g. cache_function c' = Some g \<longrightarrow> fresh_function st x g))" for x
  proof (cases "x = oid")
    case False
    from e have "plv8_proc_cache_hash st2 x = plv8_proc_cache_hash st x \<or>
             (\<exists>c'. plv8_proc_cache_hash st2 x = Some c' \<and>
                   (\<forall>g. cache_function c' = Some g \<longrightarrow> fresh_function st x g))"
      unfolding evolves_def by blast
    with False show ?thesis by simp
  next
    case True
    show ?thesis
    proof (cases "plv8_proc_cache_hash st2 oid")
      case None
      from e have "plv8_proc_cache_hash st2 oid = plv8_proc_cache_hash st oid \<or>
             (\<exists>c'. plv8_proc_cache_hash st2 oid = Some c' \<and>
                   (\<forall>g. cache_function c' = Some g \<longrightarrow> fresh_function st oid g))"
        unfolding evolves_def by blast
      with None True show ?thesis by simp
    next
      case (Some c2)
      with f True show ?thesis by simp
    qed
  qed
  have rest: "user_id ?st3 = user_id st \<and> pg_proc ?st3 = pg_proc st \<and> typtype ?st3 = typtype st \<and>
      regproc ?st3 = regproc st \<and> regprocedure ?st3 = regprocedure st \<and>
      plv8_language ?st3 = plv8_language st \<and> plv8_start_proc ?st3 = plv8_start_proc st \<and>
      exec_env_head ?st3 = exec_env_head st \<and>
      TopTransactionContext ?st3 = TopTransactionContext st \<and>
      next_handle st \<le> next_handle ?st3 \<and>
      set (disposed st) \<subseteq> set (disposed ?st3) \<and>
      (\<exists>new. ContextVector ?st3 = ContextVector st @ new \<and>
             distinct (map ctx_context new) \<and>
             (\<forall>e \<in> set new. next_handle st \<le> ctx_context e \<and> ctx_context e < next_handle ?st3))"
    using e unfolding evolves_def by simp
  show ?thesis
    unfolding evolves_def using rest cache by blast
qed

text \<open>
  What a successful \<open>plv8_get_proc\<close> leaves in the cache: the entry of the function,
  and if its handle is empty the entry holds the source text of the current catalog row.
\<close>

lemma plv8_get_proc_result:
  assumes "plv8_get_proc H oid validate st = (Inr (proc, argnames), st1)"
  shows "proc_cache proc = oid \<and>
         (\<exists>cache procTup. plv8_proc_cache_hash st1 oid = Some cache \<and>
            pg_proc st oid = Some procTup \<and>
            (cache_function cache = None \<longrightarrow>
               cache_prosrc cache = prosrc procTup \<and> prosrc procTup \<noteq> None))"
  using assms
  by (auto simp: plv8_get_proc_def Let_def Dispose_def new_cache_entry_def
      split: option.splits if_splits prod.splits sum.splits)

lemma evolves_plv8_get_proc:
  assumes "plv8_get_proc H oid validate st = (r, st')"
  shows "evolves st st'"
proof -
  have frame: "user_id st' = user_id st \<and> pg_proc st' = pg_proc st \<and> typtype st' = typtype st \<and>
      regproc st' = regproc st \<and> regprocedure st' = regprocedure st \<and>
      plv8_language st' = plv8_language st \<and> plv8_start_proc st' = plv8_start_proc st \<and>
      exec_env_head st' = exec_env_head st \<and>
      TopTransactionContext st' = TopTransactionContext st \<and>
      next_handle st' = next_handle st \<and>
      set (disposed st) \<subseteq> set (disposed st') \<and>
      ContextVector st' = ContextVector st"
    using assms
    by (auto simp: plv8_get_proc_def Let_def Dispose_def new_cache_entry_def
        split: option.splits if_splits prod.splits sum.splits)
  have other: "plv8_proc_cache_hash st' x = plv8_proc_cache_hash st x" if "x \<noteq> oid" for x
    using assms that
    by (auto simp: plv8_get_proc_def Let_def Dispose_def new_cache_entry_def
        split: option.splits if_splits prod.splits sum.splits)
  have this_one: "plv8_proc_cache_hash st' oid = plv8_proc_cache_hash st oid \<or>
      (\<exists>c'. plv8_proc_cache_hash st' oid = Some c' \<and> cache_function c' = None)"
    using assms
    by (auto simp: plv8_get_proc_def Let_def Dispose_def new_cache_entry_def
        split: option.splits if_splits prod.splits sum.splits)
  have "plv8_proc_cache_hash st' x = plv8_proc_cache_hash st x \<or>
             (\<exists>c'. plv8_proc_cache_hash st' x = Some c' \<and>
                   (\<forall>f. cache_function c' = Some f \<longrightarrow> fresh_function st x f))" for x
    using other [of x] this_one by (cases "x = oid") auto
  then show ?thesis
    unfolding evolves_def using frame by auto
qed

lemma CompileFunction_result:
  assumes "CompileFunction H pname proarglen proargs psrc is_trigger retset st = (Inr f, st')"
  shows "\<exists>st1 c. GetGlobalContext H st = (Inr c, st1) \<and>
           f = \<lparr>fn_id = next_handle st1,
                 fn_source = CompileFunction_source proarglen proargs psrc is_trigger,
                 fn_name = pname, fn_context = c\<rparr> \<and>
           st' = st1\<lparr>next_handle := Suc (next_handle st1)\<rparr>"
  using assms
  by (subst (asm) CompileFunction.simps)
    (auto simp: Let_def split: prod.splits sum.splits if_splits option.splits)

lemma evolves_all:
  shows "GetGlobalContext H st = (r1, st') \<Longrightarrow> evolves st st'"
    and "CompileFunction H pname proarglen proargs psrc is_trigger retset st = (r2, st') \<Longrightarrow>
           evolves st st' \<and>
           (\<forall>f. r2 = Inr f \<longrightarrow> next_handle st \<le> fn_id f \<and>
                fn_source f = CompileFunction_source proarglen proargs psrc is_trigger)"
    and "Compile H oid validate is_trigger st = (r3, st') \<Longrightarrow> evolves st st'"
    and "find_js_function H oid st = (r4, st') \<Longrightarrow> evolves st st'"
    and "find_js_function_by_name H signature st = (r5, st') \<Longrightarrow> evolves st st'"
proof (induction H st and H pname proarglen proargs psrc is_trigger retset st
    and H oid validate is_trigger st and H oid st and H signature st
    arbitrary: r1 st' and r2 st' and r3 st' and r4 st' and r5 st'
    rule: GetGlobalContext_CompileFunction_Compile_find_js_function_find_js_function_by_name.induct)
  case (1 H st)
  show ?case
  proof (cases "ContextVector_find (ContextVector st) (user_id st)")
    case (Some c)
    with 1(2) show ?thesis
      by (subst (asm) GetGlobalContext.simps) (simp add: evolves_refl)
  next
    case None
    obtain c st1 where new: "Context_New H st = (c, st1)"
      by (cases "Context_New H st")
    define st2 where "st2 = st1\<lparr>ContextVector := ContextVector st1 @
        [\<lparr>ctx_context = c, ctx_user_id = user_id st\<rparr>]\<rparr>"
    have e2: "evolves st st2"
      unfolding st2_def using new by (rule evolves_register)
    show ?thesis
    proof (cases "plv8_start_proc st2")
      case None
      with 1(2) \<open>ContextVector_find (ContextVector st) (user_id st) = None\<close> new e2
      show ?thesis
        by (subst (asm) GetGlobalContext.simps) (simp add: st2_def Let_def)
    next
      case (Some start_proc)
      obtain r st3 where f: "find_js_function_by_name H start_proc st2 = (r, st3)"
        by (cases "find_js_function_by_name H start_proc st2")
      have e3: "evolves st2 st3"
        using 1(1) [OF \<open>ContextVector_find (ContextVector st) (user_id st) = None\<close>
            new [symmetric] refl st2_def Some f] .
      have e: "evolves st st3" using e2 e3 by (rule evolves_trans)
      have es: "evolves st (st3\<lparr>sess := s\<rparr>)" for s
        using e evolves_sess by (rule evolves_trans)
      from 1(2) \<open>ContextVector_find (ContextVector st) (user_id st) = None\<close> new Some f e es
      show ?thesis
        by (subst (asm) GetGlobalContext.simps)
          (auto simp: st2_def Let_def split: sum.splits prod.splits)
    qed
  qed
next
  case (2 H pname proarglen proargs psrc is_trigger retset st)
  obtain r st1 where g: "GetGlobalContext H st = (r, st1)"
    by (cases "GetGlobalContext H st")
  have e1: "evolves st st1" using 2(1) [OF g] .
  have e2: "evolves st (st1\<lparr>next_handle := Suc (next_handle st1)\<rparr>)"
    using e1 evolves_alloc by (rule evolves_trans)
  have le: "next_handle st \<le> next_handle st1"
    using e1 by (simp add: evolves_def)
  from 2(2) g e1 e2 le show ?case
    by (subst (asm) CompileFunction.simps)
      (auto simp: Let_def split: sum.splits if_splits option.splits)
next
  case (3 H oid validate is_trigger st)
  obtain r st1 where g: "plv8_get_proc H oid validate st = (r, st1)"
    by (cases "plv8_get_proc H oid validate st")
  have e1: "evolves st st1" using g by (rule evolves_plv8_get_proc)
  show ?case
  proof (cases r)
    case (Inl e)
    with 3(2) g e1 show ?thesis
      by (subst (asm) Compile.simps) simp
  next
    case (Inr b)
    obtain proc argnames where b: "b = (proc, argnames)" by (cases b)
    show ?thesis
    proof (cases "plv8_proc_cache_hash st1 (proc_cache proc)")
      case None
      with 3(2) g Inr b e1 show ?thesis
        by (subst (asm) Compile.simps) simp
    next
      case (Some cache)
      show ?thesis
      proof (cases "cache_function cache = None")
        case False
        with 3(2) g Inr b Some e1 show ?thesis
          by (subst (asm) Compile.simps) auto
      next
        case True
        show ?thesis
        proof (cases "cache_prosrc cache")
          case None
          with 3(2) g Inr b Some True e1 show ?thesis
            by (subst (asm) Compile.simps) simp
        next
          case (Some src)
          obtain r2 st2 where c: "CompileFunction H (Some (cache_proname cache)) (cache_nargs cache)
              argnames src is_trigger (cache_retset cache) st1 = (r2, st2)"
            by (cases "CompileFunction H (Some (cache_proname cache)) (cache_nargs cache)
              argnames src is_trigger (cache_retset cache) st1")
          have e2f: "evolves st1 st2 \<and>
              (\<forall>f. r2 = Inr f \<longrightarrow> next_handle st1 \<le> fn_id f \<and>
                fn_source f = CompileFunction_source (cache_nargs cache) argnames src is_trigger)"
            using 3(1) [OF g [symmetric] Inr b [symmetric]
                \<open>plv8_proc_cache_hash st1 (proc_cache proc) = Some cache\<close> True Some c] .
          then have e2: "evolves st1 st2" by simp
          have e12: "evolves st st2" using e1 e2 by (rule evolves_trans)
          show ?thesis
          proof (cases r2)
            case (Inl e)
            with 3(2) g \<open>r = Inr b\<close> b \<open>plv8_proc_cache_hash st1 (proc_cache proc) = Some cache\<close>
              True Some c e12
            show ?thesis
              by (subst (asm) Compile.simps) simp
          next
            case (Inr f)
            from plv8_get_proc_result [OF g [unfolded \<open>r = Inr b\<close> b]]
            obtain cache' procTup where oid: "proc_cache proc = oid"
              and c': "plv8_proc_cache_hash st1 oid = Some cache'"
              and tup: "pg_proc st oid = Some procTup"
              and src: "cache_function cache' = None \<longrightarrow>
                  cache_prosrc cache' = prosrc procTup \<and> prosrc procTup \<noteq> None"
              by auto
            have same: "cache' = cache"
              using c' oid \<open>plv8_proc_cache_hash st1 (proc_cache proc) = Some cache\<close> by simp
            have "next_handle st \<le> next_handle st1"
              using e1 by (simp add: evolves_def)
            with e2f Inr have le: "next_handle st \<le> fn_id f"
              and ff: "fn_source f = CompileFunction_source (cache_nargs cache) argnames src is_trigger"
              by auto
            have fresh: "fresh_function st oid f"
              unfolding fresh_function_def
              using le tup src same True Some ff
                CompileFunction_source_wrapped [of "cache_nargs cache" argnames src is_trigger]
              by fastforce
            from 3(2) g \<open>r = Inr b\<close> b \<open>plv8_proc_cache_hash st1 (proc_cache proc) = Some cache\<close>
              True Some c Inr oid evolves_store [OF e12 fresh]
            show ?thesis
              by (subst (asm) Compile.simps) auto
          qed
        qed
      qed
    qed
  qed
next
  case (4 H oid st)
  show ?case
  proof (cases "pg_proc st oid")
    case None
    with 4(2) show ?thesis
      by (subst (asm) find_js_function.simps) (simp add: evolves_refl)
  next
    case (Some tuple)
    show ?thesis
    proof (cases "plv8_language st")
      case None
      with 4(2) Some show ?thesis
        by (subst (asm) find_js_function.simps) (simp add: evolves_refl)
    next
      case (Some langtupoid)
      show ?thesis
      proof (cases "langtupoid \<noteq> prolang tuple")
        case True
        with 4(2) Some \<open>pg_proc st oid = Some tuple\<close> show ?thesis
          by (subst (asm) find_js_function.simps) (simp add: evolves_refl)
      next
        case False
        obtain r st1 where c: "Compile H oid True False st = (r, st1)"
          by (cases "Compile H oid True False st")
        have "evolves st st1"
          using 4(1) [OF \<open>pg_proc st oid = Some tuple\<close> Some False c] .
        with 4(2) Some \<open>pg_proc st oid = Some tuple\<close> False c show ?thesis
          by (subst (asm) find_js_function.simps)
            (auto split: sum.splits error.splits option.splits)
      qed
    qed
  qed
next
  case (5 H signature st)
  show ?case
  proof (cases "if CHR ''('' \<notin> set signature then regproc st signature
            else regprocedure st signature")
    case None
    with 5(2) show ?thesis
      by (subst (asm) find_js_function_by_name.simps) (simp add: evolves_refl)
  next
    case (Some funcoid)
    obtain r st1 where f: "find_js_function H funcoid st = (r, st1)"
      by (cases "find_js_function H funcoid st")
    have "evolves st st1"
      using 5(1) [OF Some f] .
    with 5(2) Some f show ?thesis
      by (subst (asm) find_js_function_by_name.simps)
        (auto split: sum.splits option.splits)
  qed
qed

subsection \<open>C5: a failed start-up function\<close>











subsection \<open>C6: one context per principal\<close>








subsection \<open>C1: which compiled function a call runs\<close>

lemma fun_upd_Some_same: "f x = Some y \<Longrightarrow> f(x \<mapsto> y) = f"
  by (rule ext) simp

lemma plv8_get_proc_uptodate:
  assumes "pg_proc st oid = Some procTup" and "plv8_proc_cache_hash st oid = Some cache"
    and "uptodate cache procTup st"
    and "plv8_get_proc H oid validate st = (r, st1)"
  shows "st1 = st \<and> (\<forall>proc names. r = Inr (proc, names) \<longrightarrow> proc_cache proc = oid)"
proof -
  have "cache_function cache \<noteq> None"
    using assms(3) by (simp add: uptodate_def)
  moreover have "st\<lparr>plv8_proc_cache_hash := (plv8_proc_cache_hash st)(oid \<mapsto> cache)\<rparr> = st"
    using assms(2) by (simp add: fun_upd_Some_same)
  ultimately show ?thesis
    using assms
    by (auto simp: plv8_get_proc_def Let_def split: option.splits)
qed

lemma plv8_get_proc_stale:
  assumes "pg_proc st oid = Some procTup" and "plv8_proc_cache_hash st oid = Some cache"
    and "\<not> uptodate cache procTup st"
    and "plv8_get_proc H oid validate st = (r, st1)"
  shows "(\<forall>f. cache_function cache = Some f \<longrightarrow> fn_id f \<in> set (disposed st1)) \<and>
         (\<exists>c1. plv8_proc_cache_hash st1 oid = Some c1 \<and> cache_function c1 = None)"
  using assms
  by (auto simp: plv8_get_proc_def Let_def Dispose_def
      split: option.splits if_splits prod.splits sum.splits)

text \<open>
  \<open>Compile\<close> on a function that has a cache entry and a catalog row: if the entry's
  handle is not empty and its xmin, tuple location and user are those of the catalog
  row and the current user, \<open>Compile\<close> changes nothing (nothing is disposed or compiled,
  the entry keeps its function); otherwise the handle the entry held has been disposed,
  and whatever the outcome the entry afterwards holds either an empty handle or a
  function compiled during this call from the source text of the current catalog row,
  the latter whenever \<open>Compile\<close> succeeds. The stale function is never left in the
  cache.
\<close>

lemma Compile_cache_entry:
  assumes tup: "pg_proc st oid = Some procTup"
    and hit: "plv8_proc_cache_hash st oid = Some cache"
    and res: "Compile H oid validate is_trigger st = (r, st')"
  shows "(uptodate cache procTup st \<longrightarrow> st' = st) \<and>
         (\<not> uptodate cache procTup st \<longrightarrow>
            (\<forall>f. cache_function cache = Some f \<longrightarrow> fn_id f \<in> set (disposed st')) \<and>
            (\<exists>cache'. plv8_proc_cache_hash st' oid = Some cache' \<and>
               (\<forall>f. cache_function cache' = Some f \<longrightarrow> fresh_function st oid f) \<and>
               (\<forall>proc. r = Inr proc \<longrightarrow> cache_function cache' \<noteq> None)))"
proof (intro conjI impI)
  assume up: "uptodate cache procTup st"
  obtain rg st1 where g: "plv8_get_proc H oid validate st = (rg, st1)"
    by (cases "plv8_get_proc H oid validate st")
  from plv8_get_proc_uptodate [OF tup hit up g]
  have st1: "st1 = st" and pc: "\<forall>proc names. rg = Inr (proc, names) \<longrightarrow> proc_cache proc = oid"
    by auto
  have "cache_function cache \<noteq> None"
    using up by (simp add: uptodate_def)
  with res g st1 pc hit show "st' = st"
    by (subst (asm) Compile.simps) (auto split: sum.splits prod.splits)
next
  assume stale: "\<not> uptodate cache procTup st"
  obtain rg st1 where g: "plv8_get_proc H oid validate st = (rg, st1)"
    by (cases "plv8_get_proc H oid validate st")
  from plv8_get_proc_stale [OF tup hit stale g]
  obtain c1 where disp: "\<forall>f. cache_function cache = Some f \<longrightarrow> fn_id f \<in> set (disposed st1)"
    and c1: "plv8_proc_cache_hash st1 oid = Some c1" "cache_function c1 = None"
    by auto
  have e1: "evolves st st1" using g by (rule evolves_plv8_get_proc)
  have goal: "(\<forall>f. cache_function cache = Some f \<longrightarrow> fn_id f \<in> set (disposed st')) \<and>
            (\<exists>cache'. plv8_proc_cache_hash st' oid = Some cache' \<and>
               (\<forall>f. cache_function cache' = Some f \<longrightarrow> fresh_function st oid f) \<and>
               (\<forall>proc. r = Inr proc \<longrightarrow> cache_function cache' \<noteq> None))"
  proof (cases rg)
    case (Inl e)
    with res g have "st' = st1" "r = Inl e"
      by (subst (asm) Compile.simps; simp)+
    with disp c1 show ?thesis by simp
  next
    case (Inr b)
    obtain proc argnames where b: "b = (proc, argnames)" by (cases b)
    from plv8_get_proc_result [OF g [unfolded Inr b]]
    obtain procTup' where pc: "proc_cache proc = oid"
      and tup': "pg_proc st oid = Some procTup'"
      and src: "cache_prosrc c1 = prosrc procTup' \<and> prosrc procTup' \<noteq> None"
      using c1 by auto
    then obtain src0 where s0: "cache_prosrc c1 = Some src0" "prosrc procTup' = Some src0"
      by auto
    obtain r2 st2 where c: "CompileFunction H (Some (cache_proname c1)) (cache_nargs c1)
              argnames src0 is_trigger (cache_retset c1) st1 = (r2, st2)"
      by (cases "CompileFunction H (Some (cache_proname c1)) (cache_nargs c1)
              argnames src0 is_trigger (cache_retset c1) st1")
    from evolves_all(2) [OF c]
    have e2: "evolves st1 st2"
      and f2: "\<forall>f. r2 = Inr f \<longrightarrow> next_handle st1 \<le> fn_id f \<and>
                fn_source f = CompileFunction_source (cache_nargs c1) argnames src0 is_trigger"
      by auto
    have le: "next_handle st \<le> next_handle st1" and pg1: "pg_proc st1 = pg_proc st"
      using e1 by (simp_all add: evolves_def)
    have d2: "\<forall>f. cache_function cache = Some f \<longrightarrow> fn_id f \<in> set (disposed st2)"
      using disp e2 by (auto simp: evolves_def)
    from e2 have "plv8_proc_cache_hash st2 oid = plv8_proc_cache_hash st1 oid \<or>
             (\<exists>c'. plv8_proc_cache_hash st2 oid = Some c' \<and>
                   (\<forall>f. cache_function c' = Some f \<longrightarrow> fresh_function st1 oid f))"
      unfolding evolves_def by blast
    then obtain c2 where c2: "plv8_proc_cache_hash st2 oid = Some c2"
      "\<forall>f. cache_function c2 = Some f \<longrightarrow> fresh_function st oid f"
      using c1 fresh_function_mono [OF _ pg1 le] by auto
    show ?thesis
    proof (cases r2)
      case (Inl e)
      with res g \<open>rg = Inr b\<close> b pc c1 s0 c have "st' = st2" "r = Inl e"
        by (subst (asm) Compile.simps; simp)+
      with d2 c2 show ?thesis by simp
    next
      case (Inr f)
      with f2 le have "fresh_function st oid f"
        unfolding fresh_function_def using tup' s0
          CompileFunction_source_wrapped [of "cache_nargs c1" argnames src0 is_trigger]
        by fastforce
      moreover from res g \<open>rg = Inr b\<close> b pc c1 s0 c Inr
      have "st' = st2\<lparr>plv8_proc_cache_hash :=
                (plv8_proc_cache_hash st2)(oid := map_option (\<lambda>c. c\<lparr>cache_function := Some f\<rparr>)
                                       (plv8_proc_cache_hash st2 oid))\<rparr>"
        by (subst (asm) Compile.simps) simp
      ultimately show ?thesis
        using d2 c2 by simp
    qed
  qed
  from goal show "\<forall>f. cache_function cache = Some f \<longrightarrow> fn_id f \<in> set (disposed st')"
    by simp
  from goal show "\<exists>cache'. plv8_proc_cache_hash st' oid = Some cache' \<and>
               (\<forall>f. cache_function cache' = Some f \<longrightarrow> fresh_function st oid f) \<and>
               (\<forall>proc. r = Inr proc \<longrightarrow> cache_function cache' \<noteq> None)"
    by simp
qed

lemma Compile_proc_cache:
  "Compile H oid validate is_trigger st = (Inr proc, st') \<Longrightarrow> proc_cache proc = oid"
  by (subst (asm) Compile.simps)
    (auto split: prod.splits sum.splits option.splits if_splits dest: plv8_get_proc_result)

text \<open>
  The environment \<open>CreateExecEnv\<close> hands out holds, in its receiver, the function it
  was given.
\<close>

lemma CreateExecEnv_result:
  assumes "CreateExecEnv H f st = (Inr xenv, st')"
  shows "xenv < length (TopTransactionContext st') \<and>
         (\<exists>r. env_recv (TopTransactionContext st' ! xenv) = Some r \<and> recv_function r = f)"
proof -
  obtain x st1 where n: "plv8_new_exec_env st = (x, st1)"
    by (cases "plv8_new_exec_env st")
  then have x: "x < length (TopTransactionContext st1)"
    by (auto simp: plv8_new_exec_env_def Let_def)
  obtain rg st2 where g: "GetGlobalContext H st1 = (rg, st2)"
    by (cases "GetGlobalContext H st1")
  have "evolves st1 st2" using g by (rule evolves_all(1))
  then have m: "TopTransactionContext st2 = TopTransactionContext st1"
    by (simp add: evolves_def)
  from assms n g x m show ?thesis
    by (auto simp: CreateExecEnv_def Let_def split: sum.splits)
qed

text \<open>
  A call site without a \<open>plv8_proc\<close>: the handler compiles through the cache, and the
  environment it creates holds the function the cache entry has when \<open>Compile\<close>
  returns.
\<close>

lemma plv8_call_handler_proc_fresh_site:
  assumes none: "flinfo_fn_extra fcinfo = None"
    and res: "plv8_call_handler_proc H fcinfo st = (Inr proc, fcinfo', st')"
  shows "\<exists>proc0 st1 cache1 xenv r.
           Compile H (flinfo_fn_oid fcinfo) False (CALLED_AS_TRIGGER fcinfo) st = (Inr proc0, st1) \<and>
           plv8_proc_cache_hash st1 (flinfo_fn_oid fcinfo) = Some cache1 \<and>
           cache_function cache1 = Some (recv_function r) \<and>
           flinfo_fn_extra fcinfo' = Some proc \<and>
           proc_xenv proc = Some xenv \<and> xenv < length (TopTransactionContext st') \<and>
           env_recv (TopTransactionContext st' ! xenv) = Some r"
proof -
  obtain rc st1 where c: "Compile H (flinfo_fn_oid fcinfo) False (CALLED_AS_TRIGGER fcinfo) st = (rc, st1)"
    by (cases "Compile H (flinfo_fn_oid fcinfo) False (CALLED_AS_TRIGGER fcinfo) st")
  from res none c obtain proc0 where rc: "rc = Inr proc0"
    by (cases rc) (auto simp: plv8_call_handler_proc_def)
  have pc: "proc_cache proc0 = flinfo_fn_oid fcinfo"
    using c rc by (auto dest: Compile_proc_cache)
  from res none c rc pc obtain cache1 func where
    c1: "plv8_proc_cache_hash st1 (flinfo_fn_oid fcinfo) = Some cache1"
      "cache_function cache1 = Some func"
    by (auto simp: plv8_call_handler_proc_def split: option.splits)
  obtain re st2 where e: "CreateExecEnv H func st1 = (re, st2)"
    by (cases "CreateExecEnv H func st1")
  from res none c rc pc c1 e obtain xenv where
    x: "re = Inr xenv" "st' = st2" "proc = proc0\<lparr>proc_xenv := Some xenv\<rparr>"
       "fcinfo' = fcinfo\<lparr>flinfo_fn_extra := Some proc\<rparr>"
    by (cases re) (auto simp: plv8_call_handler_proc_def Let_def)
  from CreateExecEnv_result [OF e [unfolded x(1)]] obtain r where
    r: "xenv < length (TopTransactionContext st2)"
       "env_recv (TopTransactionContext st2 ! xenv) = Some r" "recv_function r = func"
    by blast
  show ?thesis
    using c rc c1 x r by auto
qed

text \<open>
  Claim C1, as the code has it. For a function that has a cache entry and a catalog
  row:
  \<^item> every \<open>Compile\<close> reuses the cached function exactly when the entry is up to date
    (handle not empty; xmin, tuple location and user those of the catalog row and the
    current user): then nothing changes; otherwise the handle the entry held has been
    disposed and the entry afterwards holds an empty handle or, whenever \<open>Compile\<close>
    succeeds, a function compiled during this call from the source text of the current
    catalog row;
  \<^item> a handler call from a call site that has no \<open>plv8_proc\<close> yet goes through
    \<open>Compile\<close>, and the function in the receiver of the environment it will call
    through is the cached one if the entry was up to date and a newly compiled one
    otherwise: such a call never runs a stale function;
  \<^item> a handler call from a call site that has kept the \<open>plv8_proc\<close> of an earlier
    call takes that \<open>plv8_proc\<close> with its environment as it is, and the state is not
    touched: neither the cache nor the catalog is consulted. For a plain function the
    handler's result is that of \<open>CallFunction\<close> through that environment, whose
    receiver holds whatever function it was created with.
\<close>

theorem procedure_cache_reuse:
  assumes tup: "pg_proc st oid = Some procTup"
    and hit: "plv8_proc_cache_hash st oid = Some cache"
  shows "(\<forall>validate is_trigger r st'. Compile H oid validate is_trigger st = (r, st') \<longrightarrow>
            (uptodate cache procTup st \<longrightarrow> st' = st) \<and>
            (\<not> uptodate cache procTup st \<longrightarrow>
               (\<forall>f. cache_function cache = Some f \<longrightarrow> fn_id f \<in> set (disposed st')) \<and>
               (\<exists>cache'. plv8_proc_cache_hash st' oid = Some cache' \<and>
                  (\<forall>f. cache_function cache' = Some f \<longrightarrow> fresh_function st oid f) \<and>
                  (\<forall>proc. r = Inr proc \<longrightarrow> cache_function cache' \<noteq> None)))) \<and>
         (\<forall>fcinfo proc fcinfo' st'.
            flinfo_fn_oid fcinfo = oid \<and> flinfo_fn_extra fcinfo = None \<and>
            plv8_call_handler_proc H fcinfo st = (Inr proc, fcinfo', st') \<longrightarrow>
            flinfo_fn_extra fcinfo' = Some proc \<and>
            (\<exists>xenv r. proc_xenv proc = Some xenv \<and> xenv < length (TopTransactionContext st') \<and>
               env_recv (TopTransactionContext st' ! xenv) = Some r \<and>
               (uptodate cache procTup st \<longrightarrow> cache_function cache = Some (recv_function r)) \<and>
               (\<not> uptodate cache procTup st \<longrightarrow> fresh_function st oid (recv_function r)))) \<and>
         (\<forall>fcinfo proc. flinfo_fn_extra fcinfo = Some proc \<longrightarrow>
            plv8_call_handler_proc H fcinfo st = (Inr proc, fcinfo, st)) \<and>
         (\<forall>fcinfo proc a cache0.
            flinfo_fn_extra fcinfo = Some proc \<and> proc_xenv proc = Some a \<and>
            a < length (TopTransactionContext st) \<and>
            plv8_proc_cache_hash st (proc_cache proc) = Some cache0 \<and>
            \<not> CALLED_AS_TRIGGER fcinfo \<and> \<not> cache_retset cache0 \<longrightarrow>
            plv8_call_handler H fcinfo st =
              (case CallFunction H fcinfo (TopTransactionContext st ! a) (cache_nargs cache0)
                      (proc_argtypes proc) (Some (proc_rettype proc)) (sess st) of
                 (Inl e, fcinfo2, s) \<Rightarrow> (Inl (rethrow e), fcinfo2, st\<lparr>sess := s\<rparr>)
               | (Inr d, fcinfo2, s) \<Rightarrow> (Inr d, fcinfo2, st\<lparr>sess := s\<rparr>)))"
proof -
  have A: "\<forall>validate is_trigger r st'. Compile H oid validate is_trigger st = (r, st') \<longrightarrow>
            (uptodate cache procTup st \<longrightarrow> st' = st) \<and>
            (\<not> uptodate cache procTup st \<longrightarrow>
               (\<forall>f. cache_function cache = Some f \<longrightarrow> fn_id f \<in> set (disposed st')) \<and>
               (\<exists>cache'. plv8_proc_cache_hash st' oid = Some cache' \<and>
                  (\<forall>f. cache_function cache' = Some f \<longrightarrow> fresh_function st oid f) \<and>
                  (\<forall>proc. r = Inr proc \<longrightarrow> cache_function cache' \<noteq> None)))"
    by (intro allI impI) (rule Compile_cache_entry [OF tup hit])
  have B: "\<forall>fcinfo proc fcinfo' st'.
            flinfo_fn_oid fcinfo = oid \<and> flinfo_fn_extra fcinfo = None \<and>
            plv8_call_handler_proc H fcinfo st = (Inr proc, fcinfo', st') \<longrightarrow>
            flinfo_fn_extra fcinfo' = Some proc \<and>
            (\<exists>xenv r. proc_xenv proc = Some xenv \<and> xenv < length (TopTransactionContext st') \<and>
               env_recv (TopTransactionContext st' ! xenv) = Some r \<and>
               (uptodate cache procTup st \<longrightarrow> cache_function cache = Some (recv_function r)) \<and>
               (\<not> uptodate cache procTup st \<longrightarrow> fresh_function st oid (recv_function r)))"
  proof (intro allI impI)
    fix fcinfo proc fcinfo' st'
    assume a: "flinfo_fn_oid fcinfo = oid \<and> flinfo_fn_extra fcinfo = None \<and>
            plv8_call_handler_proc H fcinfo st = (Inr proc, fcinfo', st')"
    from plv8_call_handler_proc_fresh_site [of fcinfo H st proc fcinfo' st'] a
    obtain proc0 st1 cache1 xenv r where
      c: "Compile H oid False (CALLED_AS_TRIGGER fcinfo) st = (Inr proc0, st1)"
      and c1: "plv8_proc_cache_hash st1 oid = Some cache1" "cache_function cache1 = Some (recv_function r)"
      and x: "flinfo_fn_extra fcinfo' = Some proc" "proc_xenv proc = Some xenv"
        "xenv < length (TopTransactionContext st')"
        "env_recv (TopTransactionContext st' ! xenv) = Some r"
      by auto
    note k = Compile_cache_entry [OF tup hit c]
    have up: "cache_function cache = Some (recv_function r)" if "uptodate cache procTup st"
      using k that c1 hit by auto
    have stale: "fresh_function st oid (recv_function r)" if "\<not> uptodate cache procTup st"
      using k that c1 by auto
    from x up stale show "flinfo_fn_extra fcinfo' = Some proc \<and>
            (\<exists>xenv r. proc_xenv proc = Some xenv \<and> xenv < length (TopTransactionContext st') \<and>
               env_recv (TopTransactionContext st' ! xenv) = Some r \<and>
               (uptodate cache procTup st \<longrightarrow> cache_function cache = Some (recv_function r)) \<and>
               (\<not> uptodate cache procTup st \<longrightarrow> fresh_function st oid (recv_function r)))"
      by blast
  qed
  have C: "\<forall>fcinfo proc. flinfo_fn_extra fcinfo = Some proc \<longrightarrow>
            plv8_call_handler_proc H fcinfo st = (Inr proc, fcinfo, st)"
    by (simp add: plv8_call_handler_proc_def)
  have D: "\<forall>fcinfo proc a cache0.
        flinfo_fn_extra fcinfo = Some proc \<and> proc_xenv proc = Some a \<and>
        a < length (TopTransactionContext st) \<and>
        plv8_proc_cache_hash st (proc_cache proc) = Some cache0 \<and>
        \<not> CALLED_AS_TRIGGER fcinfo \<and> \<not> cache_retset cache0 \<longrightarrow>
        plv8_call_handler H fcinfo st =
          (case CallFunction H fcinfo (TopTransactionContext st ! a) (cache_nargs cache0)
                  (proc_argtypes proc) (Some (proc_rettype proc)) (sess st) of
             (Inl e, fcinfo2, s) \<Rightarrow> (Inl (rethrow e), fcinfo2, st\<lparr>sess := s\<rparr>)
           | (Inr d, fcinfo2, s) \<Rightarrow> (Inr d, fcinfo2, st\<lparr>sess := s\<rparr>))"
    by (auto simp: plv8_call_handler_def plv8_call_handler_proc_def Let_def
        split: prod.splits sum.splits)
  show ?thesis
    by (rule conjI [OF A conjI [OF B conjI [OF C D]]])
qed

text \<open>
  Concrete inputs: function 100 with catalog row version (701, (0, 2)) and source
  \<open>return 2\<close>, cached under a given version with an older compiled function 3; user 10
  has context 1; a call site for function 100 that has no \<open>plv8_proc\<close> yet.
\<close>

definition f_tuple :: pg_proc_tuple where
  "f_tuple = \<lparr>t_xmin = 701, t_self = \<lparr>ip_blkid = 0, ip_posid = 2\<rparr>, proname = ''f'',
      prosrc = Some ''return 2'', proretset = False, prorettype = 23, prolang = 300,
      proallargtypes = [], proargnames = None, proargmodes = None\<rparr>"

definition f_old :: js_function where
  "f_old = \<lparr>fn_id = 3, fn_source = ''(function (){\<newline>return 1\<newline>})'', fn_name = Some ''f'',
      fn_context = 1\<rparr>"

definition cache_f :: "TransactionId \<Rightarrow> nat \<Rightarrow> plv8_proc_cache" where
  "cache_f xmin posid =
     \<lparr>fn_oid = 100, cache_function = Some f_old, cache_proname = ''f'',
      cache_prosrc = Some ''return 1'', fn_xmin = xmin,
      fn_tid = \<lparr>ip_blkid = 0, ip_posid = posid\<rparr>, cache_user_id = 10, cache_nargs = 0,
      cache_retset = False, cache_rettype = 23, cache_argtypes = []\<rparr>"

definition st_cached :: "TransactionId \<Rightarrow> nat \<Rightarrow> state" where
  "st_cached xmin posid =
     st0\<lparr>ContextVector := [\<lparr>ctx_context = 1, ctx_user_id = 10\<rparr>], next_handle := 10,
         pg_proc := (\<lambda>oid. if oid = 100 then Some f_tuple else None),
         plv8_proc_cache_hash := (\<lambda>oid. if oid = 100 then Some (cache_f xmin posid) else None)\<rparr>"

definition fcinfo_f :: FunctionCallInfoData where
  "fcinfo_f = \<lparr>flinfo_fn_oid = 100, flinfo_fn_extra = None, fc_arg = [], fc_argnull = [],
      fc_isnull = False, resultinfo = None, fc_context = None,
      call_result_type = TYPEFUNC_SCALAR\<rparr>"

lemmas cache_eval =
  GetGlobalContext.simps Compile.simps CompileFunction.simps plv8_get_proc_def uptodate_def
  Dispose_def CompileFunction_source_def st_cached_def cache_f_def f_old_def f_tuple_def
  st0_def s0_def H0_def Let_def NAMEDATALEN_def

theorem procedure_cache_reuse_witness:
  "uptodate (cache_f 701 2) f_tuple (st_cached 701 2) \<and>
   snd (Compile H0 100 False False (st_cached 701 2)) = st_cached 701 2 \<and>
   \<not> uptodate (cache_f 700 1) f_tuple (st_cached 700 1) \<and>
   3 \<in> set (disposed (snd (Compile H0 100 False False (st_cached 700 1)))) \<and>
   (\<exists>cache' f. plv8_proc_cache_hash (snd (Compile H0 100 False False (st_cached 700 1))) 100 =
        Some cache' \<and> cache_function cache' = Some f \<and> 10 \<le> fn_id f) \<and>
   (\<exists>proc xenv r.
      fst (plv8_call_handler_proc H0 fcinfo_f (st_cached 700 1)) = Inr proc \<and>
      proc_xenv proc = Some xenv \<and>
      env_recv (TopTransactionContext
                  (snd (snd (plv8_call_handler_proc H0 fcinfo_f (st_cached 700 1)))) ! xenv) = Some r \<and>
      10 \<le> fn_id (recv_function r))"
proof -
  let ?P = "plv8_call_handler_proc H0 fcinfo_f (st_cached 700 1)"
  have tup: "pg_proc (st_cached x p) 100 = Some f_tuple" for x p
    by (simp add: st_cached_def)
  have hit: "plv8_proc_cache_hash (st_cached x p) 100 = Some (cache_f x p)" for x p
    by (simp add: st_cached_def)
  have up: "uptodate (cache_f 701 2) f_tuple (st_cached 701 2)"
    by (simp add: uptodate_def cache_f_def f_tuple_def st_cached_def st0_def)
  have stale: "\<not> uptodate (cache_f 700 1) f_tuple (st_cached 700 1)"
    by (simp add: uptodate_def cache_f_def f_tuple_def st_cached_def st0_def)
  have ok: "\<exists>proc. fst (Compile H0 100 False False (st_cached 700 1)) = Inr proc"
    by (simp add: cache_eval)
  then obtain proc where
    res: "Compile H0 100 False False (st_cached 700 1) =
            (Inr proc, snd (Compile H0 100 False False (st_cached 700 1)))"
    by (auto simp: prod_eq_iff)
  have f: "cache_function (cache_f 700 1) = Some f_old" "fn_id f_old = 3"
      "next_handle (st_cached 700 1) = 10"
    by (simp_all add: cache_f_def f_old_def st_cached_def)
  have res2: "Compile H0 100 False False (st_cached 701 2) =
      (fst (Compile H0 100 False False (st_cached 701 2)),
       snd (Compile H0 100 False False (st_cached 701 2)))"
    by simp
  have hp: "\<exists>proc. fst ?P = Inr proc"
    by (simp add: cache_eval plv8_call_handler_proc_def CreateExecEnv_def plv8_new_exec_env_def
        fcinfo_f_def CALLED_AS_TRIGGER_def)
  then obtain hproc where fh: "fst ?P = Inr hproc"
    by blast
  then have hres: "?P = (Inr hproc, fst (snd ?P), snd (snd ?P))"
    by (simp add: prod_eq_iff)
  have pre: "flinfo_fn_oid fcinfo_f = 100 \<and> flinfo_fn_extra fcinfo_f = None \<and>
      ?P = (Inr hproc, fst (snd ?P), snd (snd ?P))"
    using hres by (simp add: fcinfo_f_def)
  note T1 = procedure_cache_reuse [OF tup [of 701 2] hit [of 701 2], of H0]
  note T2 = procedure_cache_reuse [OF tup [of 700 1] hit [of 700 1], of H0]
  from T1 [THEN conjunct1, rule_format, OF res2] up
  have a: "snd (Compile H0 100 False False (st_cached 701 2)) = st_cached 701 2"
    by simp
  from T2 [THEN conjunct1, rule_format, OF res] stale f
  have b: "3 \<in> set (disposed (snd (Compile H0 100 False False (st_cached 700 1))))"
    and c: "\<exists>cache' f. plv8_proc_cache_hash (snd (Compile H0 100 False False (st_cached 700 1))) 100 =
        Some cache' \<and> cache_function cache' = Some f \<and> 10 \<le> fn_id f"
    by (auto simp: fresh_function_def)
  from T2 [THEN conjunct2, THEN conjunct1, rule_format, OF pre] stale
  obtain xenv r where x: "proc_xenv hproc = Some xenv"
      "env_recv (TopTransactionContext (snd (snd ?P)) ! xenv) = Some r"
      "fresh_function (st_cached 700 1) 100 (recv_function r)"
    by blast
  from x(3) f(3) have "10 \<le> fn_id (recv_function r)"
    by (simp add: fresh_function_def)
  with fh x(1,2)
  have d: "\<exists>proc xenv r. fst ?P = Inr proc \<and> proc_xenv proc = Some xenv \<and>
      env_recv (TopTransactionContext (snd (snd ?P)) ! xenv) = Some r \<and>
      10 \<le> fn_id (recv_function r)"
    by blast
  from up a stale b c d show ?thesis by blast
qed

text \<open>
  The claim that a stale compiled function never runs fails for a call site that keeps
  its \<open>plv8_proc\<close>. Function 100 has parameters \<open>a\<close> and \<open>b\<close> and source
  \<open>return a\<close>; the scripts of the host return the source text of the function that
  is called. A first handler call compiles function 10 and gives the call site its
  \<open>plv8_proc\<close>. The function is then replaced in the catalog (source \<open>return b\<close>). A
  handler call from a new call site disposes function 10 and runs the new source. A
  handler call from the first call site still runs the old source.
\<close>

definition g_tuple :: "TransactionId \<Rightarrow> nat \<Rightarrow> string \<Rightarrow> pg_proc_tuple" where
  "g_tuple xmin posid src =
     \<lparr>t_xmin = xmin, t_self = \<lparr>ip_blkid = 0, ip_posid = posid\<rparr>, proname = ''g'',
      prosrc = Some src, proretset = False, prorettype = 25, prolang = 300,
      proallargtypes = [23, 23], proargnames = Some [Some ''a'', Some ''b''],
      proargmodes = None\<rparr>"

definition st_g :: state where
  "st_g = st0\<lparr>ContextVector := [\<lparr>ctx_context = 1, ctx_user_id = 10\<rparr>], next_handle := 10,
      pg_proc := (\<lambda>oid. if oid = 100 then Some (g_tuple 700 1 ''return a'') else None)\<rparr>"

definition fcinfo_g :: FunctionCallInfoData where
  "fcinfo_g = \<lparr>flinfo_fn_oid = 100, flinfo_fn_extra = None, fc_arg = [Int_Datum 1, Int_Datum 2],
      fc_argnull = [False, False], fc_isnull = False, resultinfo = None, fc_context = None,
      call_result_type = TYPEFUNC_SCALAR\<rparr>"

definition H_src :: host where
  "H_src = H0\<lparr>h_Call := (\<lambda>fn recv args s. (Inr (JS_String (fn_source fn)), s))\<rparr>"

definition call1 :: "(error + Datum) \<times> FunctionCallInfoData \<times> state" where
  "call1 = plv8_call_handler H_src fcinfo_g st_g"

definition st_replaced :: state where
  "st_replaced = (snd (snd call1))
      \<lparr>pg_proc := (\<lambda>oid. if oid = 100 then Some (g_tuple 701 2 ''return b'') else None)\<rparr>"

definition call2 :: "(error + Datum) \<times> FunctionCallInfoData \<times> state" where
  "call2 = plv8_call_handler H_src fcinfo_g st_replaced"

definition call3 :: "(error + Datum) \<times> FunctionCallInfoData \<times> state" where
  "call3 = plv8_call_handler H_src (fst (snd call1)) (snd (snd call2))"

lemmas handler_eval =
  plv8_call_handler_def plv8_call_handler_proc_def CALLED_AS_TRIGGER_def rethrow_def
  CreateExecEnv_def plv8_new_exec_env_def CallFunction_def DoCall_def SPI_connect_def
  SPI_finish_def SPI_OK_CONNECT_def SPI_OK_FINISH_def GetGlobalContext.simps Compile.simps
  CompileFunction.simps plv8_get_proc_def uptodate_def new_cache_entry_def Dispose_def
  CompileFunction_source_def st_g_def g_tuple_def fcinfo_g_def H_src_def st0_def s0_def H0_def
  Let_def NAMEDATALEN_def upt_rec

theorem stale_function_counterexample:
  "fst call1 = Inr (Text_Datum ''(function (a,b){\<newline>return a\<newline>})'') \<and>
   flinfo_fn_extra (fst (snd call1)) \<noteq> None \<and>
   map_option (map_option fn_id \<circ> cache_function) (plv8_proc_cache_hash (snd (snd call1)) 100) =
     Some (Some 10) \<and>
   map_option prosrc (pg_proc (snd (snd call2)) 100) = Some (Some ''return b'') \<and>
   fst call2 = Inr (Text_Datum ''(function (a,b){\<newline>return b\<newline>})'') \<and>
   10 \<in> set (disposed (snd (snd call2))) \<and>
   fst call3 = Inr (Text_Datum ''(function (a,b){\<newline>return a\<newline>})'')"
  unfolding call3_def call2_def st_replaced_def call1_def
  by (simp add: handler_eval)

end
